(* ===== verification/JsPrelude.thy ===== *)
theory JsPrelude
  imports Main "HOL-Library.AList"
begin

section \<open>The JavaScript fragment the home automation code uses\<close>

text \<open>
  Shared vocabulary of the development. It holds the JavaScript values that attributes,
  action arguments and messages carry, the standard-library functions the code calls on
  them (string conversion, \<open>parseInt\<close>, \<open>split\<close>), objects used as dictionaries, the array
  helpers of the repository's \<open>utils.js\<close> and \<open>tools.js\<close> files, and operations that may
  throw while keeping the state changes made before the throw.

  A JavaScript string is a HOL \<open>string\<close>: its code units are restricted to the first 256.
  Numbers are integers or NaN; the zoom of the designer is kept in hundredths and the positions
  of the earlier pages are rationals; nothing else computes with fractions. An object used as a dictionary is an association list in
  insertion order; keys that name a member of \<open>Object.prototype\<close> (\<open>constructor\<close>,
  \<open>toString\<close>) are outside the model, as is the special enumeration order of
  keys that are array indices.
\<close>

named_theorems js_simps \<open>rewrite rules for JavaScript values and library functions\<close>
named_theorems along_intros \<open>introduction rules for state relations kept by operations\<close>

subsection \<open>Values\<close>

datatype jsval = VUndefined | VNull | VNaN | VNum int | VStr string

text \<open>\<open>truthy\<close> is the condition of an \<open>if\<close>: the code's \<open>if(!arg)\<close> is \<open>\<not> truthy arg\<close>.\<close>

fun truthy :: "jsval \<Rightarrow> bool" where
  "truthy VUndefined = False"
| "truthy VNull = False"
| "truthy VNaN = False"
| "truthy (VNum n) = (n \<noteq> 0)"
| "truthy (VStr s) = (s \<noteq> [])"

subsection \<open>Decimal numbers\<close>

definition digit_char :: "nat \<Rightarrow> char" where
  "digit_char d = char_of (48 + d)"

definition is_digit :: "char \<Rightarrow> bool" where
  "is_digit c = (48 \<le> (of_char c :: nat) \<and> of_char c \<le> (57 :: nat))"

definition digit_val :: "char \<Rightarrow> nat" where
  "digit_val c = of_char c - 48"

fun show_nat :: "nat \<Rightarrow> string" where
  "show_nat n = (if n < 10 then [digit_char n] else show_nat (n div 10) @ [digit_char (n mod 10)])"

declare show_nat.simps [simp del]

definition show_int :: "int \<Rightarrow> string" where
  "show_int i = (if i < 0 then CHR ''-'' # show_nat (nat (- i)) else show_nat (nat i))"

text \<open>String conversion, as in \<open>'|' + value\<close>.\<close>

fun to_str :: "jsval \<Rightarrow> string" where
  "to_str VUndefined = ''undefined''"
| "to_str VNull = ''null''"
| "to_str VNaN = ''NaN''"
| "to_str (VNum n) = show_int n"
| "to_str (VStr s) = s"

definition read_nat :: "nat \<Rightarrow> (char \<Rightarrow> nat) \<Rightarrow> string \<Rightarrow> nat" where
  "read_nat radix val s = foldl (\<lambda>a c. radix * a + val c) 0 s"

definition is_space :: "char \<Rightarrow> bool" where
  "is_space c = ((of_char c :: nat) \<in> {9, 10, 11, 12, 13, 32, 160})"

text \<open>
  \<open>parseInt(s, 10)\<close>: leading white space, an optional sign, the longest run of digits;
  \<open>None\<close> stands for NaN. Results beyond $2^{53}$ are exact here and rounded in JavaScript;
  the rounding is monotone, so the comparisons with range bounds below that size agree.
\<close>

definition parse_digits :: "string \<Rightarrow> int option" where
  "parse_digits s =
     (let ds = takeWhile is_digit s
      in if ds = [] then None else Some (int (read_nat 10 digit_val ds)))"

definition parse_signed :: "(string \<Rightarrow> int option) \<Rightarrow> string \<Rightarrow> int option" where
  "parse_signed p s =
     (case dropWhile is_space s of
        [] \<Rightarrow> p []
      | c # cs \<Rightarrow>
          if c = CHR ''-'' then map_option uminus (p cs)
          else if c = CHR ''+'' then p cs
          else p (c # cs))"

definition parse_int10 :: "string \<Rightarrow> int option" where
  "parse_int10 s = parse_signed parse_digits s"

definition is_hex :: "char \<Rightarrow> bool" where
  "is_hex c = (is_digit c \<or> (65 \<le> (of_char c :: nat) \<and> of_char c \<le> (70 :: nat))
                \<or> (97 \<le> (of_char c :: nat) \<and> of_char c \<le> (102 :: nat)))"

definition hex_val :: "char \<Rightarrow> nat" where
  "hex_val c = (if is_digit c then digit_val c
                else if (of_char c :: nat) \<le> 70 then of_char c - 55 else of_char c - 87)"

text \<open>\<open>parseInt(s)\<close> without a radix also reads a hexadecimal literal.\<close>

definition parse_prefixed :: "string \<Rightarrow> int option" where
  "parse_prefixed s =
     (if take 2 s = ''0x'' \<or> take 2 s = ''0X''
      then (let hs = takeWhile is_hex (drop 2 s)
            in if hs = [] then None else Some (int (read_nat 16 hex_val hs)))
      else parse_digits s)"

definition parse_int :: "string \<Rightarrow> int option" where
  "parse_int s = parse_signed parse_prefixed s"

fun num_or_nan :: "int option \<Rightarrow> jsval" where
  "num_or_nan None = VNaN"
| "num_or_nan (Some n) = VNum n"

lemma of_char_digit: "d < 10 \<Longrightarrow> (of_char (digit_char d) :: nat) = 48 + d"
  by (simp add: digit_char_def)

lemma is_digit_digit_char: "d < 10 \<Longrightarrow> is_digit (digit_char d)"
  by (simp add: is_digit_def of_char_digit)

lemma digit_val_digit_char: "d < 10 \<Longrightarrow> digit_val (digit_char d) = d"
  by (simp add: digit_val_def of_char_digit)

lemma show_nat_digits: "\<forall>c \<in> set (show_nat n). is_digit c"
proof (induction n rule: show_nat.induct)
  case (1 n)
  then show ?case
    by (subst show_nat.simps) (auto simp: is_digit_digit_char)
qed

lemma show_nat_nonempty: "show_nat n \<noteq> []"
  by (subst show_nat.simps) simp

lemma read_nat_snoc: "read_nat r v (s @ [c]) = r * read_nat r v s + v c"
  by (simp add: read_nat_def)

lemma read_show_nat: "read_nat 10 digit_val (show_nat n) = n"
proof (induction n rule: show_nat.induct)
  case (1 n)
  show ?case
  proof (cases "n < 10")
    case True
    then show ?thesis
      by (subst show_nat.simps) (simp add: read_nat_def digit_val_digit_char)
  next
    case False
    with 1 have "read_nat 10 digit_val (show_nat (n div 10)) = n div 10" by simp
    with False show ?thesis
      by (subst show_nat.simps) (simp add: read_nat_snoc digit_val_digit_char)
  qed
qed

lemma digit_not_special:
  assumes "is_digit c"
  shows "\<not> is_space c" "c \<noteq> CHR ''-''" "c \<noteq> CHR ''+''" "c \<noteq> CHR ''x''" "c \<noteq> CHR ''X''" "c \<noteq> CHR ''|''"
  using assms by (auto simp: is_digit_def is_space_def)

lemma parse_digits_show_nat: "parse_digits (show_nat n) = Some (int n)"
proof -
  have *: "takeWhile is_digit (show_nat n) = show_nat n"
    using show_nat_digits by (simp add: takeWhile_eq_all_conv)
  show ?thesis
    unfolding parse_digits_def Let_def * by (simp add: show_nat_nonempty read_show_nat)
qed

lemma parse_signed_digit_head:
  assumes "s \<noteq> []" "is_digit (hd s)"
  shows "parse_signed p s = p s"
  using assms by (cases s) (auto simp: parse_signed_def digit_not_special)

lemma parse_signed_show_nat: "parse_signed p (show_nat n) = p (show_nat n)"
  by (rule parse_signed_digit_head)
    (use show_nat_nonempty[of n] show_nat_digits[of n] in \<open>auto intro: hd_in_set\<close>)

lemma parse_signed_show_int:
  "parse_signed p (show_int i) =
     (if i < 0 then map_option uminus (p (show_nat (nat (- i)))) else p (show_nat (nat i)))"
proof (cases "i < 0")
  case True
  then show ?thesis by (simp add: show_int_def parse_signed_def is_space_def)
next
  case False
  then show ?thesis by (simp add: show_int_def parse_signed_show_nat)
qed

lemma parse_int10_show_int [js_simps]: "parse_int10 (show_int i) = Some i"
  by (simp add: parse_int10_def parse_signed_show_int parse_digits_show_nat)

lemma parse_prefixed_show_nat: "parse_prefixed (show_nat n) = Some (int n)"
proof -
  have "\<forall>c \<in> set (take 2 (show_nat n)). is_digit c"
    using show_nat_digits in_set_takeD by metis
  then have "take 2 (show_nat n) \<noteq> ''0x''" "take 2 (show_nat n) \<noteq> ''0X''"
    by (auto simp: is_digit_def)
  then show ?thesis by (simp add: parse_prefixed_def parse_digits_show_nat)
qed

lemma parse_int_show_int [js_simps]: "parse_int (show_int i) = Some i"
  by (simp add: parse_int_def parse_signed_show_int parse_prefixed_show_nat)

lemma show_int_nonempty: "show_int i \<noteq> []"
  by (simp add: show_int_def show_nat_nonempty)

lemma show_int_no_bar: "CHR ''|'' \<notin> set (show_int i)"
proof -
  have "CHR ''|'' \<notin> set (show_nat n)" for n
    using show_nat_digits digit_not_special(6) by blast
  then show ?thesis by (simp add: show_int_def)
qed

subsection \<open>Splitting and joining strings\<close>

text \<open>\<open>text.split(c)\<close> for a one-character separator; the empty string gives one empty part.\<close>

fun split_on :: "char \<Rightarrow> string \<Rightarrow> string list" where
  "split_on c [] = [[]]"
| "split_on c (x # xs) =
     (if x = c then [] # split_on c xs
      else (case split_on c xs of [] \<Rightarrow> [[x]] | y # ys \<Rightarrow> (x # y) # ys))"

fun join_on :: "char \<Rightarrow> string list \<Rightarrow> string" where
  "join_on c [] = []"
| "join_on c [x] = x"
| "join_on c (x # y # ys) = x @ c # join_on c (y # ys)"

lemma split_on_nonempty [simp]: "split_on c s \<noteq> []"
  by (cases s) (simp_all split: list.split)

lemma split_on_no_sep: "c \<notin> set s \<Longrightarrow> split_on c s = [s]"
  by (induction s) auto

lemma split_on_append: "c \<notin> set s \<Longrightarrow> split_on c (s @ c # t) = s # split_on c t"
  by (induction s) (auto split: list.splits)

lemma split_join_on:
  "xs \<noteq> [] \<Longrightarrow> \<forall>x \<in> set xs. c \<notin> set x \<Longrightarrow> split_on c (join_on c xs) = xs"
  by (induction c xs rule: join_on.induct) (auto simp: split_on_no_sep split_on_append)

lemma join_split_on: "join_on c (split_on c s) = s"
proof (induction s)
  case (Cons x s)
  obtain y ys where "split_on c s = y # ys"
    by (cases "split_on c s") auto
  with Cons show ?case
    by (cases ys) auto
qed simp

lemma split_on_parts: "p \<in> set (split_on c s) \<Longrightarrow> c \<notin> set p"
proof (induction s arbitrary: p)
  case (Cons x s)
  then show ?case
    by (cases "split_on c s") (auto split: if_splits)
qed simp

subsection \<open>Objects used as dictionaries\<close>

type_synonym 'v dict = "(string \<times> 'v) list"

abbreviation jget :: "'v dict \<Rightarrow> string \<Rightarrow> 'v option" where
  "jget \<equiv> map_of"

text \<open>\<open>m[k] = v\<close> keeps the position of an existing key and appends a new one.\<close>

abbreviation jset :: "string \<Rightarrow> 'v \<Rightarrow> 'v dict \<Rightarrow> 'v dict" where
  "jset \<equiv> AList.update"

text \<open>\<open>delete m[k]\<close>.\<close>

abbreviation jdel :: "string \<Rightarrow> 'v dict \<Rightarrow> 'v dict" where
  "jdel \<equiv> AList.delete"

abbreviation jkeys :: "'v dict \<Rightarrow> string list" where
  "jkeys m \<equiv> map fst m"

text \<open>
  What the modules rely on when they keep their state in an object: a lookup after an
  assignment or a deletion. Facts about the registries of the program are proved once from this
  contract.
\<close>

locale js_dictionary =
  fixes dget :: "'m \<Rightarrow> string \<Rightarrow> 'v option"
    and dset :: "string \<Rightarrow> 'v \<Rightarrow> 'm \<Rightarrow> 'm"
    and ddel :: "string \<Rightarrow> 'm \<Rightarrow> 'm"
    and dkeys :: "'m \<Rightarrow> string list"
    and dinv :: "'m \<Rightarrow> bool"
  assumes dget_dset: "dget (dset k v m) = (dget m)(k \<mapsto> v)"
    and dget_ddel: "dget (ddel k m) = (dget m)(k := None)"
    and dkeys_dget: "set (dkeys m) = {k. dget m k \<noteq> None}"
    and dinv_distinct: "dinv m \<Longrightarrow> distinct (dkeys m)"
    and dinv_dset: "dinv m \<Longrightarrow> dinv (dset k v m)"
    and dinv_ddel: "dinv m \<Longrightarrow> dinv (ddel k m)"
begin

lemma keys_dset: "set (dkeys (dset k v m)) = insert k (set (dkeys m))"
  by (auto simp: dkeys_dget dget_dset)

lemma keys_ddel: "set (dkeys (ddel k m)) = set (dkeys m) - {k}"
  by (auto simp: dkeys_dget dget_ddel)

lemma ddel_dset_get: "dget m k = None \<Longrightarrow> dget (ddel k (dset k v m)) = dget m"
  by (auto simp: dget_dset dget_ddel)

lemma length_keys_dset:
  assumes "dinv m" "dget m k = None"
  shows "length (dkeys (dset k v m)) = Suc (length (dkeys m))"
proof -
  have "k \<notin> set (dkeys m)" using assms(2) by (simp add: dkeys_dget)
  moreover have "distinct (dkeys (dset k v m))" "distinct (dkeys m)"
    using assms(1) by (auto intro: dinv_distinct dinv_dset)
  ultimately show ?thesis
    by (metis keys_dset card_insert_disjoint distinct_card finite_set)
qed

end

lemma jget_jset [simp]: "jget (jset k v m) = (jget m)(k \<mapsto> v)"
  by (rule update_conv')

lemma jget_jdel [simp]: "jget (jdel k m) = (jget m)(k := None)"
  by (rule delete_conv')

lemma jget_key: "jget m k = Some v \<Longrightarrow> k \<in> set (jkeys m)"
  by (force dest: map_of_SomeD)

interpretation jd: js_dictionary jget jset jdel jkeys "\<lambda>m. distinct (jkeys m)"
proof unfold_locales
  show "distinct (jkeys m) \<Longrightarrow> distinct (jkeys (jset k v m))" for m :: "'a dict" and k v
    by (rule distinct_update)
  show "distinct (jkeys m) \<Longrightarrow> distinct (jkeys (jdel k m))" for m :: "'a dict" and k
    by (rule distinct_delete)
  show "set (jkeys m) = {k. jget m k \<noteq> None}" for m :: "'a dict"
    by (force simp: map_of_eq_None_iff)
qed simp_all

subsection \<open>Array helpers\<close>

text \<open>
  \<open>removeFromArray\<close> removes the first element that is the item and tells whether there was one. Array items are compared
  with \<open>===\<close>, so the model uses it on values whose equality stands for object identity.
\<close>

definition removeFromArray :: "'a list \<Rightarrow> 'a \<Rightarrow> bool \<times> 'a list" where
  "removeFromArray xs x = (if x \<in> set xs then (True, remove1 x xs) else (False, xs))"

lemma removeFromArray_list: "snd (removeFromArray xs x) = remove1 x xs"
  by (simp add: removeFromArray_def remove1_idem)

fun arrayFind :: "'a list \<Rightarrow> ('a \<Rightarrow> bool) \<Rightarrow> 'a option" where
  "arrayFind [] p = None"
| "arrayFind (x # xs) p = (if p x then Some x else arrayFind xs p)"

definition arraySelect :: "'a list \<Rightarrow> ('a \<Rightarrow> 'b) \<Rightarrow> 'b list" where
  "arraySelect xs f = map f xs"

definition arrayKeepIf :: "'a list \<Rightarrow> ('a \<Rightarrow> bool) \<Rightarrow> 'a list" where
  "arrayKeepIf xs p = filter p xs"

definition arrayRemoveIf :: "'a list \<Rightarrow> ('a \<Rightarrow> bool) \<Rightarrow> 'a list" where
  "arrayRemoveIf xs p = arrayKeepIf xs (\<lambda>x. \<not> p x)"

lemma arrayFind_Some: "arrayFind xs p = Some x \<Longrightarrow> x \<in> set xs \<and> p x"
  by (induction xs) (auto split: if_splits)

lemma arrayFind_None: "arrayFind xs p = None \<longleftrightarrow> (\<forall>x \<in> set xs. \<not> p x)"
  by (induction xs) auto

lemma arrayFind_map: "arrayFind (map f xs) p = map_option f (arrayFind xs (p \<circ> f))"
  by (induction xs) auto

lemma find_SomeD: "find p xs = Some x \<Longrightarrow> x \<in> set xs \<and> p x"
  by (induction xs) (auto split: if_splits)

subsection \<open>Operations that may throw\<close>

datatype js_error =
    AssertionError
  | InvalidArgument                 \<comment> \<open>'invalid argument'\<close>
  | InvalidValue                    \<comment> \<open>'invalid value'\<close>
  | InvalidArgumentsCount           \<comment> \<open>'invalid arguments count'\<close>
  | TypeErr                         \<comment> \<open>a property of undefined or null is read\<close>
  | ContainerExists                 \<comment> \<open>'container already exists'\<close>
  | HardwareExists                  \<comment> \<open>'hardware already exists'\<close>
  | LinkExists                      \<comment> \<open>'link already exists'\<close>
  | UsedInLink string string        \<comment> \<open>'object \%s used in link \%s'\<close>
  | PluginNotFound | HardwareNotFound | LinkNotFound
  | PluginTypeExists                \<comment> \<open>'A plugin with same name already exists'\<close>
  | LoadFailed                      \<comment> \<open>reading or parsing a file, or parsing an answer, failed\<close>
  | StackOverflow                   \<comment> \<open>RangeError: the call stack is exhausted\<close>

text \<open>
  An operation takes the state and gives its result or the error it threw, with the state
  at that moment: what was changed before a throw stays changed.
\<close>

type_synonym ('w, 'a) op = "'w \<Rightarrow> (js_error + 'a) \<times> 'w"

definition ret :: "'a \<Rightarrow> ('w, 'a) op" where
  "ret x w = (Inr x, w)"

definition throw :: "js_error \<Rightarrow> ('w, 'a) op" where
  "throw e w = (Inl e, w)"

definition bindE :: "('w, 'a) op \<Rightarrow> ('a \<Rightarrow> ('w, 'b) op) \<Rightarrow> ('w, 'b) op" where
  "bindE m f w = (case m w of (Inl e, w') \<Rightarrow> (Inl e, w') | (Inr x, w') \<Rightarrow> f x w')"

definition seqE :: "('w, unit) op \<Rightarrow> ('w, 'b) op \<Rightarrow> ('w, 'b) op" where
  "seqE m k = bindE m (\<lambda>_. k)"

definition modifyE :: "('w \<Rightarrow> 'w) \<Rightarrow> ('w, unit) op" where
  "modifyE f w = (Inr (), f w)"

primrec forE :: "'a list \<Rightarrow> ('a \<Rightarrow> ('w, unit) op) \<Rightarrow> ('w, unit) op" where
  "forE [] f = ret ()"
| "forE (x # xs) f = seqE (f x) (forE xs f)"

lemmas op_defs = ret_def throw_def bindE_def seqE_def modifyE_def

lemma forE_append: "forE (xs @ ys) f = seqE (forE xs f) (forE ys f)"
  by (induction xs) (auto simp: op_defs fun_eq_iff split: prod.splits sum.splits)

lemma bindE_Inr_iff:
  "bindE m f w = (Inr y, w') \<longleftrightarrow> (\<exists>x w1. m w = (Inr x, w1) \<and> f x w1 = (Inr y, w'))"
  by (auto simp: bindE_def split: prod.splits sum.splits)

lemma bindE_Inl_iff:
  "bindE m f w = (Inl e, w') \<longleftrightarrow>
     m w = (Inl e, w') \<or> (\<exists>x w1. m w = (Inr x, w1) \<and> f x w1 = (Inl e, w'))"
  by (auto simp: bindE_def split: prod.splits sum.splits)

lemma seqE_Inr_iff:
  "seqE m k w = (Inr y, w') \<longleftrightarrow> (\<exists>w1. m w = (Inr (), w1) \<and> k w1 = (Inr y, w'))"
  by (auto simp: seqE_def bindE_Inr_iff)

lemma seqE_Inl_iff:
  "seqE m k w = (Inl e, w') \<longleftrightarrow>
     m w = (Inl e, w') \<or> (\<exists>w1. m w = (Inr (), w1) \<and> k w1 = (Inl e, w'))"
  by (auto simp: seqE_def bindE_Inl_iff)

lemma basic_op_iff [simp]:
  "ret x w = (r, w') \<longleftrightarrow> r = Inr x \<and> w' = w"
  "throw e w = (r2, w') \<longleftrightarrow> r2 = Inl e \<and> w' = w"
  "modifyE f w = (r3, w') \<longleftrightarrow> r3 = Inr () \<and> w' = f w"
  by (auto simp: op_defs)

lemmas op_result_iffs = bindE_Inr_iff bindE_Inl_iff seqE_Inr_iff seqE_Inl_iff

text \<open>
  \<open>along R m\<close>: the operation moves the state along \<open>R\<close>, whether it returns or throws.
  For a reflexive and transitive \<open>R\<close> this composes, which is how every invariant of the
  event dispatch is proved.
\<close>

definition along :: "('w \<Rightarrow> 'w \<Rightarrow> bool) \<Rightarrow> ('w, 'a) op \<Rightarrow> bool" where
  "along R m \<longleftrightarrow> (\<forall>w. R w (snd (m w)))"

locale state_order =
  fixes R :: "'w \<Rightarrow> 'w \<Rightarrow> bool"
  assumes R_refl: "R w w"
    and R_trans: "R w w1 \<Longrightarrow> R w1 w2 \<Longrightarrow> R w w2"
begin

lemma along_ret: "along R (ret x)"
  by (simp add: along_def ret_def R_refl)

lemma along_throw: "along R (throw e)"
  by (simp add: along_def throw_def R_refl)

lemma along_bindE: "along R m \<Longrightarrow> (\<And>x. along R (f x)) \<Longrightarrow> along R (bindE m f)"
  unfolding along_def
proof
  fix w
  assume m: "\<forall>w. R w (snd (m w))" and f: "\<And>x. \<forall>w. R w (snd (f x w))"
  obtain r w' where mw: "m w = (r, w')" by (cases "m w")
  with m have "R w w'" by (metis snd_conv)
  then show "R w (snd (bindE m f w))"
    using f mw by (cases r) (auto simp: bindE_def intro: R_trans)
qed

lemma along_seqE: "along R m \<Longrightarrow> along R k \<Longrightarrow> along R (seqE m k)"
  by (simp add: seqE_def along_bindE)

lemma along_modifyE: "(\<And>w. R w (f w)) \<Longrightarrow> along R (modifyE f)"
  by (simp add: along_def modifyE_def)

lemma along_forE: "(\<And>x. x \<in> set xs \<Longrightarrow> along R (f x)) \<Longrightarrow> along R (forE xs f)"
  by (induction xs) (auto simp: along_ret along_seqE)

lemma along_if: "along R m \<Longrightarrow> along R k \<Longrightarrow> along R (if b then m else k)"
  by simp

lemmas along_rules =
  along_ret along_throw along_bindE along_seqE along_modifyE along_forE along_if

end

text \<open>Preservation of an invariant is the special case of an implication between states.\<close>

definition keeps :: "('w \<Rightarrow> bool) \<Rightarrow> 'w \<Rightarrow> 'w \<Rightarrow> bool" where
  "keeps P w w' \<longleftrightarrow> (P w \<longrightarrow> P w')"

interpretation keeps: state_order "keeps P" for P :: "'w \<Rightarrow> bool"
  by unfold_locales (auto simp: keeps_def)

lemma along_keepsD: "along (keeps P) m \<Longrightarrow> m w = (r, w') \<Longrightarrow> P w \<Longrightarrow> P w'"
  by (metis along_def keeps_def snd_conv)

end
