(* ===== verification/NetTypes.thy ===== *)
theory NetTypes
  imports JsPrelude
begin

section \<open>Classes, members and argument checking\<close>

text \<open>
  The first part of \<open>netobject.js\<close>: the structure of a component class (its attributes
  and actions with their types), \<open>getMember\<close> and the check of a value against a type. The data comes
  from the plugins' \<open>init\<close> functions and from the hardware configuration posted as JSON.
\<close>

text \<open>A type is an object with a \<open>type\<close> tag; \<open>TOther\<close> is any tag but the two the code knows.\<close>

datatype net_type = TRange int int | TEnum "string list" | TOther string

datatype member =
    Attribute (mname: string) (mtype: net_type)
  | Action (mname: string) (margs: "net_type list")

record net_class =
  members :: "member list"

definition netRange :: "int \<Rightarrow> int \<Rightarrow> net_type" where
  "netRange lo hi = TRange lo hi"

definition netEnum :: "string list \<Rightarrow> net_type" where
  "netEnum vs = TEnum vs"

definition netAttribute :: "string \<Rightarrow> net_type \<Rightarrow> member" where
  "netAttribute name t = Attribute name t"

definition netAction :: "string \<Rightarrow> net_type list \<Rightarrow> member" where
  "netAction name ts = Action name ts"

definition netClass :: "member list \<Rightarrow> net_class" where
  "netClass ms = \<lparr>members = ms\<rparr>"

lemmas net_builders = netRange_def netEnum_def netAttribute_def netAction_def netClass_def

fun is_attribute :: "member \<Rightarrow> bool" where
  "is_attribute (Attribute n t) = True"
| "is_attribute (Action n ts) = False"

text \<open>\<open>getMember\<close>: the first member with the name, attribute or action.\<close>

fun find_member :: "member list \<Rightarrow> string \<Rightarrow> member option" where
  "find_member [] name = None"
| "find_member (m # ms) name = (if mname m = name then Some m else find_member ms name)"

lemma find_member_name: "find_member ms name = Some m \<Longrightarrow> mname m = name \<and> m \<in> set ms"
  by (induction ms) (auto split: if_splits)

lemma find_member_distinct:
  "distinct (map mname ms) \<Longrightarrow> m \<in> set ms \<Longrightarrow> find_member ms (mname m) = Some m"
  by (induction ms) force+

text \<open>
  \<open>checkArg\<close>: a falsy value (null, undefined, NaN, the number 0, the empty string) is
  accepted for every type; a range converts the value with \<open>parseInt(arg, 10)\<close>; an
  enumeration compares with \<open>===\<close>, so a number never equals one of its strings.
\<close>

definition checkArg :: "jsval \<Rightarrow> net_type \<Rightarrow> js_error option" where
  "checkArg arg t =
     (if \<not> truthy arg then None
      else (case t of
              TRange lo hi \<Rightarrow>
                (case parse_int10 (to_str arg) of
                   None \<Rightarrow> Some InvalidArgument
                 | Some v \<Rightarrow> if v < lo \<or> hi < v then Some InvalidArgument else None)
            | TEnum vs \<Rightarrow> if list_ex (\<lambda>s. VStr s = arg) vs then None else Some InvalidValue
            | TOther tag \<Rightarrow> None))"

lemma checkArg_falsy [simp]: "\<not> truthy v \<Longrightarrow> checkArg v t = None"
  by (simp add: checkArg_def)

lemma checkArg_null [simp]: "checkArg VNull t = None"
  by simp

lemma checkArg_enum_iff:
  "checkArg v (TEnum vs) = None \<longleftrightarrow> \<not> truthy v \<or> (\<exists>s \<in> set vs. v = VStr s)"
  by (auto simp: checkArg_def list_ex_iff)

lemma checkArg_enum_str: "s \<in> set vs \<Longrightarrow> checkArg (VStr s) (TEnum vs) = None"
  by (simp add: checkArg_enum_iff)

lemma checkArg_range_iff:
  "checkArg v (TRange lo hi) = None \<longleftrightarrow>
     \<not> truthy v \<or> (\<exists>n. parse_int10 (to_str v) = Some n \<and> lo \<le> n \<and> n \<le> hi)"
  by (auto simp: checkArg_def split: option.splits if_splits)

lemma checkArg_range_num:
  "checkArg (VNum n) (TRange lo hi) = None \<longleftrightarrow> n = 0 \<or> lo \<le> n \<and> n \<le> hi"
  by (auto simp: checkArg_range_iff js_simps)

text \<open>
  The checks of \<open>executeAction\<close>: the number of arguments, then each argument in order; the
  first failing check decides the error.
\<close>

fun checkArgs :: "jsval list \<Rightarrow> net_type list \<Rightarrow> js_error option" where
  "checkArgs [] [] = None"
| "checkArgs (a # args) (t # ts) =
     (case checkArg a t of Some e \<Rightarrow> Some e | None \<Rightarrow> checkArgs args ts)"
| "checkArgs _ _ = Some InvalidArgumentsCount"

definition check_call :: "jsval list \<Rightarrow> net_type list \<Rightarrow> js_error option" where
  "check_call args ts =
     (if length args \<noteq> length ts then Some InvalidArgumentsCount else checkArgs args ts)"

lemma checkArgs_None:
  "checkArgs args ts = None \<longleftrightarrow> list_all2 (\<lambda>a t. checkArg a t = None) args ts"
  by (induction args ts rule: checkArgs.induct) (auto split: option.splits)

lemma check_call_None:
  "check_call args ts = None \<longleftrightarrow> list_all2 (\<lambda>a t. checkArg a t = None) args ts"
  by (auto simp: check_call_def checkArgs_None dest: list_all2_lengthD)

text \<open>The names of the attributes, in class order: the order of the parts of a nick.\<close>

definition attribute_names :: "member list \<Rightarrow> string list" where
  "attribute_names ms = map mname (filter is_attribute ms)"

lemma attribute_names_simps [simp]:
  "attribute_names [] = []"
  "attribute_names (Attribute n t # ms) = n # attribute_names ms"
  "attribute_names (Action n ts # ms) = attribute_names ms"
  by (simp_all add: attribute_names_def)

text \<open>Classes whose member names are pairwise different: every class of the repository.\<close>

definition wf_class :: "net_class \<Rightarrow> bool" where
  "wf_class c \<longleftrightarrow> distinct (map mname (members c))"

lemma wf_class_member:
  assumes "wf_class c" "n \<in> set (attribute_names (members c))"
  obtains t where "find_member (members c) n = Some (Attribute n t)"
proof -
  from assms(2) obtain m where m: "m \<in> set (members c)" "is_attribute m" "mname m = n"
    by (auto simp: attribute_names_def)
  with assms(1) have "find_member (members c) n = Some m"
    by (auto simp: wf_class_def find_member_distinct)
  moreover from m(2,3) obtain t where "m = Attribute n t" by (cases m) auto
  ultimately show thesis by (simp add: that)
qed

end
