(* ===== verification/Dispatch.thy ===== *)
theory Dispatch
  imports NetTypes
begin

section \<open>Objects, events and the dispatch of attribute changes and actions\<close>

text \<open>
  The second part of \<open>netobject.js\<close> (\<open>netObject\<close>) and everything that runs synchronously
  when an attribute is set or an action executed: the listeners of a local publication (a NICK message),
  of a remote publication (a channel message), of a link and of the plugins. An object is a node
  \<open>EventEmitter\<close>; the closures that the code registers as listeners are the
  constructors of \<open>listener\<close>, with the variables they capture as arguments.

  \<open>emit\<close> calls the listeners registered at that moment in order and stops at the first one
  that throws, as node's does. A listener may set attributes and execute actions in turn, so the
  dispatch is recursive with no bound in the code; \<open>call_listener\<close> takes the number of nested
  calls the JavaScript stack still allows and throws \<open>StackOverflow\<close> (a RangeError) when it
  is exhausted. Calls to the \<open>irc\<close> package are recorded in \<open>irc_log\<close>.
\<close>

type_synonym oref = nat

text \<open>
  Event names. The code builds them as strings (\<open>'attribute#' + name\<close>); the constructors
  stand for the distinct prefixes. \<open>'disonnected'\<close> is the source's spelling.
\<close>

datatype event =
  EvAttributeOf string | EvAttribute | EvActionOf string | EvAction | EvConnected | EvDisonnected

text \<open>The arguments a listener is called with.\<close>

datatype payload =
    PNone | PValue jsval | PAttribute string jsval | PArgs "jsval list" | PAction string "jsval list"

record link_config =
  sourceComponent :: string
  sourceAttribute :: string
  destinationComponent :: string
  destinationAction :: string

text \<open>One constructor for each \<open>obj.on('action#...')\<close> of \<open>plugins/*.js\<close>.\<close>

datatype plugin_handler =
    ButtonInput | SwitchToButtonInput | HubBoolInput | LightInput
  | StepRelayInput | StepRelayOn | StepRelayOff
  | MusicSetstate | MusicSetvolume | MusicStop | MusicPlay | MusicPause
  | MusicStateSwitch | MusicVolumeMore | MusicVolumeLess

text \<open>
  Listeners: \<open>attributeChanged\<close> of \<open>publishLocal\<close> (captures the irc client),
  \<open>executeAction\<close> of \<open>publishRemote\<close> (captures the watcher and the channels),
  \<open>eventHandler\<close> of \<open>links.js\<close> (a fresh closure per link; captures both objects and the
  configuration), the plugins' handlers.
\<close>

datatype listener =
    NickListener nat
  | RemoteListener nat "string list"
  | LinkListener nat oref oref link_config
  | PluginListener plugin_handler

record nobject =
  obj_id :: string
  obj_class :: net_class
  attr_values :: "string \<rightharpoonup> jsval"
  listeners :: "(event \<times> listener) list"

text \<open>Calls to the irc package; the first argument is the client that makes the call.\<close>

datatype irc_call =
    IrcConnect nat string "string list"
  | IrcNick nat string
  | IrcSay nat string string
  | IrcNotice nat string js_error
  | IrcJoin nat string
  | IrcPart nat string
  | IrcDisconnect nat

text \<open>The object \<open>loadWatcher\<close> builds: the irc client and the variables its closures share.\<close>

record watcher_state =
  wt_client :: nat
  wt_channels :: "nat dict"
  wt_objects :: "oref dict"
  wt_online :: bool

text \<open>A pending \<open>setTimeout\<close> of \<open>music.js\<close>: when due, set the attribute to the value.\<close>

record timer =
  tm_id :: nat
  tm_due :: nat
  tm_obj :: oref
  tm_attr :: string
  tm_value :: jsval

text \<open>A publication: the return value of \<open>publishLocal\<close> and \<open>publishRemote\<close>.\<close>

record container =
  ct_object :: oref
  ct_channels :: "string list"
  ct_local :: bool
  ct_link :: nat   \<comment> \<open>the irc client (local) or the watcher (remote) captured by \<open>destroy\<close>\<close>

text \<open>
  The state of the core process below the registries. \<open>timeouts\<close> holds the variables
  \<open>stateTimeout\<close> and \<open>volumeTimeout\<close> of each music instance, keyed by the attribute they
  delay; \<open>fresh\<close> supplies the identities of objects, closures, clients and timers.
\<close>

record world =
  heap :: "oref \<Rightarrow> nobject option"
  fresh :: nat
  repository :: "container dict"
  watchers :: "nat \<Rightarrow> watcher_state option"
  watcher :: "nat option"
  timers :: "timer list"
  timeouts :: "oref \<Rightarrow> string \<Rightarrow> nat option"
  clock :: nat
  process_nick :: string   \<comment> \<open>\<open>os.hostname() + '-' + process.pid\<close>\<close>
  irc_log :: "irc_call list"

definition empty_world :: "string \<Rightarrow> world" where
  "empty_world nick = \<lparr>heap = (\<lambda>_. None), fresh = 0, repository = [], watchers = (\<lambda>_. None),
     watcher = None, timers = [], timeouts = (\<lambda>_ _. None), clock = 0, process_nick = nick,
     irc_log = []\<rparr>"

type_synonym 'a wop = "(world, 'a) op"

definition log_irc :: "irc_call \<Rightarrow> unit wop" where
  "log_irc c = modifyE (\<lambda>w. w\<lparr>irc_log := irc_log w @ [c]\<rparr>)"

subsection \<open>Objects\<close>

definition getMember :: "nobject \<Rightarrow> string \<Rightarrow> member option" where
  "getMember ob name = find_member (members (obj_class ob)) name"

text \<open>A new object: every attribute is null. Initial values and the allocation.\<close>

definition init_values :: "member list \<Rightarrow> string \<rightharpoonup> jsval" where
  "init_values ms n = (if n \<in> set (attribute_names ms) then Some VNull else None)"

definition netObject :: "string \<Rightarrow> net_class \<Rightarrow> oref wop" where
  "netObject i c w =
     (Inr (fresh w),
      w\<lparr>heap := (heap w)(fresh w \<mapsto>
           \<lparr>obj_id = i, obj_class = c, attr_values = init_values (members c), listeners = []\<rparr>),
        fresh := Suc (fresh w)\<rparr>)"

definition with_object :: "oref \<Rightarrow> (nobject \<Rightarrow> 'a wop) \<Rightarrow> 'a wop" where
  "with_object r f w = (case heap w r of None \<Rightarrow> (Inl TypeErr, w) | Some ob \<Rightarrow> f ob w)"

definition put_value :: "oref \<Rightarrow> string \<Rightarrow> jsval \<Rightarrow> world \<Rightarrow> world" where
  "put_value r n v w = w\<lparr>heap := (heap w)(r :=
      map_option (\<lambda>ob. ob\<lparr>attr_values := (attr_values ob)(n \<mapsto> v)\<rparr>) (heap w r))\<rparr>"

definition object_attribute :: "nobject \<Rightarrow> string \<Rightarrow> js_error + jsval" where
  "object_attribute ob name =
     (case getMember ob name of
        Some (Attribute n t) \<Rightarrow>
          Inr (case attr_values ob n of Some v \<Rightarrow> v | None \<Rightarrow> VUndefined)
      | _ \<Rightarrow> Inl AssertionError)"

definition getAttribute :: "oref \<Rightarrow> string \<Rightarrow> jsval wop" where
  "getAttribute r name = with_object r (\<lambda>ob w. (object_attribute ob name, w))"

definition listeners_of :: "nobject \<Rightarrow> event \<Rightarrow> listener list" where
  "listeners_of ob ev = map snd (filter (\<lambda>(e, l). e = ev) (listeners ob))"

definition map_listeners :: "oref \<Rightarrow> ((event \<times> listener) list \<Rightarrow> (event \<times> listener) list) \<Rightarrow> unit wop" where
  "map_listeners r f = modifyE (\<lambda>w. w\<lparr>heap := (heap w)(r :=
      map_option (\<lambda>ob. ob\<lparr>listeners := f (listeners ob)\<rparr>) (heap w r))\<rparr>)"

definition add_listener :: "oref \<Rightarrow> event \<Rightarrow> listener \<Rightarrow> unit wop" where
  "add_listener r ev l = map_listeners r (\<lambda>ls. ls @ [(ev, l)])"

definition remove_listener :: "oref \<Rightarrow> event \<Rightarrow> listener \<Rightarrow> unit wop" where
  "remove_listener r ev l = map_listeners r (remove1 (ev, l))"

subsection \<open>Emission, setAttribute and executeAction over a way to call listeners\<close>

text \<open>
  \<open>calls\<close> is the type of the function that runs one listener of an object; the operations
  below take it as an argument, and \<open>call_listener\<close> ties the knot.
\<close>

type_synonym calls = "oref \<Rightarrow> listener \<Rightarrow> payload \<Rightarrow> unit wop"

definition emit_with :: "calls \<Rightarrow> oref \<Rightarrow> event \<Rightarrow> payload \<Rightarrow> unit wop" where
  "emit_with call r ev p = with_object r (\<lambda>ob. forE (listeners_of ob ev) (\<lambda>l. call r l p))"

definition set_attribute_with :: "calls \<Rightarrow> oref \<Rightarrow> string \<Rightarrow> jsval \<Rightarrow> unit wop" where
  "set_attribute_with call r name v = with_object r (\<lambda>ob.
     (case getMember ob name of
        Some (Attribute n t) \<Rightarrow>
          (case checkArg v t of
             Some e \<Rightarrow> throw e
           | None \<Rightarrow>
               seqE (modifyE (put_value r n v))
                 (seqE (emit_with call r (EvAttributeOf n) (PValue v))
                    (emit_with call r EvAttribute (PAttribute n v))))
      | _ \<Rightarrow> throw AssertionError))"

definition execute_action_with :: "calls \<Rightarrow> oref \<Rightarrow> string \<Rightarrow> jsval list \<Rightarrow> unit wop" where
  "execute_action_with call r name args = with_object r (\<lambda>ob.
     (case getMember ob name of
        Some (Action n ts) \<Rightarrow>
          (case check_call args ts of
             Some e \<Rightarrow> throw e
           | None \<Rightarrow>
               seqE (emit_with call r (EvActionOf n) (PArgs args))
                 (emit_with call r EvAction (PAction n args)))
      | _ \<Rightarrow> throw AssertionError))"

subsection \<open>The listeners\<close>

text \<open>\<open>makeNick\<close>: the id and the attribute values, separated by bars.\<close>

fun nick_values :: "nobject \<Rightarrow> member list \<Rightarrow> js_error + string" where
  "nick_values ob [] = Inr []"
| "nick_values ob (Action n ts # ms) = nick_values ob ms"
| "nick_values ob (Attribute n t # ms) =
     (case object_attribute ob n of
        Inl e \<Rightarrow> Inl e
      | Inr v \<Rightarrow>
          (case nick_values ob ms of Inl e \<Rightarrow> Inl e | Inr s \<Rightarrow> Inr (''|'' @ to_str v @ s)))"

definition makeNick :: "nobject \<Rightarrow> js_error + string" where
  "makeNick ob = (case nick_values ob (members (obj_class ob)) of
                    Inl e \<Rightarrow> Inl e | Inr s \<Rightarrow> Inr (obj_id ob @ s))"

definition attributeChanged :: "nat \<Rightarrow> oref \<Rightarrow> unit wop" where
  "attributeChanged client r = with_object r (\<lambda>ob.
     (case makeNick ob of Inl e \<Rightarrow> throw e | Inr nick \<Rightarrow> log_irc (IrcNick client nick)))"

text \<open>\<open>channels[0]\<close>, as the irc client prints it.\<close>

fun channel0 :: "string list \<Rightarrow> string" where
  "channel0 [] = ''undefined''"
| "channel0 (c # _) = c"

text \<open>The watcher's \<open>send\<close>: dropped while offline, otherwise said on the first channel.\<close>

definition watcher_send :: "nat \<Rightarrow> string list \<Rightarrow> string \<Rightarrow> unit wop" where
  "watcher_send wid channels msg w =
     (case watchers w wid of
        Some wt \<Rightarrow> if wt_online wt then log_irc (IrcSay (wt_client wt) (channel0 channels) msg) w else (Inr (), w)
      | None \<Rightarrow> (Inr (), w))"

definition remote_execute :: "nat \<Rightarrow> string list \<Rightarrow> oref \<Rightarrow> string \<Rightarrow> jsval list \<Rightarrow> unit wop" where
  "remote_execute wid channels r name args = with_object r (\<lambda>ob.
     watcher_send wid channels
       (foldl (\<lambda>msg a. msg @ '' '' @ to_str a) (obj_id ob @ '' '' @ name) args))"

text \<open>\<open>eventHandler\<close> of a link: on \<open>'connected'\<close> there is no value, so it is read.\<close>

definition link_handler :: "calls \<Rightarrow> oref \<Rightarrow> oref \<Rightarrow> link_config \<Rightarrow> jsval \<Rightarrow> unit wop" where
  "link_handler call src dst cfg v =
     bindE (if v = VUndefined then getAttribute src (sourceAttribute cfg) else ret v)
       (\<lambda>v'. execute_action_with call dst (destinationAction cfg) [v'])"

fun payload_value :: "payload \<Rightarrow> jsval" where
  "payload_value (PValue v) = v"
| "payload_value _ = VUndefined"

fun payload_args :: "payload \<Rightarrow> jsval list" where
  "payload_args (PArgs args) = args"
| "payload_args _ = []"

text \<open>\<open>args[0]\<close>.\<close>

fun arg0 :: "jsval list \<Rightarrow> jsval" where
  "arg0 [] = VUndefined"
| "arg0 (a # _) = a"

abbreviation v_on :: jsval where "v_on \<equiv> VStr ''on''"
abbreviation v_off :: jsval where "v_off \<equiv> VStr ''off''"

text \<open>\<open>plugins/button.js\<close> and \<open>plugins/switchToButton.js\<close>: a pulse.\<close>

definition button_input :: "calls \<Rightarrow> oref \<Rightarrow> unit wop" where
  "button_input call r =
     seqE (set_attribute_with call r ''output'' v_on) (set_attribute_with call r ''output'' v_off)"

definition switch_to_button_input :: "calls \<Rightarrow> oref \<Rightarrow> unit wop" where
  "switch_to_button_input call r =
     seqE (set_attribute_with call r ''output'' v_on) (set_attribute_with call r ''output'' v_off)"

text \<open>\<open>plugins/hubBool.js\<close> and \<open>plugins/light.js\<close>: the input is copied to the output.\<close>

definition hub_bool_input :: "calls \<Rightarrow> oref \<Rightarrow> jsval list \<Rightarrow> unit wop" where
  "hub_bool_input call r args = set_attribute_with call r ''output'' (arg0 args)"

definition light_input :: "calls \<Rightarrow> oref \<Rightarrow> jsval list \<Rightarrow> unit wop" where
  "light_input call r args = set_attribute_with call r ''output'' (arg0 args)"

text \<open>\<open>plugins/stepRelay.js\<close>: toggles on a rising input, or is set and reset.\<close>

definition step_relay_input :: "calls \<Rightarrow> oref \<Rightarrow> jsval list \<Rightarrow> unit wop" where
  "step_relay_input call r args =
     (if arg0 args \<noteq> v_on then ret ()
      else bindE (getAttribute r ''output'')
             (\<lambda>val. set_attribute_with call r ''output'' (if val = v_on then v_off else v_on)))"

definition step_relay_set :: "calls \<Rightarrow> oref \<Rightarrow> jsval \<Rightarrow> unit wop" where
  "step_relay_set call r value =
     bindE (getAttribute r ''output'')
       (\<lambda>val. if val \<noteq> value then set_attribute_with call r ''output'' value else ret ())"

definition step_relay_on :: "calls \<Rightarrow> oref \<Rightarrow> jsval list \<Rightarrow> unit wop" where
  "step_relay_on call r args = (if arg0 args \<noteq> v_on then ret () else step_relay_set call r v_on)"

definition step_relay_off :: "calls \<Rightarrow> oref \<Rightarrow> jsval list \<Rightarrow> unit wop" where
  "step_relay_off call r args = (if arg0 args \<noteq> v_on then ret () else step_relay_set call r v_off)"

text \<open>
  \<open>plugins/music.js\<close>: \<open>setstate\<close> and \<open>setvolume\<close> wait five seconds before they set the
  attribute, and a new request cancels the pending one.
\<close>

definition delay_ms :: nat where
  "delay_ms = 5000"

definition delay_attribute :: "oref \<Rightarrow> string \<Rightarrow> jsval \<Rightarrow> unit wop" where
  "delay_attribute r attr v = modifyE (\<lambda>w.
     (let pending = (case timeouts w r attr of
                       None \<Rightarrow> timers w
                     | Some tid \<Rightarrow> filter (\<lambda>t. tm_id t \<noteq> tid) (timers w));
          t = \<lparr>tm_id = fresh w, tm_due = clock w + delay_ms, tm_obj = r, tm_attr = attr, tm_value = v\<rparr>
      in w\<lparr>timers := pending @ [t],
           timeouts := (timeouts w)(r := (timeouts w r)(attr := Some (fresh w))),
           fresh := Suc (fresh w)\<rparr>))"

definition music_setstate :: "oref \<Rightarrow> jsval list \<Rightarrow> unit wop" where
  "music_setstate r args = delay_attribute r ''state'' (arg0 args)"

definition music_setvolume :: "oref \<Rightarrow> jsval list \<Rightarrow> unit wop" where
  "music_setvolume r args = delay_attribute r ''volume'' (arg0 args)"

definition music_state_switch :: "calls \<Rightarrow> oref \<Rightarrow> unit wop" where
  "music_state_switch call r =
     bindE (getAttribute r ''state'')
       (\<lambda>state. set_attribute_with call r ''state''
                  (VStr (if state = VStr ''play'' then ''pause'' else ''play'')))"

definition volumeInterval :: int where
  "volumeInterval = 10"

text \<open>Comparisons with NaN are false, and NaN plus a number is NaN.\<close>

definition volume_more :: "jsval \<Rightarrow> jsval" where
  "volume_more vol = num_or_nan (map_option
     (\<lambda>n. if n + volumeInterval > 100 then 100 else n + volumeInterval) (parse_int (to_str vol)))"

definition volume_less :: "jsval \<Rightarrow> jsval" where
  "volume_less vol = num_or_nan (map_option
     (\<lambda>n. if n - volumeInterval < 0 then 0 else n - volumeInterval) (parse_int (to_str vol)))"

definition music_volume_more :: "calls \<Rightarrow> oref \<Rightarrow> unit wop" where
  "music_volume_more call r =
     bindE (getAttribute r ''volume'') (\<lambda>vol. set_attribute_with call r ''volume'' (volume_more vol))"

definition music_volume_less :: "calls \<Rightarrow> oref \<Rightarrow> unit wop" where
  "music_volume_less call r =
     bindE (getAttribute r ''volume'') (\<lambda>vol. set_attribute_with call r ''volume'' (volume_less vol))"

fun run_plugin :: "calls \<Rightarrow> plugin_handler \<Rightarrow> oref \<Rightarrow> jsval list \<Rightarrow> unit wop" where
  "run_plugin call ButtonInput r args = button_input call r"
| "run_plugin call SwitchToButtonInput r args = switch_to_button_input call r"
| "run_plugin call HubBoolInput r args = hub_bool_input call r args"
| "run_plugin call LightInput r args = light_input call r args"
| "run_plugin call StepRelayInput r args = step_relay_input call r args"
| "run_plugin call StepRelayOn r args = step_relay_on call r args"
| "run_plugin call StepRelayOff r args = step_relay_off call r args"
| "run_plugin call MusicSetstate r args = music_setstate r args"
| "run_plugin call MusicSetvolume r args = music_setvolume r args"
| "run_plugin call MusicStop r args = set_attribute_with call r ''state'' (VStr ''stop'')"
| "run_plugin call MusicPlay r args = set_attribute_with call r ''state'' (VStr ''play'')"
| "run_plugin call MusicPause r args = set_attribute_with call r ''state'' (VStr ''pause'')"
| "run_plugin call MusicStateSwitch r args = music_state_switch call r"
| "run_plugin call MusicVolumeMore r args = music_volume_more call r"
| "run_plugin call MusicVolumeLess r args = music_volume_less call r"

definition listener_body :: "calls \<Rightarrow> calls" where
  "listener_body call r l p =
     (case l of
        NickListener client \<Rightarrow> attributeChanged client r
      | RemoteListener wid channels \<Rightarrow>
          (case p of PAction name args \<Rightarrow> remote_execute wid channels r name args | _ \<Rightarrow> ret ())
      | LinkListener u src dst cfg \<Rightarrow> link_handler call src dst cfg (payload_value p)
      | PluginListener h \<Rightarrow> run_plugin call h r (payload_args p))"

primrec call_listener :: "nat \<Rightarrow> calls" where
  "call_listener 0 = (\<lambda>r l p. throw StackOverflow)"
| "call_listener (Suc depth) = listener_body (call_listener depth)"

definition emit :: "nat \<Rightarrow> oref \<Rightarrow> event \<Rightarrow> payload \<Rightarrow> unit wop" where
  "emit depth = emit_with (call_listener depth)"

definition setAttribute :: "nat \<Rightarrow> oref \<Rightarrow> string \<Rightarrow> jsval \<Rightarrow> unit wop" where
  "setAttribute depth = set_attribute_with (call_listener depth)"

definition executeAction :: "nat \<Rightarrow> oref \<Rightarrow> string \<Rightarrow> jsval list \<Rightarrow> unit wop" where
  "executeAction depth = execute_action_with (call_listener depth)"

text \<open>
  The event loop runs a due timer: the callback sets the attribute, then forgets the timer.
  Nothing happens when the timer was cancelled or is not due.
\<close>

definition fire_timer :: "nat \<Rightarrow> nat \<Rightarrow> unit wop" where
  "fire_timer depth tid w =
     (case find (\<lambda>t. tm_id t = tid \<and> tm_due t \<le> clock w) (timers w) of
        None \<Rightarrow> (Inr (), w)
      | Some t \<Rightarrow>
          seqE (modifyE (\<lambda>w. w\<lparr>timers := filter (\<lambda>t. tm_id t \<noteq> tid) (timers w)\<rparr>))
            (seqE (setAttribute depth (tm_obj t) (tm_attr t) (tm_value t))
               (modifyE (\<lambda>w. w\<lparr>timeouts := (timeouts w)(tm_obj t :=
                  (timeouts w (tm_obj t))(tm_attr t := None))\<rparr>))) w)"

definition advance_clock :: "nat \<Rightarrow> unit wop" where
  "advance_clock ms = modifyE (\<lambda>w. w\<lparr>clock := clock w + ms\<rparr>)"

end
