(* ===== verification/DispatchLaws.thy ===== *)
theory DispatchLaws
  imports Dispatch
begin

section \<open>What the dispatch keeps\<close>

text \<open>
  Every relation between states that holds for the four primitive changes of the dispatch (store a
  checked attribute value, record an irc call, change the timers) holds for a
  whole cascade of listeners, whatever the listeners are and wherever an exception cuts it
  short. The locale \<open>dispatch_order\<close> states this once; its interpretations give the frame of
  the dispatch, the typing of the attributes and the monotonicity of the irc log.
\<close>

locale dispatch_order = state_order R for R :: "world \<Rightarrow> world \<Rightarrow> bool" +
  assumes R_value: "\<And>w r ob n t v name. heap w r = Some ob \<Longrightarrow> getMember ob name = Some (Attribute n t) \<Longrightarrow>
        checkArg v t = None \<Longrightarrow> R w (put_value r n v w)"
    and R_log: "R w (w\<lparr>irc_log := irc_log w @ [c]\<rparr>)"
    and R_timers: "R w (w\<lparr>timers := ts, timeouts := tt, fresh := Suc (fresh w)\<rparr>)"
    and R_pending: "R w (w\<lparr>timers := ts\<rparr>)"
    and R_timeouts: "R w (w\<lparr>timeouts := tt\<rparr>)"
begin

definition good_calls :: "calls \<Rightarrow> bool" where
  "good_calls call \<longleftrightarrow> (\<forall>r l p. along R (call r l p))"

lemma good_callsD: "good_calls call \<Longrightarrow> along R (call r l p)"
  by (simp add: good_calls_def)

lemma along_log_irc: "along R (log_irc c)"
  unfolding log_irc_def by (rule along_modifyE) (rule R_log)

lemma along_with_object: "(\<And>ob. along R (f ob)) \<Longrightarrow> along R (with_object r f)"
  by (auto simp: along_def with_object_def R_refl split: option.split)

lemma along_getAttribute: "along R (getAttribute r n)"
  by (simp add: getAttribute_def along_def with_object_def R_refl split: option.split)

lemma along_emit: "good_calls call \<Longrightarrow> along R (emit_with call r ev p)"
  unfolding emit_with_def by (intro along_with_object along_forE) (rule good_callsD)

lemma along_set_attribute:
  assumes call: "good_calls call"
  shows "along R (set_attribute_with call r name v)"
  unfolding along_def
proof
  fix w
  show "R w (snd (set_attribute_with call r name v w))"
  proof (cases "heap w r")
    case None
    then show ?thesis by (simp add: set_attribute_with_def with_object_def R_refl)
  next
    case (Some ob)
    show ?thesis
    proof (cases "\<exists>n t. getMember ob name = Some (Attribute n t) \<and> checkArg v t = None")
      case True
      then obtain n t where m: "getMember ob name = Some (Attribute n t)" "checkArg v t = None"
        by blast
      define rest where "rest = seqE (emit_with call r (EvAttributeOf n) (PValue v))
          (emit_with call r EvAttribute (PAttribute n v))"
      have "along R rest"
        unfolding rest_def by (intro along_seqE along_emit call)
      then have "R (put_value r n v w) (snd (rest (put_value r n v w)))"
        by (simp add: along_def)
      with R_value[OF Some m] have "R w (snd (rest (put_value r n v w)))"
        by (rule R_trans)
      moreover have "set_attribute_with call r name v w = rest (put_value r n v w)"
        using Some m by (simp add: set_attribute_with_def with_object_def rest_def op_defs)
      ultimately show ?thesis by simp
    next
      case False
      with Some have "snd (set_attribute_with call r name v w) = w"
        by (auto simp: set_attribute_with_def with_object_def throw_def
            split: option.split member.split)
      then show ?thesis by (simp add: R_refl)
    qed
  qed
qed

lemma along_execute_action: "good_calls call \<Longrightarrow> along R (execute_action_with call r name args)"
  unfolding execute_action_with_def
  by (intro along_with_object)
    (auto split: option.split member.split intro!: along_throw along_seqE along_emit)

lemma along_delay: "along R (delay_attribute r n v)"
  unfolding delay_attribute_def Let_def by (intro along_modifyE R_timers)

lemma along_run_plugin: "good_calls call \<Longrightarrow> along R (run_plugin call h r args)"
  by (cases h)
    (auto simp: button_input_def switch_to_button_input_def hub_bool_input_def light_input_def
      step_relay_input_def step_relay_on_def step_relay_off_def step_relay_set_def
      music_setstate_def music_setvolume_def music_state_switch_def music_volume_more_def
      music_volume_less_def
      intro!: along_seqE along_bindE along_set_attribute along_getAttribute along_ret along_delay)

lemma along_attributeChanged: "along R (attributeChanged c r)"
  unfolding attributeChanged_def
  by (intro along_with_object) (auto split: sum.split intro: along_throw along_log_irc)

lemma along_watcher_send: "along R (watcher_send wid chs msg)"
  using along_log_irc by (auto simp: along_def watcher_send_def R_refl split: option.split)

lemma along_link_handler: "good_calls call \<Longrightarrow> along R (link_handler call s d cfg v)"
  unfolding link_handler_def
  by (auto intro!: along_bindE along_getAttribute along_ret along_execute_action)

lemma along_listener_body: "good_calls call \<Longrightarrow> along R (listener_body call r l p)"
  by (auto simp: listener_body_def remote_execute_def
      split: listener.split payload.split
      intro!: along_attributeChanged along_link_handler along_run_plugin along_with_object
        along_watcher_send along_ret)

lemma good_call_listener: "good_calls (call_listener depth)"
proof (induction depth)
  case 0
  then show ?case by (simp add: good_calls_def along_throw)
next
  case (Suc depth)
  then have "along R (listener_body (call_listener depth) r l p)" for r l p
    by (rule along_listener_body)
  then show ?case by (simp add: good_calls_def)
qed

lemma along_setAttribute: "along R (setAttribute depth r name v)"
  unfolding setAttribute_def by (rule along_set_attribute[OF good_call_listener])

lemma along_executeAction: "along R (executeAction depth r name args)"
  unfolding executeAction_def by (rule along_execute_action[OF good_call_listener])

lemma along_emit_event: "along R (emit depth r ev p)"
  unfolding emit_def by (rule along_emit[OF good_call_listener])

lemma along_fire_timer: "along R (fire_timer depth tid)"
  unfolding along_def
proof
  fix w
  show "R w (snd (fire_timer depth tid w))"
  proof (cases "find (\<lambda>t. tm_id t = tid \<and> tm_due t \<le> clock w) (timers w)")
    case None
    then show ?thesis by (simp add: fire_timer_def R_refl)
  next
    case (Some t)
    have "along R (seqE (modifyE (\<lambda>w. w\<lparr>timers := filter (\<lambda>t. tm_id t \<noteq> tid) (timers w)\<rparr>))
            (seqE (setAttribute depth (tm_obj t) (tm_attr t) (tm_value t))
               (modifyE (\<lambda>w. w\<lparr>timeouts := (timeouts w)(tm_obj t :=
                  (timeouts w (tm_obj t))(tm_attr t := None))\<rparr>))))"
      by (intro along_seqE along_modifyE along_setAttribute R_pending R_timeouts)
    then show ?thesis
      using Some by (simp add: fire_timer_def along_def)
  qed
qed

lemmas along_dispatch =
  along_setAttribute along_executeAction along_emit_event along_fire_timer along_log_irc

end

subsection \<open>The frame\<close>

text \<open>
  What no listener changes: which objects exist, their ids, classes and listeners, the publications
  and the watchers, the clock.
\<close>

definition obj_shape :: "nobject \<Rightarrow> string \<times> net_class \<times> (event \<times> listener) list" where
  "obj_shape ob = (obj_id ob, obj_class ob, listeners ob)"

definition same_shape :: "world \<Rightarrow> world \<Rightarrow> bool" where
  "same_shape w w' \<longleftrightarrow>
     (\<forall>r. map_option obj_shape (heap w' r) = map_option obj_shape (heap w r))
     \<and> repository w' = repository w \<and> watchers w' = watchers w \<and> watcher w' = watcher w
     \<and> clock w' = clock w \<and> fresh w \<le> fresh w'"

lemma put_value_shape: "map_option obj_shape (heap (put_value r n v w) q) = map_option obj_shape (heap w q)"
  by (cases "heap w r") (auto simp: put_value_def obj_shape_def)

lemma put_value_frame [simp]:
  "repository (put_value r n v w) = repository w" "watchers (put_value r n v w) = watchers w"
  "watcher (put_value r n v w) = watcher w" "clock (put_value r n v w) = clock w"
  "fresh (put_value r n v w) = fresh w" "irc_log (put_value r n v w) = irc_log w"
  "timers (put_value r n v w) = timers w" "timeouts (put_value r n v w) = timeouts w"
  by (simp_all add: put_value_def)

interpretation shape: dispatch_order same_shape
  by unfold_locales (auto simp: same_shape_def put_value_shape)

subsection \<open>The irc log only grows\<close>

definition log_extends :: "world \<Rightarrow> world \<Rightarrow> bool" where
  "log_extends w w' \<longleftrightarrow> (\<exists>cs. irc_log w' = irc_log w @ cs)"

interpretation irclog: dispatch_order log_extends
  by unfold_locales (auto simp: log_extends_def)

subsection \<open>Attributes stay well typed\<close>

text \<open>
  Every attribute of an object has a value, and \<open>checkArg\<close> accepts it for the type that
  the class gives the attribute. The first member with a name decides, as in \<open>getMember\<close>.
\<close>

definition object_typed :: "nobject \<Rightarrow> bool" where
  "object_typed ob \<longleftrightarrow> (\<forall>name n t. getMember ob name = Some (Attribute n t) \<longrightarrow>
     (\<exists>v. attr_values ob n = Some v \<and> checkArg v t = None))"

definition world_typed :: "world \<Rightarrow> bool" where
  "world_typed w \<longleftrightarrow> (\<forall>r ob. heap w r = Some ob \<longrightarrow> object_typed ob)"

lemma getMember_attribute_name: "getMember ob name = Some (Attribute n t) \<Longrightarrow> n = name"
  by (auto simp: getMember_def dest: find_member_name)

lemma getMember_update [simp]:
  "getMember (ob\<lparr>attr_values := f\<rparr>) name = getMember ob name"
  "getMember (ob\<lparr>listeners := ls\<rparr>) name = getMember ob name"
  by (simp_all add: getMember_def)

lemma world_typed_put_value:
  assumes "world_typed w" "heap w r = Some ob" "getMember ob name = Some (Attribute n t)"
    "checkArg v t = None"
  shows "world_typed (put_value r n v w)"
  unfolding world_typed_def
proof (intro allI impI)
  fix q ob' assume q: "heap (put_value r n v w) q = Some ob'"
  show "object_typed ob'"
  proof (cases "q = r")
    case True
    with q assms(2) have ob': "ob' = ob\<lparr>attr_values := (attr_values ob)(n \<mapsto> v)\<rparr>"
      by (auto simp: put_value_def)
    have "object_typed ob" using assms(1,2) by (simp add: world_typed_def)
    moreover have "n = name" using assms(3) by (rule getMember_attribute_name)
    ultimately show ?thesis
      unfolding object_typed_def ob' using assms(3,4) getMember_attribute_name[of ob]
      by simp (metis member.inject(1) option.inject)
  next
    case False
    with q assms(1) show ?thesis by (auto simp: put_value_def world_typed_def)
  qed
qed

lemma world_typed_update [simp]:
  "world_typed (w\<lparr>irc_log := cs\<rparr>) = world_typed w"
  "world_typed (w\<lparr>timers := ts\<rparr>) = world_typed w"
  "world_typed (w\<lparr>timeouts := tt\<rparr>) = world_typed w"
  "world_typed (w\<lparr>fresh := k\<rparr>) = world_typed w"
  "world_typed (w\<lparr>repository := rp\<rparr>) = world_typed w"
  "world_typed (w\<lparr>watchers := ws\<rparr>) = world_typed w"
  "world_typed (w\<lparr>watcher := wo\<rparr>) = world_typed w"
  "world_typed (w\<lparr>clock := c\<rparr>) = world_typed w"
  by (simp_all add: world_typed_def)

interpretation typed: dispatch_order "keeps world_typed"
  by unfold_locales (simp_all add: keeps_def world_typed_put_value)

lemma object_typed_attribute:
  assumes "object_typed ob" "getMember ob name = Some (Attribute n t)"
  obtains v where "object_attribute ob name = Inr v" "checkArg v t = None"
proof -
  from assms obtain v where "attr_values ob n = Some v" "checkArg v t = None"
    unfolding object_typed_def by blast
  with assms(2) show thesis by (intro that[of v]) (simp_all add: object_attribute_def)
qed

end
