(* ===== verification/Publish.thy ===== *)
theory Publish
  imports DispatchLaws
begin

section \<open>Publication on IRC\<close>

text \<open>
  The third part of \<open>netobject.js\<close>: \<open>publishLocal\<close> with its message handler, the watcher
  that follows the objects of other processes (\<open>loadWatcher\<close>), \<open>publishRemote\<close>, the
  repository, \<open>publish\<close> and \<open>unpublish\<close>. The irc package is a third party: its calls are
  recorded in \<open>irc_log\<close>, its events are the operations \<open>message\<close> and \<open>watcher_event\<close>.
\<close>

definition new_id :: "nat wop" where
  "new_id w = (Inr (fresh w), w\<lparr>fresh := Suc (fresh w)\<rparr>)"

subsection \<open>Local publication\<close>

definition publishLocal :: "oref \<Rightarrow> string list \<Rightarrow> container wop" where
  "publishLocal r channels = with_object r (\<lambda>ob.
     (case makeNick ob of
        Inl e \<Rightarrow> throw e
      | Inr nick \<Rightarrow>
          bindE new_id (\<lambda>client.
            seqE (log_irc (IrcConnect client nick channels))
              (seqE (add_listener r EvAttribute (NickListener client))
                (ret \<lparr>ct_object = r, ct_channels = channels, ct_local = True, ct_link = client\<rparr>)))))"

definition destroyLocal :: "container \<Rightarrow> unit wop" where
  "destroyLocal ct =
     seqE (log_irc (IrcDisconnect (ct_link ct)))
       (remove_listener (ct_object ct) EvAttribute (NickListener (ct_link ct)))"

definition isMyNick :: "nobject \<Rightarrow> string \<Rightarrow> bool" where
  "isMyNick ob nick = (hd (split_on CHR ''|'' nick) = obj_id ob)"

text \<open>
  An incoming message: on a channel the first word names the component; the remaining words
  are the action and its arguments. Errors are answered with a notice.
\<close>

definition message_args :: "nobject \<Rightarrow> string \<Rightarrow> string \<Rightarrow> string list option" where
  "message_args ob to text =
     (let args = split_on CHR '' '' text
      in if take 1 to = ''#'' then
           (if length args < 2 then None
            else if \<not> isMyNick ob (hd args) then None
            else Some (tl args))
         else (if length args < 1 then None else Some args))"

definition catch_notice :: "nat \<Rightarrow> string \<Rightarrow> unit wop \<Rightarrow> unit wop" where
  "catch_notice client from m w =
     (case m w of
        (Inr u, w') \<Rightarrow> (Inr u, w')
      | (Inl e, w') \<Rightarrow> log_irc (IrcNotice client from e) w')"

definition message :: "nat \<Rightarrow> container \<Rightarrow> string \<Rightarrow> string \<Rightarrow> string \<Rightarrow> unit wop" where
  "message depth ct from to text = with_object (ct_object ct) (\<lambda>ob.
     (case message_args ob to text of
        None \<Rightarrow> ret ()
      | Some args \<Rightarrow>
          catch_notice (ct_link ct) from
            (executeAction depth (ct_object ct) (hd args) (map VStr (tl args)))))"

subsection \<open>The watcher\<close>

definition loadWatcher :: "nat wop" where
  "loadWatcher w =
     (case watcher w of
        Some wid \<Rightarrow> (Inr wid, w)
      | None \<Rightarrow>
          (let wid = fresh w
           in (Inr wid,
               w\<lparr>fresh := Suc wid,
                 watchers := (watchers w)(wid \<mapsto>
                   \<lparr>wt_client = wid, wt_channels = [], wt_objects = [], wt_online = False\<rparr>),
                 watcher := Some wid,
                 irc_log := irc_log w @ [IrcConnect wid (process_nick w) []]\<rparr>)))"

definition with_watcher :: "nat \<Rightarrow> (watcher_state \<Rightarrow> 'a wop) \<Rightarrow> 'a wop" where
  "with_watcher wid f w = (case watchers w wid of None \<Rightarrow> (Inl TypeErr, w) | Some wt \<Rightarrow> f wt w)"

definition put_watcher :: "nat \<Rightarrow> watcher_state \<Rightarrow> unit wop" where
  "put_watcher wid wt = modifyE (\<lambda>w. w\<lparr>watchers := (watchers w)(wid \<mapsto> wt)\<rparr>)"

definition addChannel :: "nat \<Rightarrow> string \<Rightarrow> unit wop" where
  "addChannel wid ch = with_watcher wid (\<lambda>wt.
     (case jget (wt_channels wt) ch of
        Some (Suc n) \<Rightarrow> put_watcher wid (wt\<lparr>wt_channels := jset ch (Suc n + 1) (wt_channels wt)\<rparr>)
      | _ \<Rightarrow>
          seqE (put_watcher wid (wt\<lparr>wt_channels := jset ch 1 (wt_channels wt)\<rparr>))
            (if wt_online wt then log_irc (IrcJoin (wt_client wt) ch) else ret ())))"

definition removeChannel :: "nat \<Rightarrow> string \<Rightarrow> unit wop" where
  "removeChannel wid ch = with_watcher wid (\<lambda>wt.
     (case jget (wt_channels wt) ch of
        Some (Suc (Suc n)) \<Rightarrow> put_watcher wid (wt\<lparr>wt_channels := jset ch (Suc n) (wt_channels wt)\<rparr>)
      | _ \<Rightarrow>
          seqE (if wt_online wt then log_irc (IrcPart (wt_client wt) ch) else ret ())
            (put_watcher wid (wt\<lparr>wt_channels := jdel ch (wt_channels wt)\<rparr>))))"

definition addObject :: "nat \<Rightarrow> oref \<Rightarrow> unit wop" where
  "addObject wid r = with_watcher wid (\<lambda>wt. with_object r (\<lambda>ob.
     put_watcher wid (wt\<lparr>wt_objects := jset (obj_id ob) r (wt_objects wt)\<rparr>)))"

definition removeObject :: "nat \<Rightarrow> oref \<Rightarrow> unit wop" where
  "removeObject wid r = with_watcher wid (\<lambda>wt. with_object r (\<lambda>ob.
     put_watcher wid (wt\<lparr>wt_objects := jdel (obj_id ob) (wt_objects wt)\<rparr>)))"

definition checkClean :: "nat \<Rightarrow> unit wop" where
  "checkClean wid = with_watcher wid (\<lambda>wt.
     (if wt_objects wt \<noteq> [] then ret ()
      else seqE (log_irc (IrcDisconnect (wt_client wt))) (modifyE (\<lambda>w. w\<lparr>watcher := None\<rparr>))))"

text \<open>
  \<open>setAttributes\<close>: the attributes in class order receive null, or the parts of a nick as
  strings; a missing part is \<open>undefined\<close>.
\<close>

fun attribute_updates :: "member list \<Rightarrow> string list option \<Rightarrow> (string \<times> jsval) list" where
  "attribute_updates [] values = []"
| "attribute_updates (Action n ts # ms) values = attribute_updates ms values"
| "attribute_updates (Attribute n t # ms) None = (n, VNull) # attribute_updates ms None"
| "attribute_updates (Attribute n t # ms) (Some []) = (n, VUndefined) # attribute_updates ms (Some [])"
| "attribute_updates (Attribute n t # ms) (Some (v # vs)) =
     (n, VStr v) # attribute_updates ms (Some vs)"

definition setAttributes :: "nat \<Rightarrow> oref \<Rightarrow> string list option \<Rightarrow> unit wop" where
  "setAttributes depth r values = with_object r (\<lambda>ob.
     forE (attribute_updates (members (obj_class ob)) values) (\<lambda>(n, v). setAttribute depth r n v))"

definition nick_id :: "string \<Rightarrow> string" where
  "nick_id nick = hd (split_on CHR ''|'' nick)"

definition nick_attrs :: "string \<Rightarrow> string list" where
  "nick_attrs nick = tl (split_on CHR ''|'' nick)"

definition watched :: "nat \<Rightarrow> string \<Rightarrow> (oref \<Rightarrow> unit wop) \<Rightarrow> unit wop" where
  "watched wid i f = with_watcher wid (\<lambda>wt.
     (case jget (wt_objects wt) i of None \<Rightarrow> ret () | Some r \<Rightarrow> f r))"

definition nickOnline :: "nat \<Rightarrow> nat \<Rightarrow> string \<Rightarrow> unit wop" where
  "nickOnline depth wid nick = watched wid (nick_id nick) (\<lambda>r.
     seqE (setAttributes depth r (Some (nick_attrs nick))) (emit depth r EvConnected PNone))"

definition nickOffline :: "nat \<Rightarrow> nat \<Rightarrow> string \<Rightarrow> unit wop" where
  "nickOffline depth wid nick = watched wid (nick_id nick) (\<lambda>r.
     seqE (emit depth r EvDisonnected PNone) (setAttributes depth r None))"

definition nickChanged :: "nat \<Rightarrow> nat \<Rightarrow> string \<Rightarrow> string \<Rightarrow> unit wop" where
  "nickChanged depth wid oldNick newNick = watched wid (nick_id newNick) (\<lambda>r.
     setAttributes depth r (Some (nick_attrs newNick)))"

definition connectionClosed :: "nat \<Rightarrow> nat \<Rightarrow> unit wop" where
  "connectionClosed depth wid = with_watcher wid (\<lambda>wt.
     (if \<not> wt_online wt then ret ()
      else seqE (put_watcher wid (wt\<lparr>wt_online := False\<rparr>))
             (forE (jkeys (wt_objects wt)) (nickOffline depth wid))))"

definition registered :: "nat \<Rightarrow> unit wop" where
  "registered wid = with_watcher wid (\<lambda>wt.
     seqE (put_watcher wid (wt\<lparr>wt_online := True\<rparr>))
       (forE (jkeys (wt_channels wt)) (\<lambda>ch. log_irc (IrcJoin (wt_client wt) ch))))"

text \<open>
  The events of the watcher's irc client. \<open>names\<close> is iterated by index and length; when
  the package passes an object instead of an array, the length is undefined and nothing runs.
\<close>

datatype names_arg = NamesArray "string list" | NamesObject "string list"

datatype irc_event =
    PartEvent string string | KickEvent string string | KillEvent string | QuitEvent string
  | JoinEvent string string | NamesEvent string names_arg | NickEvent string string
  | RegisteredEvent | ConnectionEndEvent

fun watcher_event :: "nat \<Rightarrow> nat \<Rightarrow> irc_event \<Rightarrow> unit wop" where
  "watcher_event depth wid (PartEvent channel nick) = nickOffline depth wid nick"
| "watcher_event depth wid (KickEvent channel nick) = nickOffline depth wid nick"
| "watcher_event depth wid (KillEvent nick) = nickOffline depth wid nick"
| "watcher_event depth wid (QuitEvent nick) = nickOffline depth wid nick"
| "watcher_event depth wid (JoinEvent channel nick) = nickOnline depth wid nick"
| "watcher_event depth wid (NamesEvent channel (NamesArray users)) = forE users (nickOnline depth wid)"
| "watcher_event depth wid (NamesEvent channel (NamesObject users)) = ret ()"
| "watcher_event depth wid (NickEvent oldNick newNick) = nickChanged depth wid oldNick newNick"
| "watcher_event depth wid RegisteredEvent = registered wid"
| "watcher_event depth wid ConnectionEndEvent = connectionClosed depth wid"

subsection \<open>Remote publication and the repository\<close>

definition publishRemote :: "oref \<Rightarrow> string list \<Rightarrow> container wop" where
  "publishRemote r channels =
     bindE loadWatcher (\<lambda>wid.
       seqE (forE channels (addChannel wid))
         (seqE (addObject wid r)
           (seqE (add_listener r EvAction (RemoteListener wid channels))
             (ret \<lparr>ct_object = r, ct_channels = channels, ct_local = False, ct_link = wid\<rparr>))))"

definition destroyRemote :: "container \<Rightarrow> unit wop" where
  "destroyRemote ct =
     seqE (remove_listener (ct_object ct) EvAction (RemoteListener (ct_link ct) (ct_channels ct)))
       (seqE (removeObject (ct_link ct) (ct_object ct))
         (seqE (forE (ct_channels ct) (removeChannel (ct_link ct))) (checkClean (ct_link ct))))"

definition publish :: "oref \<Rightarrow> string list \<Rightarrow> bool \<Rightarrow> container wop" where
  "publish r channels local =
     bindE (if local then publishLocal r channels else publishRemote r channels)
       (\<lambda>ct. with_object (ct_object ct) (\<lambda>ob.
          seqE (modifyE (\<lambda>w. w\<lparr>repository := jset (obj_id ob) ct (repository w)\<rparr>)) (ret ct)))"

definition unpublish :: "container \<Rightarrow> unit wop" where
  "unpublish ct = with_object (ct_object ct) (\<lambda>ob.
     seqE (modifyE (\<lambda>w. w\<lparr>repository := jdel (obj_id ob) (repository w)\<rparr>))
       (if ct_local ct then destroyLocal ct else destroyRemote ct))"

end
