(* ===== verification/CoreState.thy ===== *)
theory CoreState
  imports Publish
begin

section \<open>The state of the core process\<close>

text \<open>
  The module-level variables of \<open>plugins.js\<close>, \<open>hardware.js\<close>, \<open>links.js\<close> and \<open>data.js\<close>
  around the \<open>world\<close> of \<open>netobject.js\<close>, with the configuration records that the REST interface
  posts and the data file stores. The files themselves are held as the values that
  \<open>JSON.parse\<close> reads from them.
\<close>

datatype plugin_kind = Button | HubBool | Light | Music | StepRelay | SwitchToButton

record plugin_type =
  pt_id :: string
  pt_kind :: plugin_kind          \<comment> \<open>the module object: its \<open>create\<close> function\<close>
  pt_class :: net_class
  pt_displayName :: string
  pt_imageUrl :: string
  pt_arguments :: "string list"
  pt_ui :: bool

record plugin_config =
  pc_id :: string
  pc_type :: string
  pc_parameters :: "jsval dict"
  pc_designer :: "(int \<times> int) option"

record hw_config =
  hc_id :: string
  hc_class :: "net_class option"
  hc_designer :: "(int \<times> int) option"

record plugin_container =
  pk_id :: string
  pk_typeId :: string
  pk_config :: plugin_config
  pk_net :: container

record hw_item =
  hi_id :: string
  hi_config :: hw_config
  hi_object :: oref
  hi_container :: container

record link_item =
  li_id :: string
  li_config :: link_config
  li_source :: oref
  li_handler :: listener

text \<open>The content of \<open>data.json\<close>; \<open>ui.json\<close> is opaque to the core and kept as text.\<close>

record persisted =
  ps_hardware :: "hw_config dict"
  ps_plugins :: "plugin_config dict"
  ps_links :: "link_config dict"

record core =
  net :: world
  plugin_dir :: "string list"           \<comment> \<open>file names of the \<open>plugins\<close> directory\<close>
  pluginTypes :: "plugin_type dict option"
  pluginContainers :: "plugin_container dict"
  hardware :: "hw_item dict"
  links :: "link_item dict"
  data_cache :: "persisted option"
  data_file :: "persisted option"       \<comment> \<open>\<open>None\<close>: absent or not JSON\<close>
  ui_cache :: "string option"
  ui_file :: "string option"

type_synonym 'a cop = "(core, 'a) op"

definition lift_net :: "'a wop \<Rightarrow> 'a cop" where
  "lift_net m c = (case m (net c) of (r, w) \<Rightarrow> (r, c\<lparr>net := w\<rparr>))"

definition readE :: "('w \<Rightarrow> 'a) \<Rightarrow> ('w, 'a) op" where
  "readE f w = (Inr (f w), w)"

lemma lift_net_frame:
  assumes "lift_net m c = (r, c')"
  shows "plugin_dir c' = plugin_dir c" "pluginTypes c' = pluginTypes c"
    "pluginContainers c' = pluginContainers c" "hardware c' = hardware c" "links c' = links c"
    "data_cache c' = data_cache c" "data_file c' = data_file c"
    "ui_cache c' = ui_cache c" "ui_file c' = ui_file c" "m (net c) = (r, net c')"
  using assms by (auto simp: lift_net_def split: prod.splits)

definition fresh_process :: "string \<Rightarrow> string list \<Rightarrow> persisted option \<Rightarrow> string option \<Rightarrow> core" where
  "fresh_process nick files df uf =
     \<lparr>net = empty_world nick, plugin_dir = files, pluginTypes = None, pluginContainers = [],
      hardware = [], links = [], data_cache = None, data_file = df, ui_cache = None, ui_file = uf\<rparr>"

end
