(* ===== verification/Links.thy ===== *)
theory Links
  imports CoreState
begin

section \<open>Links between components\<close>

text \<open>
  \<open>links.js\<close>: a link makes the value changes of a source attribute execute an action of a
  destination component with the value as its argument. Links are kept in an object keyed by
  the four names of the configuration.
\<close>

definition makeId :: "link_config \<Rightarrow> string" where
  "makeId cfg = sourceComponent cfg @ ''|'' @ sourceAttribute cfg @ ''|'' @
                destinationComponent cfg @ ''|'' @ destinationAction cfg"

text \<open>\<open>netobject.netRepository[id].object\<close>.\<close>

definition repository_object :: "string \<Rightarrow> oref wop" where
  "repository_object i w =
     (case jget (repository w) i of None \<Rightarrow> (Inl TypeErr, w) | Some ct \<Rightarrow> (Inr (ct_object ct), w))"

definition connect_link :: "link_config \<Rightarrow> (oref \<times> listener) wop" where
  "connect_link cfg =
     bindE (repository_object (sourceComponent cfg)) (\<lambda>src.
       bindE (repository_object (destinationComponent cfg)) (\<lambda>dst.
         bindE new_id (\<lambda>u.
           (let h = LinkListener u src dst cfg
            in seqE (add_listener src (EvAttributeOf (sourceAttribute cfg)) h)
                 (seqE (add_listener src EvConnected h) (ret (src, h)))))))"

definition create_link :: "link_config \<Rightarrow> link_item cop" where
  "create_link cfg c =
     (if jget (links c) (makeId cfg) \<noteq> None then (Inl LinkExists, c)
      else bindE (lift_net (connect_link cfg)) (\<lambda>(src, h).
             (let li = \<lparr>li_id = makeId cfg, li_config = cfg, li_source = src, li_handler = h\<rparr>
              in seqE (modifyE (\<lambda>c. c\<lparr>links := jset (makeId cfg) li (links c)\<rparr>)) (ret li))) c)"

definition destroy_link :: "string \<Rightarrow> bool cop" where
  "destroy_link i c =
     (case jget (links c) i of
        None \<Rightarrow> (Inr False, c)
      | Some li \<Rightarrow>
          seqE (lift_net (remove_listener (li_source li)
                  (EvAttributeOf (sourceAttribute (li_config li))) (li_handler li)))
            (seqE (modifyE (\<lambda>c. c\<lparr>links := jdel i (links c)\<rparr>)) (ret True)) c)"

end
