(* ===== verification/Hardware.thy ===== *)
theory Hardware
  imports CoreState
begin

section \<open>Hardware components\<close>

text \<open>
  \<open>hardware.js\<close>: an item stands for a component that runs in another process. Its class
  comes from the posted configuration and it is published remotely.
\<close>

definition create_hardware :: "hw_config \<Rightarrow> hw_item cop" where
  "create_hardware cfg c =
     (if jget (hardware c) (hc_id cfg) \<noteq> None then (Inl HardwareExists, c)
      else (case hc_class cfg of
              None \<Rightarrow> (Inl TypeErr, c)
            | Some cl \<Rightarrow>
                bindE (lift_net (netObject (hc_id cfg) cl)) (\<lambda>r.
                  bindE (lift_net (publish r [''#mylife-home-hardware''] False)) (\<lambda>ct.
                    (let item = \<lparr>hi_id = hc_id cfg, hi_config = cfg, hi_object = r, hi_container = ct\<rparr>
                     in seqE (modifyE (\<lambda>c. c\<lparr>hardware := jset (hc_id cfg) item (hardware c)\<rparr>))
                          (ret item)))) c))"

definition destroy_hardware :: "string \<Rightarrow> bool cop" where
  "destroy_hardware i c =
     (case jget (hardware c) i of
        None \<Rightarrow> (Inr False, c)
      | Some item \<Rightarrow>
          seqE (lift_net (unpublish (hi_container item)))
            (seqE (modifyE (\<lambda>c. c\<lparr>hardware := jdel i (hardware c)\<rparr>)) (ret True)) c)"

end
