(* ===== verification/PluginHost.thy ===== *)
theory PluginHost
  imports CoreState
begin

section \<open>Plugins\<close>

text \<open>
  \<open>plugins.js\<close> and the plugin modules \<open>plugins/*.js\<close>: the plugin types found in the plugin
  directory, the creation and the destruction of plugin instances. The module that
  \<open>require\<close> loads for a name is a parameter, because \<open>register\<close> lets a user upload code; the
  modules of the repository are the six kinds below. Icons (\<open>pluginTools.js\<close>) are read from
  files: the data URL of a plugin's icon is the parameter \<open>icon\<close>.
\<close>

subsection \<open>The plugin modules\<close>

definition boolean_type :: net_type where
  "boolean_type = netEnum [''off'', ''on'']"

definition button_class :: net_class where
  "button_class = netClass [netAttribute ''output'' boolean_type, netAction ''input'' []]"

definition switch_to_button_class :: net_class where
  "switch_to_button_class =
     netClass [netAttribute ''output'' boolean_type, netAction ''input'' [boolean_type]]"

definition hub_bool_class :: net_class where
  "hub_bool_class =
     netClass [netAttribute ''output'' boolean_type, netAction ''input'' [boolean_type]]"

definition light_class :: net_class where
  "light_class =
     netClass [netAttribute ''output'' boolean_type, netAction ''input'' [boolean_type]]"

definition step_relay_class :: net_class where
  "step_relay_class =
     netClass [netAttribute ''output'' boolean_type, netAction ''input'' [boolean_type],
               netAction ''on'' [boolean_type], netAction ''off'' [boolean_type]]"

definition state_type :: net_type where
  "state_type = netEnum [''unknown'', ''stop'', ''play'', ''pause'']"

definition volume_type :: net_type where
  "volume_type = netRange 0 100"

definition music_class :: net_class where
  "music_class =
     netClass [netAttribute ''state'' state_type, netAttribute ''volume'' volume_type,
               netAction ''setstate'' [state_type], netAction ''setvolume'' [volume_type],
               netAction ''stop'' [], netAction ''play'' [], netAction ''pause'' [],
               netAction ''state-switch'' [], netAction ''volume-more'' [],
               netAction ''volume-less'' []]"

lemmas plugin_class_defs =
  button_class_def switch_to_button_class_def hub_bool_class_def light_class_def
  step_relay_class_def music_class_def boolean_type_def state_type_def volume_type_def

fun plugin_class :: "plugin_kind \<Rightarrow> net_class" where
  "plugin_class Button = button_class"
| "plugin_class HubBool = hub_bool_class"
| "plugin_class Light = light_class"
| "plugin_class Music = music_class"
| "plugin_class StepRelay = step_relay_class"
| "plugin_class SwitchToButton = switch_to_button_class"

fun plugin_displayName :: "plugin_kind \<Rightarrow> string" where
  "plugin_displayName Button = ''Bouton''"
| "plugin_displayName HubBool = ''Hub Bool'' @ [CHR 0xE9] @ ''en''"
| "plugin_displayName Light = ''Eclairage''"
| "plugin_displayName Music = ''Musique''"
| "plugin_displayName StepRelay = ''Telerupteur''"
| "plugin_displayName SwitchToButton = ''Int -> Btn''"

fun plugin_ui :: "plugin_kind \<Rightarrow> bool" where
  "plugin_ui Button = True"
| "plugin_ui HubBool = False"
| "plugin_ui Light = True"
| "plugin_ui Music = True"
| "plugin_ui StepRelay = False"
| "plugin_ui SwitchToButton = False"

text \<open>The initial attribute values and the handlers each \<open>create\<close> installs, in source order.\<close>

fun plugin_initial :: "plugin_kind \<Rightarrow> (string \<times> jsval) list" where
  "plugin_initial Music = [(''state'', VStr ''stop''), (''volume'', VStr ''0'')]"
| "plugin_initial _ = [(''output'', v_off)]"

fun plugin_handlers :: "plugin_kind \<Rightarrow> (string \<times> plugin_handler) list" where
  "plugin_handlers Button = [(''input'', ButtonInput)]"
| "plugin_handlers SwitchToButton = [(''input'', SwitchToButtonInput)]"
| "plugin_handlers HubBool = [(''input'', HubBoolInput)]"
| "plugin_handlers Light = [(''input'', LightInput)]"
| "plugin_handlers StepRelay =
     [(''input'', StepRelayInput), (''on'', StepRelayOn), (''off'', StepRelayOff)]"
| "plugin_handlers Music =
     [(''setstate'', MusicSetstate), (''setvolume'', MusicSetvolume), (''stop'', MusicStop),
      (''play'', MusicPlay), (''pause'', MusicPause), (''state-switch'', MusicStateSwitch),
      (''volume-more'', MusicVolumeMore), (''volume-less'', MusicVolumeLess)]"

definition plugin_create :: "nat \<Rightarrow> plugin_kind \<Rightarrow> oref \<Rightarrow> unit wop" where
  "plugin_create depth k r =
     seqE (forE (plugin_initial k) (\<lambda>(n, v). setAttribute depth r n v))
       (forE (plugin_handlers k) (\<lambda>(a, h). add_listener r (EvActionOf a) (PluginListener h)))"

subsection \<open>Plugin types\<close>

text \<open>\<open>path.extname\<close> and \<open>path.basename(file, ext)\<close> of a plain file name.\<close>

definition extname :: "string \<Rightarrow> string" where
  "extname f =
     (let tail_len = length (takeWhile (\<lambda>c. c \<noteq> CHR ''.'') (rev f))
      in if CHR ''.'' \<notin> set f \<or> Suc tail_len = length f then []
         else drop (length f - Suc tail_len) f)"

definition basename :: "string \<Rightarrow> string" where
  "basename f = take (length f - length (extname f)) f"

definition make_plugin_type :: "(string \<Rightarrow> string) \<Rightarrow> string \<Rightarrow> plugin_kind \<Rightarrow> plugin_type" where
  "make_plugin_type icon name k =
     \<lparr>pt_id = name, pt_kind = k, pt_class = plugin_class k, pt_displayName = plugin_displayName k,
      pt_imageUrl = icon name, pt_arguments = [], pt_ui = plugin_ui k\<rparr>"

fun refresh_files :: "(string \<Rightarrow> js_error + plugin_kind) \<Rightarrow> (string \<Rightarrow> string) \<Rightarrow> string list \<Rightarrow>
    plugin_type dict \<Rightarrow> js_error option \<times> plugin_type dict" where
  "refresh_files require icon [] types = (None, types)"
| "refresh_files require icon (f # fs) types =
     (if extname f \<noteq> ''.js'' then refresh_files require icon fs types
      else if jget types (basename f) \<noteq> None then refresh_files require icon fs types
      else (case require (basename f) of
              Inl e \<Rightarrow> (Some e, types)
            | Inr k \<Rightarrow> refresh_files require icon fs
                         (jset (basename f) (make_plugin_type icon (basename f) k) types)))"

definition refreshPluginTypes :: "(string \<Rightarrow> js_error + plugin_kind) \<Rightarrow> (string \<Rightarrow> string) \<Rightarrow> unit cop" where
  "refreshPluginTypes require icon c =
     (case pluginTypes c of
        None \<Rightarrow> (if list_ex (\<lambda>f. extname f = ''.js'') (plugin_dir c) then (Inl TypeErr, c) else (Inr (), c))
      | Some types \<Rightarrow>
          (case refresh_files require icon (plugin_dir c) types of
             (Some e, types') \<Rightarrow> (Inl e, c\<lparr>pluginTypes := Some types'\<rparr>)
           | (None, types') \<Rightarrow> (Inr (), c\<lparr>pluginTypes := Some types'\<rparr>)))"

definition checkPluginTypes :: "(string \<Rightarrow> js_error + plugin_kind) \<Rightarrow> (string \<Rightarrow> string) \<Rightarrow> unit cop" where
  "checkPluginTypes require icon c =
     (case pluginTypes c of
        None \<Rightarrow> refreshPluginTypes require icon (c\<lparr>pluginTypes := Some []\<rparr>)
      | Some types \<Rightarrow> (Inr (), c))"

subsection \<open>Plugin instances\<close>

definition plugin_channels :: "plugin_type \<Rightarrow> string list" where
  "plugin_channels pt = (if pt_ui pt then [''#mylife-home-core'', ''#mylife-home-ui'']
                         else [''#mylife-home-core''])"

definition instantiate_plugin :: "nat \<Rightarrow> string \<Rightarrow> plugin_type \<Rightarrow> container wop" where
  "instantiate_plugin depth i pt =
     bindE (netObject i (pt_class pt)) (\<lambda>r.
       seqE (plugin_create depth (pt_kind pt) r) (publish r (plugin_channels pt) True))"

definition create_plugin :: "nat \<Rightarrow> (string \<Rightarrow> js_error + plugin_kind) \<Rightarrow> (string \<Rightarrow> string) \<Rightarrow>
    plugin_config \<Rightarrow> plugin_container cop" where
  "create_plugin depth require icon cfg c =
     (if jget (pluginContainers c) (pc_id cfg) \<noteq> None then (Inl ContainerExists, c)
      else seqE (checkPluginTypes require icon)
             (bindE (readE (\<lambda>c. jget (the (pluginTypes c)) (pc_type cfg))) (\<lambda>pto.
                (case pto of
                   None \<Rightarrow> throw TypeErr
                 | Some pt \<Rightarrow>
                     bindE (lift_net (instantiate_plugin depth (pc_id cfg) pt)) (\<lambda>ct.
                       (let k = \<lparr>pk_id = pc_id cfg, pk_typeId = pt_id pt, pk_config = cfg, pk_net = ct\<rparr>
                        in seqE (modifyE (\<lambda>c. c\<lparr>pluginContainers := jset (pc_id cfg) k (pluginContainers c)\<rparr>))
                             (ret k)))))) c)"

text \<open>No plugin module of the repository defines a \<open>destroy\<close> function for its instances.\<close>

definition destroy_plugin :: "string \<Rightarrow> bool cop" where
  "destroy_plugin i c =
     (case jget (pluginContainers c) i of
        None \<Rightarrow> (Inr False, c)
      | Some k \<Rightarrow>
          seqE (lift_net (unpublish (pk_net k)))
            (seqE (modifyE (\<lambda>c. c\<lparr>pluginContainers := jdel i (pluginContainers c)\<rparr>)) (ret True)) c)"

definition plugin_types :: "(string \<Rightarrow> js_error + plugin_kind) \<Rightarrow> (string \<Rightarrow> string) \<Rightarrow> plugin_type dict cop" where
  "plugin_types require icon =
     seqE (checkPluginTypes require icon) (readE (\<lambda>c. the (pluginTypes c)))"

text \<open>\<open>register\<close> writes the module file (overwriting a file of that name) and refreshes.\<close>

definition register_plugin :: "(string \<Rightarrow> js_error + plugin_kind) \<Rightarrow> (string \<Rightarrow> string) \<Rightarrow> string \<Rightarrow> unit cop" where
  "register_plugin require icon name =
     seqE (checkPluginTypes require icon)
       (bindE (readE (\<lambda>c. jget (the (pluginTypes c)) name)) (\<lambda>t.
          if t \<noteq> None then throw PluginTypeExists
          else seqE (modifyE (\<lambda>c. c\<lparr>plugin_dir := List.insert (name @ ''.js'') (plugin_dir c)\<rparr>))
                 (refreshPluginTypes require icon)))"

text \<open>The module of each file of the repository's \<open>plugins\<close> directory.\<close>

definition repo_require :: "string \<Rightarrow> js_error + plugin_kind" where
  "repo_require name =
     (if name = ''button'' then Inr Button
      else if name = ''hubBool'' then Inr HubBool
      else if name = ''light'' then Inr Light
      else if name = ''music'' then Inr Music
      else if name = ''stepRelay'' then Inr StepRelay
      else if name = ''switchToButton'' then Inr SwitchToButton
      else Inl LoadFailed)"

definition repo_plugin_dir :: "string list" where
  "repo_plugin_dir =
     [''button.js'', ''button.png'', ''hubBool.js'', ''hubBool.png'', ''light.js'', ''light.png'',
      ''music.js'', ''music.png'', ''stepRelay.js'', ''stepRelay.png'', ''switchToButton.js'',
      ''switchToButton.png'']"

end
