(* ===== verification/DataStore.thy ===== *)
theory DataStore
  imports CoreState
begin

section \<open>Persistent data\<close>

text \<open>
  \<open>data.js\<close>: the configuration of the process, loaded from \<open>data.json\<close> on first use and
  written back after every change; the same for the interface description in \<open>ui.json\<close>.
\<close>

definition checkData :: "unit cop" where
  "checkData c =
     (case data_cache c of
        Some d \<Rightarrow> (Inr (), c)
      | None \<Rightarrow>
          (case data_file c of
             None \<Rightarrow> (Inl LoadFailed, c)
           | Some d \<Rightarrow> (Inr (), c\<lparr>data_cache := Some d\<rparr>)))"

definition saveData :: "unit cop" where
  "saveData = modifyE (\<lambda>c. c\<lparr>data_file := data_cache c\<rparr>)"

definition getData :: "(persisted \<Rightarrow> 'a) \<Rightarrow> 'a cop" where
  "getData f = seqE checkData (readE (\<lambda>c. f (the (data_cache c))))"

definition updateData :: "(persisted \<Rightarrow> persisted) \<Rightarrow> unit cop" where
  "updateData f = seqE checkData
     (seqE (modifyE (\<lambda>c. c\<lparr>data_cache := map_option f (data_cache c)\<rparr>)) saveData)"

definition data_getPlugins :: "plugin_config dict cop" where
  "data_getPlugins = getData ps_plugins"

definition data_addPlugin :: "string \<Rightarrow> plugin_config \<Rightarrow> unit cop" where
  "data_addPlugin i cfg = updateData (\<lambda>d. d\<lparr>ps_plugins := jset i cfg (ps_plugins d)\<rparr>)"

definition data_removePlugin :: "string \<Rightarrow> unit cop" where
  "data_removePlugin i = updateData (\<lambda>d. d\<lparr>ps_plugins := jdel i (ps_plugins d)\<rparr>)"

definition data_getHardware :: "hw_config dict cop" where
  "data_getHardware = getData ps_hardware"

definition data_addHardware :: "string \<Rightarrow> hw_config \<Rightarrow> unit cop" where
  "data_addHardware i cfg = updateData (\<lambda>d. d\<lparr>ps_hardware := jset i cfg (ps_hardware d)\<rparr>)"

definition data_removeHardware :: "string \<Rightarrow> unit cop" where
  "data_removeHardware i = updateData (\<lambda>d. d\<lparr>ps_hardware := jdel i (ps_hardware d)\<rparr>)"

definition data_getLinks :: "link_config dict cop" where
  "data_getLinks = getData ps_links"

definition data_addLink :: "string \<Rightarrow> link_config \<Rightarrow> unit cop" where
  "data_addLink i cfg = updateData (\<lambda>d. d\<lparr>ps_links := jset i cfg (ps_links d)\<rparr>)"

definition data_removeLink :: "string \<Rightarrow> unit cop" where
  "data_removeLink i = updateData (\<lambda>d. d\<lparr>ps_links := jdel i (ps_links d)\<rparr>)"

definition data_getUi :: "string cop" where
  "data_getUi c =
     (case ui_cache c of
        Some u \<Rightarrow> (Inr u, c)
      | None \<Rightarrow>
          (case ui_file c of
             None \<Rightarrow> (Inl LoadFailed, c)
           | Some u \<Rightarrow> (Inr u, c\<lparr>ui_cache := Some u\<rparr>)))"

definition data_setUi :: "string \<Rightarrow> unit cop" where
  "data_setUi u = modifyE (\<lambda>c. c\<lparr>ui_cache := Some u, ui_file := Some u\<rparr>)"

end
