(* ===== verification/Manager.thy ===== *)
theory Manager
  imports Links Hardware PluginHost DataStore
begin

section \<open>The manager\<close>

text \<open>
  \<open>manager.js\<close>: starting and stopping the process, and the operations of the REST interface,
  each of which changes a registry and then the stored data. \<open>depth\<close> is the stack bound of the
  dispatch, \<open>require\<close> and \<open>icon\<close> the plugin modules and their icons.
\<close>

definition initialize :: "nat \<Rightarrow> (string \<Rightarrow> js_error + plugin_kind) \<Rightarrow> (string \<Rightarrow> string) \<Rightarrow> unit cop" where
  "initialize depth require icon =
     bindE data_getHardware (\<lambda>hs.
       seqE (forE (map snd hs) (\<lambda>cfg. bindE (create_hardware cfg) (\<lambda>_. ret ())))
         (bindE data_getPlugins (\<lambda>ps.
            seqE (forE (map snd ps) (\<lambda>cfg. bindE (create_plugin depth require icon cfg) (\<lambda>_. ret ())))
              (bindE data_getLinks (\<lambda>ls.
                 forE (map snd ls) (\<lambda>cfg. bindE (create_link cfg) (\<lambda>_. ret ())))))))"

text \<open>
  \<open>terminate\<close> passes ids to \<open>links.destroy\<close>, but the container objects themselves to
  \<open>plugins.destroy\<close> and \<open>hardware.destroy\<close>; as a property name such an object is converted
  to the string below.
\<close>

definition object_string :: string where
  "object_string = ''[object Object]''"

definition terminate :: "unit cop" where
  "terminate =
     seqE (bindE (readE links) (\<lambda>ls. forE (jkeys ls) (\<lambda>lid. bindE (destroy_link lid) (\<lambda>_. ret ()))))
       (seqE (bindE (readE pluginContainers)
                (\<lambda>ps. forE ps (\<lambda>_. bindE (destroy_plugin object_string) (\<lambda>_. ret ()))))
          (bindE (readE hardware)
             (\<lambda>hs. forE hs (\<lambda>_. bindE (destroy_hardware object_string) (\<lambda>_. ret ())))))"

definition uses_component :: "string \<Rightarrow> link_config \<Rightarrow> bool" where
  "uses_component i cfg = (sourceComponent cfg = i \<or> destinationComponent cfg = i)"

definition checkLink :: "string \<Rightarrow> unit cop" where
  "checkLink i c =
     (case find (\<lambda>(lid, li). uses_component i (li_config li)) (links c) of
        None \<Rightarrow> (Inr (), c)
      | Some (lid, li) \<Rightarrow> (Inl (UsedInLink i lid), c))"

definition getPlugins :: "plugin_config list cop" where
  "getPlugins = readE (\<lambda>c. map (pk_config \<circ> snd) (pluginContainers c))"

definition addPlugin :: "nat \<Rightarrow> (string \<Rightarrow> js_error + plugin_kind) \<Rightarrow> (string \<Rightarrow> string) \<Rightarrow>
    plugin_config \<Rightarrow> string cop" where
  "addPlugin depth require icon cfg =
     bindE (create_plugin depth require icon cfg) (\<lambda>k.
       seqE (data_addPlugin (pk_id k) cfg) (ret (pk_id k)))"

definition removePlugin :: "string \<Rightarrow> unit cop" where
  "removePlugin i =
     seqE (checkLink i)
       (bindE (destroy_plugin i) (\<lambda>ok.
          if \<not> ok then throw PluginNotFound else data_removePlugin i))"

definition getPluginTypes :: "(string \<Rightarrow> js_error + plugin_kind) \<Rightarrow> (string \<Rightarrow> string) \<Rightarrow> plugin_type list cop" where
  "getPluginTypes require icon =
     bindE (plugin_types require icon) (\<lambda>ts. ret (map snd ts))"

definition addPluginType :: "(string \<Rightarrow> js_error + plugin_kind) \<Rightarrow> (string \<Rightarrow> string) \<Rightarrow> string \<Rightarrow> unit cop" where
  "addPluginType require icon name = register_plugin require icon name"

definition getHardware :: "hw_config list cop" where
  "getHardware = readE (\<lambda>c. map (hi_config \<circ> snd) (hardware c))"

definition addHardware :: "hw_config \<Rightarrow> string cop" where
  "addHardware cfg =
     bindE (create_hardware cfg) (\<lambda>h. seqE (data_addHardware (hi_id h) cfg) (ret (hi_id h)))"

definition removeHardware :: "string \<Rightarrow> unit cop" where
  "removeHardware i =
     seqE (checkLink i)
       (bindE (destroy_hardware i) (\<lambda>ok.
          if \<not> ok then throw HardwareNotFound else data_removeHardware i))"

definition getLinks :: "(string \<times> link_config) list cop" where
  "getLinks = readE (\<lambda>c. map (\<lambda>(k, li). (li_id li, li_config li)) (links c))"

definition addLink :: "link_config \<Rightarrow> string cop" where
  "addLink cfg =
     bindE (create_link cfg) (\<lambda>l. seqE (data_addLink (li_id l) cfg) (ret (li_id l)))"

definition removeLink :: "string \<Rightarrow> unit cop" where
  "removeLink i =
     bindE (destroy_link i) (\<lambda>ok. if \<not> ok then throw LinkNotFound else data_removeLink i)"

subsection \<open>The REST interface\<close>

text \<open>
  The routes of \<open>app.js\<close>. Express parses the requests; a handler answers with the value, or
  with status 500 and the error. Handlers without \<open>try\<close> leave the error to express, which
  answers with status 500 as well.
\<close>

datatype request =
    GetApi | GetPlugins | PostPlugin plugin_config | DeletePlugin string
  | GetPluginTypes | RefreshPluginTypes | PostPluginType string
  | GetHardware | PostHardware hw_config | DeleteHardware string
  | GetLinks | PostLink link_config | DeleteLink string
  | GetUi | PostUi string

datatype response =
    RText string | RPlugins "plugin_config list" | RTypes "plugin_type list"
  | RHardware "hw_config list" | RLinks "(string \<times> link_config) list"
  | RId string | REmpty | RUi string | RError js_error

definition respond :: "('a \<Rightarrow> response) \<Rightarrow> 'a cop \<Rightarrow> core \<Rightarrow> response \<times> core" where
  "respond f m c = (case m c of (Inl e, c') \<Rightarrow> (RError e, c') | (Inr x, c') \<Rightarrow> (f x, c'))"

fun handle :: "nat \<Rightarrow> (string \<Rightarrow> js_error + plugin_kind) \<Rightarrow> (string \<Rightarrow> string) \<Rightarrow> request \<Rightarrow>
    core \<Rightarrow> response \<times> core" where
  "handle depth require icon GetApi c = (RText ''api up and running'', c)"
| "handle depth require icon GetPlugins c = respond RPlugins getPlugins c"
| "handle depth require icon (PostPlugin cfg) c = respond RId (addPlugin depth require icon cfg) c"
| "handle depth require icon (DeletePlugin i) c = respond (\<lambda>_. REmpty) (removePlugin i) c"
| "handle depth require icon GetPluginTypes c = respond RTypes (getPluginTypes require icon) c"
| "handle depth require icon RefreshPluginTypes c =
     respond (\<lambda>_. REmpty) (refreshPluginTypes require icon) c"
| "handle depth require icon (PostPluginType name) c =
     respond (\<lambda>_. REmpty) (addPluginType require icon name) c"
| "handle depth require icon GetHardware c = respond RHardware getHardware c"
| "handle depth require icon (PostHardware cfg) c = respond RId (addHardware cfg) c"
| "handle depth require icon (DeleteHardware i) c = respond (\<lambda>_. REmpty) (removeHardware i) c"
| "handle depth require icon GetLinks c = respond RLinks getLinks c"
| "handle depth require icon (PostLink cfg) c = respond RId (addLink cfg) c"
| "handle depth require icon (DeleteLink i) c = respond (\<lambda>_. REmpty) (removeLink i) c"
| "handle depth require icon GetUi c = respond RUi data_getUi c"
| "handle depth require icon (PostUi u) c = respond (\<lambda>_. REmpty) (data_setUi u) c"

text \<open>
  What happens to a running process: a request, a message to a published component, an event
  of the watcher's connection, a timer, the passing of time.
\<close>

datatype input =
    Request request
  | IncomingMessage string string string string   \<comment> \<open>component, sender, target, text\<close>
  | WatcherEvent irc_event
  | TimerDue nat
  | TimePasses nat

text \<open>Messages reach the client of a local publication: the components created by plugins.\<close>

definition deliver_message :: "nat \<Rightarrow> string \<Rightarrow> string \<Rightarrow> string \<Rightarrow> string \<Rightarrow> unit cop" where
  "deliver_message depth i from to text c =
     (case jget (pluginContainers c) i of
        Some k \<Rightarrow> lift_net (message depth (pk_net k) from to text) c
      | None \<Rightarrow> (Inr (), c))"

definition deliver_event :: "nat \<Rightarrow> irc_event \<Rightarrow> unit wop" where
  "deliver_event depth ev w =
     (case watcher w of None \<Rightarrow> (Inr (), w) | Some wid \<Rightarrow> watcher_event depth wid ev w)"

fun core_step :: "nat \<Rightarrow> (string \<Rightarrow> js_error + plugin_kind) \<Rightarrow> (string \<Rightarrow> string) \<Rightarrow> input \<Rightarrow> core \<Rightarrow> core" where
  "core_step depth require icon (Request q) c = snd (handle depth require icon q c)"
| "core_step depth require icon (IncomingMessage i from to text) c =
     snd (deliver_message depth i from to text c)"
| "core_step depth require icon (WatcherEvent ev) c = snd (lift_net (deliver_event depth ev) c)"
| "core_step depth require icon (TimerDue tid) c = snd (lift_net (fire_timer depth tid) c)"
| "core_step depth require icon (TimePasses ms) c = snd (lift_net (advance_clock ms) c)"

primrec core_run :: "nat \<Rightarrow> (string \<Rightarrow> js_error + plugin_kind) \<Rightarrow> (string \<Rightarrow> string) \<Rightarrow> input list \<Rightarrow> core \<Rightarrow> core" where
  "core_run depth require icon [] c = c"
| "core_run depth require icon (i # is) c = core_run depth require icon is (core_step depth require icon i c)"

end
