(* ===== verification/PublishLaws.thy ===== *)
theory PublishLaws
  imports Publish
begin

section \<open>What publication keeps\<close>

text \<open>
  The orders of \<open>DispatchLaws\<close>, extended to the operations of \<open>Publish\<close>: allocation of
  objects, listeners, the watcher's tables and the repository. The locale \<open>world_order\<close> covers
  everything but the repository, \<open>publish_order\<close> the repository too.
\<close>

locale world_order = dispatch_order R for R :: "world \<Rightarrow> world \<Rightarrow> bool" +
  assumes R_alloc: "R w (snd (netObject i c w))"
    and R_map_listeners: "R w (snd (map_listeners r f w))"
    and R_watchers: "R w (w\<lparr>watchers := ws\<rparr>)"
    and R_watcher: "R w (w\<lparr>watcher := wo\<rparr>)"
    and R_fresh: "R w (w\<lparr>fresh := Suc (fresh w)\<rparr>)"
    and R_clock: "R w (w\<lparr>clock := t\<rparr>)"
begin

lemma along_new_id: "along R new_id"
  by (simp add: along_def new_id_def R_fresh)

lemma along_netObject: "along R (netObject i c)"
  by (simp add: along_def R_alloc)

lemma along_listeners: "along R (add_listener r ev l)" "along R (remove_listener r ev l)"
  by (simp_all add: along_def add_listener_def remove_listener_def R_map_listeners)

lemma along_put_watcher: "along R (put_watcher wid wt)"
  unfolding put_watcher_def by (intro along_modifyE R_watchers)

lemma along_with_watcher: "(\<And>wt. along R (f wt)) \<Longrightarrow> along R (with_watcher wid f)"
  by (auto simp: along_def with_watcher_def R_refl split: option.split)

lemma along_loadWatcher: "along R loadWatcher"
  unfolding along_def
proof
  fix w
  show "R w (snd (loadWatcher w))"
  proof (cases "watcher w")
    case None
    define w1 where "w1 = w\<lparr>fresh := Suc (fresh w)\<rparr>"
    define w2 where "w2 = w1\<lparr>watchers := (watchers w)(fresh w \<mapsto>
        \<lparr>wt_client = fresh w, wt_channels = [], wt_objects = [], wt_online = False\<rparr>)\<rparr>"
    define w3 where "w3 = w2\<lparr>watcher := Some (fresh w)\<rparr>"
    have "R w w1" "R w1 w2" "R w2 w3"
      by (simp_all add: w1_def w2_def w3_def R_fresh R_watchers R_watcher)
    moreover have "R w3 (w3\<lparr>irc_log := irc_log w3 @ [IrcConnect (fresh w) (process_nick w) []]\<rparr>)"
      by (rule R_log)
    moreover have "snd (loadWatcher w) =
        w3\<lparr>irc_log := irc_log w3 @ [IrcConnect (fresh w) (process_nick w) []]\<rparr>"
      using None by (simp add: loadWatcher_def w1_def w2_def w3_def Let_def)
    ultimately show ?thesis by (metis R_trans)
  qed (simp add: loadWatcher_def R_refl)
qed

lemma along_publishLocal: "along R (publishLocal r chs)"
  unfolding publishLocal_def
  by (intro along_with_object)
    (auto split: sum.split intro!: along_throw along_bindE along_new_id along_seqE along_log_irc
      along_listeners along_ret)

lemma along_destroyLocal: "along R (destroyLocal ct)"
  unfolding destroyLocal_def by (intro along_seqE along_log_irc along_listeners)

lemma along_addChannel: "along R (addChannel wid ch)"
  unfolding addChannel_def
  by (intro along_with_watcher)
    (auto split: option.split nat.split intro!: along_seqE along_put_watcher along_log_irc along_ret)

lemma along_removeChannel: "along R (removeChannel wid ch)"
  unfolding removeChannel_def
  by (intro along_with_watcher)
    (auto split: option.split nat.split intro!: along_seqE along_put_watcher along_log_irc along_ret)

lemma along_addObject: "along R (addObject wid r)"
  unfolding addObject_def by (intro along_with_watcher along_with_object along_put_watcher)

lemma along_removeObject: "along R (removeObject wid r)"
  unfolding removeObject_def by (intro along_with_watcher along_with_object along_put_watcher)

lemma along_checkClean: "along R (checkClean wid)"
  unfolding checkClean_def
  by (intro along_with_watcher)
    (auto intro!: along_ret along_seqE along_log_irc along_modifyE R_watcher)

lemma along_publishRemote: "along R (publishRemote r chs)"
  unfolding publishRemote_def
  by (intro along_bindE along_seqE along_loadWatcher along_forE along_addChannel along_addObject
      along_listeners along_ret)

lemma along_destroyRemote: "along R (destroyRemote ct)"
  unfolding destroyRemote_def
  by (intro along_seqE along_listeners along_removeObject along_forE along_removeChannel
      along_checkClean)

lemma along_catch_notice: "along R m \<Longrightarrow> along R (catch_notice c from m)"
  unfolding along_def catch_notice_def
proof
  fix w assume m: "\<forall>w. R w (snd (m w))"
  obtain r w' where mw: "m w = (r, w')" by (cases "m w")
  with m have "R w w'" by (metis snd_conv)
  moreover have "R w' (snd (log_irc x w'))" for x
    using along_log_irc by (simp add: along_def)
  ultimately show "R w (snd (case m w of (Inl e, w') \<Rightarrow> log_irc (IrcNotice c from e) w' | (Inr u, w') \<Rightarrow> (Inr u, w')))"
    using mw by (cases r) (auto intro: R_trans)
qed

lemma along_message: "along R (message depth ct from to text)"
  unfolding message_def
  by (intro along_with_object)
    (auto split: option.split intro!: along_ret along_catch_notice along_executeAction)

lemma along_setAttributes: "along R (setAttributes depth r values)"
  unfolding setAttributes_def
  by (intro along_with_object along_forE) (auto intro: along_setAttribute)

lemma along_watched: "(\<And>r. along R (f r)) \<Longrightarrow> along R (watched wid i f)"
  unfolding watched_def by (intro along_with_watcher) (auto split: option.split intro: along_ret)

lemma along_nick:
  "along R (nickOnline depth wid nick)" "along R (nickOffline depth wid nick)"
  "along R (nickChanged depth wid old new)"
  unfolding nickOnline_def nickOffline_def nickChanged_def
  by (intro along_watched along_seqE along_setAttributes along_emit_event)+

lemma along_connectionClosed: "along R (connectionClosed depth wid)"
  unfolding connectionClosed_def
  by (intro along_with_watcher)
    (auto intro!: along_ret along_seqE along_put_watcher along_forE along_nick)

lemma along_registered: "along R (registered wid)"
  unfolding registered_def
  by (intro along_with_watcher along_seqE along_put_watcher along_forE along_log_irc)

lemma along_watcher_event: "along R (watcher_event depth wid ev)"
proof (cases ev)
  case (NamesEvent channel arg)
  then show ?thesis by (cases arg) (auto intro!: along_forE along_nick along_ret)
qed (auto intro!: along_nick along_registered along_connectionClosed)

lemma along_advance_clock: "along R (advance_clock ms)"
  unfolding advance_clock_def by (intro along_modifyE R_clock)

end

locale publish_order = world_order R for R :: "world \<Rightarrow> world \<Rightarrow> bool" +
  assumes R_repository: "R w (w\<lparr>repository := rp\<rparr>)"
begin

lemma along_publish: "along R (publish r chs local)"
  unfolding publish_def
  by (intro along_bindE along_with_object along_seqE along_modifyE R_repository along_ret along_if
      along_publishLocal along_publishRemote)

lemma along_unpublish: "along R (unpublish ct)"
  unfolding unpublish_def
  by (intro along_with_object along_seqE along_modifyE R_repository along_if along_destroyLocal
      along_destroyRemote)

end

subsection \<open>Four interpretations\<close>

lemma map_listeners_frame [simp]:
  "repository (snd (map_listeners r f w)) = repository w"
  "irc_log (snd (map_listeners r f w)) = irc_log w"
  "fresh (snd (map_listeners r f w)) = fresh w"
  "watchers (snd (map_listeners r f w)) = watchers w"
  "watcher (snd (map_listeners r f w)) = watcher w"
  by (simp_all add: map_listeners_def modifyE_def)

lemma netObject_frame [simp]:
  "repository (snd (netObject i c w)) = repository w"
  "irc_log (snd (netObject i c w)) = irc_log w"
  "fresh (snd (netObject i c w)) = Suc (fresh w)"
  "watchers (snd (netObject i c w)) = watchers w"
  "watcher (snd (netObject i c w)) = watcher w"
  by (simp_all add: netObject_def)

interpretation irclog: publish_order log_extends
  by unfold_locales (auto simp: log_extends_def)

lemma object_typed_initial:
  "object_typed \<lparr>obj_id = i, obj_class = c, attr_values = init_values (members c), listeners = []\<rparr>"
proof -
  have "n \<in> set (attribute_names ms)" if "find_member ms name = Some (Attribute n t)" for ms name n t
    using find_member_name[OF that] by (force simp: attribute_names_def)
  then show ?thesis by (auto simp: object_typed_def getMember_def init_values_def)
qed

lemma object_typed_listeners: "object_typed (ob\<lparr>listeners := ls\<rparr>) = object_typed ob"
  by (simp add: object_typed_def)

interpretation typed: publish_order "keeps world_typed"
proof unfold_locales
  show "keeps world_typed w (snd (netObject i c w))" for w i c
    using object_typed_initial by (auto simp: keeps_def world_typed_def netObject_def)
  show "keeps world_typed w (snd (map_listeners r f w))" for w r f
    by (auto simp: keeps_def world_typed_def map_listeners_def modifyE_def object_typed_listeners
        split: if_splits)
qed (simp_all add: keeps_def)

text \<open>Allocated objects stay allocated and keep their ids.\<close>

definition has_id :: "world \<Rightarrow> oref \<Rightarrow> string \<Rightarrow> bool" where
  "has_id w r i \<longleftrightarrow> r < fresh w \<and> (\<exists>ob. heap w r = Some ob \<and> obj_id ob = i)"

definition ids_kept :: "world \<Rightarrow> world \<Rightarrow> bool" where
  "ids_kept w w' \<longleftrightarrow> (\<forall>r i. has_id w r i \<longrightarrow> has_id w' r i)"

interpretation ids: publish_order ids_kept
proof unfold_locales
  show "ids_kept w w1 \<Longrightarrow> ids_kept w1 w2 \<Longrightarrow> ids_kept w w2" for w w1 w2
    by (simp add: ids_kept_def)
  show "ids_kept w (put_value r n v w)" for w r n v
    by (auto simp: ids_kept_def has_id_def put_value_def)
  show "ids_kept w (snd (map_listeners r f w))" for w r f
    by (auto simp: ids_kept_def has_id_def map_listeners_def modifyE_def)
  show "ids_kept w (snd (netObject i c w))" for w i c
    by (auto simp: ids_kept_def has_id_def netObject_def)
qed (auto simp: ids_kept_def has_id_def)

text \<open>Only \<open>publish\<close> and \<open>unpublish\<close> change the repository.\<close>

definition same_repository :: "world \<Rightarrow> world \<Rightarrow> bool" where
  "same_repository w w' \<longleftrightarrow> repository w' = repository w"

interpretation repo: world_order same_repository
  by unfold_locales (simp_all add: same_repository_def)

lemma along_result: "along R m \<Longrightarrow> m w = (r, w') \<Longrightarrow> R w w'"
  by (metis along_def snd_conv)

subsection \<open>The effect of publication on the repository\<close>

lemma with_object_id:
  assumes "has_id w r i"
  obtains ob where "heap w r = Some ob" "obj_id ob = i" "with_object r f w = f ob w"
  using assms by (auto simp: has_id_def with_object_def)

lemma with_object_result:
  "with_object r f w = (x, w') \<longleftrightarrow>
     (case heap w r of None \<Rightarrow> x = Inl TypeErr \<and> w' = w | Some ob \<Rightarrow> f ob w = (x, w'))"
  by (auto simp: with_object_def split: option.split)

lemma publishLocal_object: "publishLocal r chs w = (Inr ct, w') \<Longrightarrow> ct_object ct = r \<and> ct_local ct"
  by (auto simp: publishLocal_def with_object_result op_result_iffs split: option.splits sum.splits)

lemma publishRemote_object:
  "publishRemote r chs w = (Inr ct, w') \<Longrightarrow> ct_object ct = r \<and> \<not> ct_local ct"
  by (auto simp: publishRemote_def op_result_iffs)

lemma ids_keptD: "ids_kept w w' \<Longrightarrow> has_id w r i \<Longrightarrow> has_id w' r i"
  by (simp add: ids_kept_def)

lemma publish_first:
  assumes "(if l then publishLocal r chs else publishRemote r chs) w = (x, w1)"
  shows "repository w1 = repository w" "ids_kept w w1"
proof -
  have "along same_repository (if l then publishLocal r chs else publishRemote r chs)"
    by (intro repo.along_if repo.along_publishLocal repo.along_publishRemote)
  then show "repository w1 = repository w"
    using assms by (auto dest: along_result simp: same_repository_def)
  have "along ids_kept (if l then publishLocal r chs else publishRemote r chs)"
    by (intro ids.along_if ids.along_publishLocal ids.along_publishRemote)
  then show "ids_kept w w1" using assms by (rule along_result)
qed

lemma publish_ok:
  assumes "publish r chs l w = (Inr ct, w')" "has_id w r i"
  shows "ct_object ct = r" "ct_local ct = l" "repository w' = jset i ct (repository w)"
proof -
  obtain ct1 w1 where m: "(if l then publishLocal r chs else publishRemote r chs) w = (Inr ct1, w1)"
      and k: "with_object (ct_object ct1) (\<lambda>ob. seqE (modifyE (\<lambda>w. w\<lparr>repository := jset (obj_id ob) ct1 (repository w)\<rparr>))
                (ret ct1)) w1 = (Inr ct, w')"
    using assms(1) by (auto simp: publish_def bindE_Inr_iff)
  have o: "ct_object ct1 = r" "ct_local ct1 = l"
    using m by (auto split: if_splits dest: publishLocal_object publishRemote_object)
  have "has_id w1 r i" using publish_first(2)[OF m] assms(2) by (rule ids_keptD)
  with k o have "ct = ct1" "repository w' = jset i ct1 (repository w1)"
    by (auto simp: with_object_result has_id_def op_result_iffs)
  with o publish_first(1)[OF m] show "ct_object ct = r" "ct_local ct = l" "repository w' = jset i ct (repository w)"
    by simp_all
qed

lemma publish_error: "publish r chs l w = (Inl e, w') \<Longrightarrow> repository w' = repository w"
  unfolding publish_def bindE_Inl_iff
  by (auto dest: publish_first(1) simp: with_object_result op_result_iffs split: option.splits)

lemma unpublish_repository:
  assumes "unpublish ct w = (x, w')" "has_id w (ct_object ct) i"
  shows "repository w' = jdel i (repository w)"
proof -
  define w1 where "w1 = w\<lparr>repository := jdel i (repository w)\<rparr>"
  have "(if ct_local ct then destroyLocal ct else destroyRemote ct) w1 = (x, w')"
    using assms by (auto simp: unpublish_def with_object_result has_id_def w1_def seqE_def bindE_def
        modifyE_def)
  moreover have "along same_repository (if ct_local ct then destroyLocal ct else destroyRemote ct)"
    by (intro repo.along_if repo.along_destroyLocal repo.along_destroyRemote)
  ultimately have "repository w' = repository w1"
    by (auto dest: along_result simp: same_repository_def)
  then show ?thesis by (simp add: w1_def)
qed

lemma netObject_has_id: "netObject i c w = (Inr r, w1) \<Longrightarrow> has_id w1 r i"
  by (auto simp: netObject_def has_id_def)

subsection \<open>Messages\<close>

lemma catch_notice_Inr: "\<exists>w'. catch_notice c from m w = (Inr (), w')"
  by (auto simp: catch_notice_def log_irc_def modifyE_def split: prod.split sum.split)

end
