(* ===== verification/RegistryLaws.thy ===== *)
theory RegistryLaws
  imports Manager PublishLaws
begin

section \<open>The registries of the core and their stored copies\<close>

text \<open>
  \<open>plugins.js\<close>, \<open>hardware.js\<close> and \<open>links.js\<close> share a contract: \<open>create\<close> rejects a key in
  use and otherwise adds one entry, \<open>destroy\<close> removes the entry or answers false. The
  manager pairs each registry with a section of the stored data. The contract is the
  locale \<open>registry\<close>; its extension \<open>stored_registry\<close> adds the section; both are interpreted on the three
  modules.
\<close>

definition dmap :: "('a \<Rightarrow> 'b) \<Rightarrow> 'a dict \<Rightarrow> 'b dict" where
  "dmap f d = map (\<lambda>(k, x). (k, f x)) d"

lemma dmap_jset [simp]: "dmap f (jset k v d) = jset k (f v) (dmap f d)"
  by (induction d) (auto simp: dmap_def)

lemma dmap_jdel [simp]: "dmap f (jdel k d) = jdel k (dmap f d)"
  by (induction d) (auto simp: dmap_def)

lemma jget_dmap [simp]: "jget (dmap f d) k = map_option f (jget d k)"
  by (induction d) (auto simp: dmap_def)

lemma jkeys_dmap [simp]: "jkeys (dmap f d) = jkeys d"
  by (simp add: dmap_def case_prod_beta comp_def)

lemma dmap_Nil [simp]: "dmap f [] = []"
  by (simp add: dmap_def)

lemma map_snd_dmap: "map snd (dmap f d) = map (f \<circ> snd) d"
  by (simp add: dmap_def case_prod_beta comp_def)

text \<open>Entries stand under their own keys, each key once.\<close>

definition keyed :: "('x \<Rightarrow> string) \<Rightarrow> 'x dict \<Rightarrow> bool" where
  "keyed key d \<longleftrightarrow> distinct (jkeys d) \<and> (\<forall>(k, x) \<in> set d. key x = k)"

lemma set_jset_subset: "set (jset k v d) \<subseteq> insert (k, v) (set d)"
  by (induction d) auto

lemma set_jset_cases: "(a, b) \<in> set (jset k v d) \<Longrightarrow> (a, b) \<in> set d \<or> a = k \<and> b = v"
  using set_jset_subset by fastforce

lemma set_jdel_subset: "set (jdel k d) \<subseteq> set d"
  by (auto simp: AList.delete_eq)

lemma keyed_jset: "keyed key d \<Longrightarrow> key x = k \<Longrightarrow> keyed key (jset k x d)"
  using set_jset_subset[of k x d] by (auto simp: keyed_def distinct_update)

lemma keyed_jdel: "keyed key d \<Longrightarrow> keyed key (jdel k d)"
  using set_jdel_subset[of k d] by (auto simp: keyed_def distinct_delete)

lemma keyed_Nil [simp]: "keyed key []"
  by (simp add: keyed_def)

lemma keyed_jget: "keyed key d \<Longrightarrow> jget d k = Some x \<Longrightarrow> key x = k"
  by (auto simp: keyed_def dest: map_of_SomeD)

locale registry =
  fixes reg :: "'s \<Rightarrow> 'x dict"          \<comment> \<open>the running entries\<close>
    and rest :: "'s \<Rightarrow> 'o"             \<comment> \<open>what the operations leave alone\<close>
    and config :: "'x \<Rightarrow> 'g"           \<comment> \<open>the configuration an entry was made from\<close>
    and entry_id :: "'x \<Rightarrow> string"
    and key :: "'g \<Rightarrow> string"
    and create :: "'g \<Rightarrow> ('s, 'x) op"
    and destroy :: "string \<Rightarrow> ('s, bool) op"
    and duplicate :: js_error
  assumes create_duplicate: "jget (reg s) (key g) \<noteq> None \<Longrightarrow> create g s = (Inl duplicate, s)"
    and create_ok: "create g s = (Inr x, s') \<Longrightarrow>
        jget (reg s) (key g) = None \<and> config x = g \<and> entry_id x = key g
        \<and> reg s' = jset (key g) x (reg s) \<and> rest s' = rest s"
    and create_error: "create g s = (Inl e, s') \<Longrightarrow> reg s' = reg s \<and> rest s' = rest s"
    and destroy_true: "destroy k s = (Inr True, s') \<Longrightarrow>
        jget (reg s) k \<noteq> None \<and> reg s' = jdel k (reg s) \<and> rest s' = rest s"
    and destroy_false: "destroy k s = (Inr False, s') \<Longrightarrow> jget (reg s) k = None \<and> s' = s"
    and destroy_missing: "jget (reg s) k = None \<Longrightarrow> destroy k s = (Inr False, s)"
    and destroy_error: "destroy k s = (Inl e, s') \<Longrightarrow> reg s' = reg s \<and> rest s' = rest s"
begin

definition well_keyed :: "'s \<Rightarrow> bool" where
  "well_keyed s \<longleftrightarrow> keyed entry_id (reg s) \<and> keyed (key \<circ> config) (reg s)"

lemma well_keyed_create:
  assumes "well_keyed s" "create g s = (r, s')"
  shows "well_keyed s'"
proof (cases r)
  case (Inl e)
  with assms create_error[of g s e s'] show ?thesis by (simp add: well_keyed_def)
next
  case (Inr x)
  with assms create_ok[of g s x s'] show ?thesis
    by (simp add: well_keyed_def keyed_jset)
qed

lemma well_keyed_destroy:
  assumes "well_keyed s" "destroy k s = (r, s')"
  shows "well_keyed s'"
proof (cases r)
  case (Inl e)
  with assms destroy_error[of k s e s'] show ?thesis by (simp add: well_keyed_def)
next
  case (Inr b)
  with assms destroy_true[of k s s'] destroy_false[of k s s'] show ?thesis
    by (cases b) (auto simp: well_keyed_def intro: keyed_jdel)
qed

lemma rest_create: "create g s = (r, s') \<Longrightarrow> rest s' = rest s"
  by (cases r) (auto dest: create_ok create_error)

lemma rest_destroy: "destroy k s = (r, s') \<Longrightarrow> rest s' = rest s"
proof (cases r)
  case (Inr b)
  then show "destroy k s = (r, s') \<Longrightarrow> rest s' = rest s"
    by (cases b) (auto dest: destroy_true destroy_false)
qed (auto dest: destroy_error)

lemma keys_create:
  "create g s = (r, s') \<Longrightarrow> set (jkeys (reg s')) = (case r of Inr x \<Rightarrow> insert (key g) (set (jkeys (reg s)))
                                            | Inl e \<Rightarrow> set (jkeys (reg s)))"
proof (cases r)
  case (Inl e)
  then show "create g s = (r, s') \<Longrightarrow> ?thesis" using create_error[of g s e s'] by simp
next
  case (Inr x)
  then show "create g s = (r, s') \<Longrightarrow> ?thesis"
    using create_ok[of g s x s'] jd.keys_dset[of "key g" x "reg s"] by simp
qed

lemma destroy_after_create:
  assumes "create g s = (Inr x, s1)" "destroy (key g) s1 = (Inr b, s2)"
  shows "b \<and> jget (reg s2) = jget (reg s)"
proof (cases b)
  case True
  with assms destroy_true[of "key g" s1 s2] create_ok[OF assms(1)] show ?thesis by auto
next
  case False
  with assms destroy_false[of "key g" s1 s2] create_ok[OF assms(1)] show ?thesis by auto
qed

end

text \<open>
  A registry with its section of the data. \<open>add\<close> and \<open>remove\<close> are the manager's operations
  without the guards that precede them; \<open>saved\<close> reads the section of the data, both in memory and
  in the file.
\<close>

locale stored_registry = registry reg rest config entry_id key create destroy duplicate
  for reg :: "'s \<Rightarrow> 'x dict" and rest :: "'s \<Rightarrow> 'o" and config :: "'x \<Rightarrow> 'g"
    and entry_id :: "'x \<Rightarrow> string" and key :: "'g \<Rightarrow> string"
    and create :: "'g \<Rightarrow> ('s, 'x) op" and destroy :: "string \<Rightarrow> ('s, bool) op"
    and duplicate :: js_error +
  fixes saved :: "'s \<Rightarrow> 'g dict option"
    and store :: "string \<Rightarrow> 'g \<Rightarrow> ('s, unit) op"
    and unstore :: "string \<Rightarrow> ('s, unit) op"
    and missing :: js_error
    and others :: "'s \<Rightarrow> 'p"           \<comment> \<open>the other registries and sections\<close>
  assumes saved_rest: "rest s' = rest s \<Longrightarrow> saved s' = saved s \<and> others s' = others s"
    and store: "saved s = Some d \<Longrightarrow> \<exists>s'. store k g s = (Inr (), s') \<and> saved s' = Some (jset k g d)
        \<and> reg s' = reg s \<and> others s' = others s"
    and unstore: "saved s = Some d \<Longrightarrow> \<exists>s'. unstore k s = (Inr (), s') \<and> saved s' = Some (jdel k d)
        \<and> reg s' = reg s \<and> others s' = others s"
begin

definition add :: "'g \<Rightarrow> ('s, string) op" where
  "add g = bindE (create g) (\<lambda>x. seqE (store (entry_id x) g) (ret (entry_id x)))"

definition remove :: "string \<Rightarrow> ('s, unit) op" where
  "remove k = bindE (destroy k) (\<lambda>ok. if \<not> ok then throw missing else unstore k)"

definition synced :: "'s \<Rightarrow> bool" where
  "synced s \<longleftrightarrow> saved s = Some (dmap config (reg s))"

lemma synced_rest: "rest s' = rest s \<Longrightarrow> reg s' = reg s \<Longrightarrow> synced s \<Longrightarrow> synced s'"
  using saved_rest[of s' s] by (simp add: synced_def)

lemma add_cases:
  assumes "synced s"
  obtains e s' where "create g s = (Inl e, s')" "add g s = (Inl e, s')" "synced s'" "reg s' = reg s"
      "others s' = others s"
  | x s1 s' where "create g s = (Inr x, s1)" "store (key g) g s1 = (Inr (), s')"
      "add g s = (Inr (key g), s')" "synced s'" "reg s' = jset (key g) x (reg s)"
      "others s' = others s"
proof (cases "create g s")
  case (Pair r s1)
  show thesis
  proof (cases r)
    case (Inl e)
    with Pair have c: "create g s = (Inl e, s1)" by simp
    then have "reg s1 = reg s" "rest s1 = rest s" using create_error by blast+
    then have "synced s1" using assms by (intro synced_rest[of s1 s])
    moreover have "others s1 = others s" using \<open>rest s1 = rest s\<close> saved_rest by blast
    ultimately show thesis using c \<open>reg s1 = reg s\<close>
      by (intro that(1)[of e s1]) (simp_all add: add_def op_defs)
  next
    case (Inr x)
    with Pair have x: "config x = g" "entry_id x = key g" "reg s1 = jset (key g) x (reg s)" "rest s1 = rest s"
      using create_ok by blast+
    then have "saved s1 = Some (dmap config (reg s))" "others s1 = others s"
      using assms saved_rest[of s1 s] by (simp_all add: synced_def)
    then obtain s' where s': "store (key g) g s1 = (Inr (), s')"
        "saved s' = Some (jset (key g) g (dmap config (reg s)))" "reg s' = reg s1"
        "others s' = others s"
      using store[of s1 "dmap config (reg s)" "key g" g] by auto
    have "synced s'" using s' x by (simp add: synced_def)
    moreover have "add g s = (Inr (key g), s')"
      using Pair Inr x(2) s'(1) by (simp add: add_def op_defs)
    ultimately show thesis
      using Pair Inr s' x(3) by (intro that(2)[of x s1 s']) simp_all
  qed
qed

lemma synced_add: "synced s \<Longrightarrow> add g s = (r, s') \<Longrightarrow> synced s'"
  by (rule add_cases[of s g]) simp_all

lemma remove_cases:
  assumes "synced s"
  obtains e s' where "destroy k s = (Inl e, s')" "remove k s = (Inl e, s')" "synced s'" "reg s' = reg s"
      "others s' = others s"
  | "jget (reg s) k = None" "remove k s = (Inl missing, s)"
  | s1 s' where "destroy k s = (Inr True, s1)" "unstore k s1 = (Inr (), s')"
      "remove k s = (Inr (), s')" "synced s'" "jget (reg s) k \<noteq> None" "reg s' = jdel k (reg s)"
      "others s' = others s"
proof (cases "destroy k s")
  case (Pair r s1)
  show thesis
  proof (cases r)
    case (Inl e)
    with Pair have d: "destroy k s = (Inl e, s1)" by simp
    then have "reg s1 = reg s" "rest s1 = rest s" using destroy_error by blast+
    then have "synced s1" using assms by (intro synced_rest[of s1 s])
    moreover have "others s1 = others s" using \<open>rest s1 = rest s\<close> saved_rest by blast
    ultimately show thesis using d \<open>reg s1 = reg s\<close>
      by (intro that(1)[of e s1]) (simp_all add: remove_def op_defs)
  next
    case (Inr b)
    show thesis
    proof (cases b)
      case False
      with Pair Inr have d: "destroy k s = (Inr False, s1)" by simp
      then have "jget (reg s) k = None" "s1 = s" using destroy_false by blast+
      with d show thesis by (intro that(2)) (simp_all add: remove_def op_defs)
    next
      case True
      with Pair Inr have d: "destroy k s = (Inr True, s1)" by simp
      then have x: "reg s1 = jdel k (reg s)" "rest s1 = rest s" "jget (reg s) k \<noteq> None"
        using destroy_true by blast+
      then have "saved s1 = Some (dmap config (reg s))" "others s1 = others s"
        using assms saved_rest[of s1 s] by (simp_all add: synced_def)
      then obtain s' where s': "unstore k s1 = (Inr (), s')"
          "saved s' = Some (jdel k (dmap config (reg s)))" "reg s' = reg s1" "others s' = others s"
        using unstore[of s1 "dmap config (reg s)" k] by auto
      have "synced s'" using s' x(1) by (simp add: synced_def)
      moreover have "remove k s = (Inr (), s')"
        using d s'(1) by (simp add: remove_def op_defs)
      ultimately show thesis
        using d s' x by (intro that(3)[of s1 s']) simp_all
    qed
  qed
qed

lemma synced_remove: "synced s \<Longrightarrow> remove k s = (r, s') \<Longrightarrow> synced s'"
  by (rule remove_cases[of s k]) simp_all

lemma others_add: "synced s \<Longrightarrow> add g s = (r, s') \<Longrightarrow> others s' = others s"
  by (rule add_cases[of s g]) simp_all

lemma others_remove: "synced s \<Longrightarrow> remove k s = (r, s') \<Longrightarrow> others s' = others s"
  by (rule remove_cases[of s k]) simp_all

text \<open>Creation, restart and removal as seen through the data: the abstract view of the manager.\<close>

lemma saved_add:
  assumes "synced s" "add g s = (Inr i, s')"
  shows "saved s' = map_option (jset (key g) g) (saved s)"
proof (rule add_cases[OF assms(1), of g])
  fix x s1 s''
  assume c: "create g s = (Inr x, s1)" "add g s = (Inr (key g), s'')" "synced s''"
    "reg s'' = jset (key g) x (reg s)"
  then have "s'' = s'" "config x = g" using assms(2) create_ok[OF c(1)] by auto
  with c assms(1) show ?thesis by (simp add: synced_def)
qed (use assms(2) in simp)

lemma saved_remove:
  assumes "synced s" "remove k s = (Inr u, s')"
  shows "saved s' = map_option (jdel k) (saved s)"
proof (rule remove_cases[OF assms(1), of k])
  fix s1 s''
  assume c: "remove k s = (Inr (), s'')" "synced s''" "reg s'' = jdel k (reg s)"
  then have "s'' = s'" using assms(2) by simp
  with c assms(1) show ?thesis by (simp add: synced_def)
qed (use assms(2) in simp_all)

lemma add_twice:
  assumes "synced s" "add g s = (Inr i, s1)" "key g' = key g"
  shows "add g' s1 = (Inl duplicate, s1)"
proof (rule add_cases[OF assms(1), of g])
  fix x s2 s''
  assume c: "add g s = (Inr (key g), s'')" "reg s'' = jset (key g) x (reg s)"
  then have "s'' = s1" using assms(2) by simp
  with c assms(3) have "create g' s1 = (Inl duplicate, s1)" by (intro create_duplicate) simp
  then show ?thesis by (simp add: add_def op_defs)
qed (use assms(2) in simp)

end

end
