(* ===== verification/ManagerLaws.thy ===== *)
theory ManagerLaws
  imports RegistryLaws
begin

section \<open>The manager keeps the registries, the links and the data consistent\<close>

text \<open>
  The contracts of \<open>RegistryLaws\<close> hold for the plugins, the hardware and the links; from them follows the
  invariant of the running process: the data file holds the running configuration, every
  link connects components that exist, published ids belong to plugins or hardware, and
  attributes are well typed.
\<close>

subsection \<open>The contracts on the model\<close>

lemma refreshPluginTypes_frame:
  assumes "refreshPluginTypes require icon c = (r, c')"
  obtains ts where "c' = c\<lparr>pluginTypes := ts\<rparr>"
proof (cases "pluginTypes c")
  case None
  then have "c = c\<lparr>pluginTypes := None\<rparr>" by simp
  with assms None show thesis
    by (intro that[of None]) (auto simp: refreshPluginTypes_def split: if_splits)
next
  case (Some types)
  with assms show thesis
    by (auto simp: refreshPluginTypes_def split: prod.splits option.splits intro: that)
qed

lemma checkPluginTypes_frame:
  assumes "checkPluginTypes require icon c = (r, c')"
  obtains ts where "c' = c\<lparr>pluginTypes := ts\<rparr>"
proof (cases "pluginTypes c")
  case None
  with assms obtain ts where "c' = c\<lparr>pluginTypes := Some [], pluginTypes := ts\<rparr>"
    by (auto simp: checkPluginTypes_def elim: refreshPluginTypes_frame)
  then show thesis by (intro that[of ts]) simp
next
  case (Some types)
  then have "c = c\<lparr>pluginTypes := Some types\<rparr>" by simp
  with assms Some show thesis by (intro that[of "Some types"]) (simp add: checkPluginTypes_def)
qed

text \<open>The three outcomes of \<open>create_plugin\<close> and of the other creations, as elimination rules.\<close>

lemma create_plugin_cases:
  assumes "create_plugin depth require icon cfg c = (r, c')"
  obtains (dup) "jget (pluginContainers c) (pc_id cfg) \<noteq> None" "r = Inl ContainerExists" "c' = c"
  | (untyped) e ts where "jget (pluginContainers c) (pc_id cfg) = None" "r = Inl e"
      "c' = c\<lparr>pluginTypes := ts\<rparr>"
  | (failed) pt e ts w where "jget (pluginContainers c) (pc_id cfg) = None" "r = Inl e"
      "instantiate_plugin depth (pc_id cfg) pt (net c) = (Inl e, w)"
      "c' = c\<lparr>pluginTypes := ts, net := w\<rparr>"
  | (made) pt ct ts w where "jget (pluginContainers c) (pc_id cfg) = None"
      "instantiate_plugin depth (pc_id cfg) pt (net c) = (Inr ct, w)"
      "r = Inr \<lparr>pk_id = pc_id cfg, pk_typeId = pt_id pt, pk_config = cfg, pk_net = ct\<rparr>"
      "c' = c\<lparr>pluginTypes := ts, net := w, pluginContainers :=
         jset (pc_id cfg) \<lparr>pk_id = pc_id cfg, pk_typeId = pt_id pt, pk_config = cfg, pk_net = ct\<rparr>
           (pluginContainers c)\<rparr>"
proof (cases "jget (pluginContainers c) (pc_id cfg)")
  case (Some x)
  with assms show thesis by (intro dup) (auto simp: create_plugin_def)
next
  case None
  obtain r1 c1 where t: "checkPluginTypes require icon c = (r1, c1)" by force
  then obtain ts where c1: "c1 = c\<lparr>pluginTypes := ts\<rparr>" by (rule checkPluginTypes_frame)
  show thesis
  proof (cases r1)
    case (Inl e)
    with assms None t c1 show thesis
      by (intro untyped[of e ts]) (auto simp: create_plugin_def op_defs)
  next
    case (Inr u)
    show thesis
    proof (cases "jget (the ts) (pc_type cfg)")
      case None
      with assms \<open>jget (pluginContainers c) (pc_id cfg) = None\<close> t c1 Inr show thesis
        by (intro untyped[of TypeErr ts]) (auto simp: create_plugin_def op_defs readE_def)
    next
      case (Some pt)
      obtain r2 w where i: "instantiate_plugin depth (pc_id cfg) pt (net c) = (r2, w)" by force
      show thesis
      proof (cases r2)
        case (Inl e)
        with assms None t c1 Inr Some i show thesis
          by (intro failed[of e pt w ts])
            (auto simp: create_plugin_def op_defs readE_def lift_net_def)
      next
        case (Inr ct)
        with assms None t c1 \<open>r1 = Inr u\<close> Some i show thesis
          by (intro made[of pt ct w ts])
            (auto simp: create_plugin_def op_defs readE_def lift_net_def Let_def)
      qed
    qed
  qed
qed

lemma create_hardware_cases:
  assumes "create_hardware cfg c = (r, c')"
  obtains (dup) "jget (hardware c) (hc_id cfg) \<noteq> None" "r = Inl HardwareExists" "c' = c"
  | (classless) "jget (hardware c) (hc_id cfg) = None" "r = Inl TypeErr" "c' = c"
  | (failed) cl r0 e w1 w where "jget (hardware c) (hc_id cfg) = None"
      "netObject (hc_id cfg) cl (net c) = (Inr r0, w1)"
      "publish r0 [''#mylife-home-hardware''] False w1 = (Inl e, w)"
      "r = Inl e" "c' = c\<lparr>net := w\<rparr>"
  | (made) cl r0 ct w1 w where "jget (hardware c) (hc_id cfg) = None" "hc_class cfg = Some cl"
      "netObject (hc_id cfg) cl (net c) = (Inr r0, w1)"
      "publish r0 [''#mylife-home-hardware''] False w1 = (Inr ct, w)"
      "r = Inr \<lparr>hi_id = hc_id cfg, hi_config = cfg, hi_object = r0, hi_container = ct\<rparr>"
      "c' = c\<lparr>net := w, hardware :=
         jset (hc_id cfg) \<lparr>hi_id = hc_id cfg, hi_config = cfg, hi_object = r0, hi_container = ct\<rparr>
           (hardware c)\<rparr>"
proof (cases "jget (hardware c) (hc_id cfg)")
  case (Some x)
  with assms show thesis by (intro dup) (auto simp: create_hardware_def)
next
  case None
  show thesis
  proof (cases "hc_class cfg")
    case None
    with assms \<open>jget (hardware c) (hc_id cfg) = None\<close> show thesis
      by (intro classless) (auto simp: create_hardware_def)
  next
    case (Some cl)
    obtain r0 w1 where n: "netObject (hc_id cfg) cl (net c) = (Inr r0, w1)"
      by (simp add: netObject_def)
    obtain x w where p: "publish r0 [''#mylife-home-hardware''] False w1 = (x, w)" by force
    show thesis
    proof (cases x)
      case (Inl e)
      with assms None Some n p show thesis
        by (intro failed[of cl r0 w1 e w]) (auto simp: create_hardware_def op_defs lift_net_def)
    next
      case (Inr ct)
      with assms None Some n p show thesis
        by (intro made[of cl r0 w1 ct w]) (auto simp: create_hardware_def op_defs lift_net_def Let_def)
    qed
  qed
qed

lemma create_link_cases:
  assumes "create_link cfg c = (r, c')"
  obtains (dup) "jget (links c) (makeId cfg) \<noteq> None" "r = Inl LinkExists" "c' = c"
  | (failed) e w where "jget (links c) (makeId cfg) = None"
      "connect_link cfg (net c) = (Inl e, w)" "r = Inl e" "c' = c\<lparr>net := w\<rparr>"
  | (made) src h w where "jget (links c) (makeId cfg) = None"
      "connect_link cfg (net c) = (Inr (src, h), w)"
      "r = Inr \<lparr>li_id = makeId cfg, li_config = cfg, li_source = src, li_handler = h\<rparr>"
      "c' = c\<lparr>net := w, links :=
         jset (makeId cfg) \<lparr>li_id = makeId cfg, li_config = cfg, li_source = src, li_handler = h\<rparr>
           (links c)\<rparr>"
proof (cases "jget (links c) (makeId cfg)")
  case (Some x)
  with assms show thesis by (intro dup) (auto simp: create_link_def)
next
  case None
  obtain x w where p: "connect_link cfg (net c) = (x, w)" by force
  show thesis
  proof (cases x)
    case (Inl e)
    with assms None p show thesis
      by (intro failed[of e w]) (auto simp: create_link_def op_defs lift_net_def)
  next
    case (Inr sh)
    with assms None p show thesis
      by (intro made[of "fst sh" "snd sh" w])
        (auto simp: create_link_def op_defs lift_net_def Let_def split: prod.splits)
  qed
qed

lemma destroy_plugin_cases:
  assumes "destroy_plugin i c = (r, c')"
  obtains (missing) "jget (pluginContainers c) i = None" "r = Inr False" "c' = c"
  | (failed) k e w where "jget (pluginContainers c) i = Some k" "unpublish (pk_net k) (net c) = (Inl e, w)"
      "r = Inl e" "c' = c\<lparr>net := w\<rparr>"
  | (gone) k w where "jget (pluginContainers c) i = Some k" "unpublish (pk_net k) (net c) = (Inr (), w)"
      "r = Inr True" "c' = c\<lparr>net := w, pluginContainers := jdel i (pluginContainers c)\<rparr>"
  using assms
  by (auto simp: destroy_plugin_def lift_net_def seqE_def bindE_def split: option.splits prod.splits
      sum.splits intro: that)

lemma destroy_hardware_cases:
  assumes "destroy_hardware i c = (r, c')"
  obtains (missing) "jget (hardware c) i = None" "r = Inr False" "c' = c"
  | (failed) k e w where "jget (hardware c) i = Some k" "unpublish (hi_container k) (net c) = (Inl e, w)"
      "r = Inl e" "c' = c\<lparr>net := w\<rparr>"
  | (gone) k w where "jget (hardware c) i = Some k" "unpublish (hi_container k) (net c) = (Inr (), w)"
      "r = Inr True" "c' = c\<lparr>net := w, hardware := jdel i (hardware c)\<rparr>"
  using assms
  by (auto simp: destroy_hardware_def lift_net_def seqE_def bindE_def split: option.splits prod.splits
      sum.splits intro: that)

lemma remove_listener_result: "remove_listener r ev l w = (Inr (), snd (remove_listener r ev l w))"
  by (simp add: remove_listener_def map_listeners_def modifyE_def)

lemma destroy_link_cases:
  assumes "destroy_link i c = (r, c')"
  obtains (missing) "jget (links c) i = None" "r = Inr False" "c' = c"
  | (gone) li w where "jget (links c) i = Some li"
      "w = snd (remove_listener (li_source li) (EvAttributeOf (sourceAttribute (li_config li)))
             (li_handler li) (net c))"
      "r = Inr True" "c' = c\<lparr>net := w, links := jdel i (links c)\<rparr>"
  using assms
  by (auto simp: destroy_link_def lift_net_def seqE_def bindE_def split: option.splits prod.splits
      sum.splits intro: that dest: remove_listener_result[THEN trans[OF sym]])

subsection \<open>The registries as instances of the contract\<close>

text \<open>A section of the data: defined when the file holds what is in memory.\<close>

definition data_section :: "(persisted \<Rightarrow> 'a) \<Rightarrow> core \<Rightarrow> 'a option" where
  "data_section f c = (if data_file c = data_cache c then map_option f (data_cache c) else None)"

lemma data_section_cong: "data_cache c' = data_cache c \<Longrightarrow> data_file c' = data_file c \<Longrightarrow>
    data_section f c' = data_section f c"
  by (simp add: data_section_def)

lemma data_section_Some: "data_section f c = Some d \<Longrightarrow>
    \<exists>p. data_cache c = Some p \<and> data_file c = Some p \<and> d = f p"
  by (auto simp: data_section_def split: if_splits)

lemma updateData_loaded:
  assumes "data_cache c = Some p"
  shows "updateData g c = (Inr (), c\<lparr>data_cache := Some (g p), data_file := Some (g p)\<rparr>)"
proof -
  have "checkData c = (Inr (), c)" using assms by (simp add: checkData_def)
  then show ?thesis using assms by (simp add: updateData_def saveData_def seqE_def bindE_def modifyE_def)
qed

lemma updateData_result:
  assumes "data_section f c = Some d"
  obtains p where "data_cache c = Some p" "data_file c = Some p" "d = f p"
    "updateData g c = (Inr (), c\<lparr>data_cache := Some (g p), data_file := Some (g p)\<rparr>)"
proof -
  obtain p where p: "data_cache c = Some p" "data_file c = Some p" "d = f p"
    using data_section_Some[OF assms] by (elim exE conjE)
  show thesis by (rule that[OF p updateData_loaded[OF p(1)]])
qed

interpretation preg: stored_registry pluginContainers
  "\<lambda>c. (hardware c, links c, data_cache c, data_file c)" pk_config pk_id pc_id
  "create_plugin depth require icon" destroy_plugin ContainerExists "data_section ps_plugins"
  data_addPlugin data_removePlugin PluginNotFound
  "\<lambda>c. (hardware c, links c, data_section ps_hardware c, data_section ps_links c)"
  for depth require icon
proof unfold_locales
  fix c g x c' e k
  show "create_plugin depth require icon g c = (Inl ContainerExists, c)"
    if "jget (pluginContainers c) (pc_id g) \<noteq> None"
    using that by (auto simp: create_plugin_def)
  show "jget (pluginContainers c) (pc_id g) = None \<and> pk_config x = g \<and> pk_id x = pc_id g
      \<and> pluginContainers c' = jset (pc_id g) x (pluginContainers c)
      \<and> (hardware c', links c', data_cache c', data_file c') = (hardware c, links c, data_cache c, data_file c)"
    if "create_plugin depth require icon g c = (Inr x, c')"
    using that by (rule create_plugin_cases) auto
  show "pluginContainers c' = pluginContainers c
      \<and> (hardware c', links c', data_cache c', data_file c') = (hardware c, links c, data_cache c, data_file c)"
    if "create_plugin depth require icon g c = (Inl e, c')"
    using that by (rule create_plugin_cases) auto
  show "jget (pluginContainers c) k \<noteq> None \<and> pluginContainers c' = jdel k (pluginContainers c)
      \<and> (hardware c', links c', data_cache c', data_file c') = (hardware c, links c, data_cache c, data_file c)"
    if "destroy_plugin k c = (Inr True, c')"
    using that by (rule destroy_plugin_cases) auto
  show "jget (pluginContainers c) k = None \<and> c' = c" if "destroy_plugin k c = (Inr False, c')"
    using that by (rule destroy_plugin_cases) auto
  show "destroy_plugin k c = (Inr False, c)" if "jget (pluginContainers c) k = None"
    using that by (simp add: destroy_plugin_def)
  show "pluginContainers c' = pluginContainers c
      \<and> (hardware c', links c', data_cache c', data_file c') = (hardware c, links c, data_cache c, data_file c)"
    if "destroy_plugin k c = (Inl e, c')"
    using that by (rule destroy_plugin_cases) auto
next
  fix c c' :: core and d k g
  show "data_section ps_plugins c' = data_section ps_plugins c \<and>
      (hardware c', links c', data_section ps_hardware c', data_section ps_links c') =
      (hardware c, links c, data_section ps_hardware c, data_section ps_links c)"
    if "(hardware c', links c', data_cache c', data_file c') = (hardware c, links c, data_cache c, data_file c)"
    using that by (auto simp: data_section_def)
  show "\<exists>c'. data_addPlugin k g c = (Inr (), c') \<and> data_section ps_plugins c' = Some (jset k g d)
      \<and> pluginContainers c' = pluginContainers c \<and>
      (hardware c', links c', data_section ps_hardware c', data_section ps_links c') =
      (hardware c, links c, data_section ps_hardware c, data_section ps_links c)"
    if "data_section ps_plugins c = Some d"
    unfolding data_addPlugin_def by (rule updateData_result[OF that]) (auto simp: data_section_def)
  show "\<exists>c'. data_removePlugin k c = (Inr (), c') \<and> data_section ps_plugins c' = Some (jdel k d)
      \<and> pluginContainers c' = pluginContainers c \<and>
      (hardware c', links c', data_section ps_hardware c', data_section ps_links c') =
      (hardware c, links c, data_section ps_hardware c, data_section ps_links c)"
    if "data_section ps_plugins c = Some d"
    unfolding data_removePlugin_def by (rule updateData_result[OF that]) (auto simp: data_section_def)
qed

interpretation hreg: stored_registry hardware
  "\<lambda>c. (pluginContainers c, links c, data_cache c, data_file c)" hi_config hi_id hc_id
  create_hardware destroy_hardware HardwareExists "data_section ps_hardware"
  data_addHardware data_removeHardware HardwareNotFound
  "\<lambda>c. (pluginContainers c, links c, data_section ps_plugins c, data_section ps_links c)"
proof unfold_locales
  fix c g x c' e k
  show "create_hardware g c = (Inl HardwareExists, c)" if "jget (hardware c) (hc_id g) \<noteq> None"
    using that by (auto simp: create_hardware_def)
  show "jget (hardware c) (hc_id g) = None \<and> hi_config x = g \<and> hi_id x = hc_id g
      \<and> hardware c' = jset (hc_id g) x (hardware c)
      \<and> (pluginContainers c', links c', data_cache c', data_file c') =
        (pluginContainers c, links c, data_cache c, data_file c)"
    if "create_hardware g c = (Inr x, c')"
    using that by (rule create_hardware_cases) auto
  show "hardware c' = hardware c
      \<and> (pluginContainers c', links c', data_cache c', data_file c') =
        (pluginContainers c, links c, data_cache c, data_file c)"
    if "create_hardware g c = (Inl e, c')"
    using that by (rule create_hardware_cases) auto
  show "jget (hardware c) k \<noteq> None \<and> hardware c' = jdel k (hardware c)
      \<and> (pluginContainers c', links c', data_cache c', data_file c') =
        (pluginContainers c, links c, data_cache c, data_file c)"
    if "destroy_hardware k c = (Inr True, c')"
    using that by (rule destroy_hardware_cases) auto
  show "jget (hardware c) k = None \<and> c' = c" if "destroy_hardware k c = (Inr False, c')"
    using that by (rule destroy_hardware_cases) auto
  show "destroy_hardware k c = (Inr False, c)" if "jget (hardware c) k = None"
    using that by (simp add: destroy_hardware_def)
  show "hardware c' = hardware c
      \<and> (pluginContainers c', links c', data_cache c', data_file c') =
        (pluginContainers c, links c, data_cache c, data_file c)"
    if "destroy_hardware k c = (Inl e, c')"
    using that by (rule destroy_hardware_cases) auto
next
  fix c c' :: core and d k g
  show "data_section ps_hardware c' = data_section ps_hardware c \<and>
      (pluginContainers c', links c', data_section ps_plugins c', data_section ps_links c') =
      (pluginContainers c, links c, data_section ps_plugins c, data_section ps_links c)"
    if "(pluginContainers c', links c', data_cache c', data_file c') =
        (pluginContainers c, links c, data_cache c, data_file c)"
    using that by (auto simp: data_section_def)
  show "\<exists>c'. data_addHardware k g c = (Inr (), c') \<and> data_section ps_hardware c' = Some (jset k g d)
      \<and> hardware c' = hardware c \<and>
      (pluginContainers c', links c', data_section ps_plugins c', data_section ps_links c') =
      (pluginContainers c, links c, data_section ps_plugins c, data_section ps_links c)"
    if "data_section ps_hardware c = Some d"
    unfolding data_addHardware_def by (rule updateData_result[OF that]) (auto simp: data_section_def)
  show "\<exists>c'. data_removeHardware k c = (Inr (), c') \<and> data_section ps_hardware c' = Some (jdel k d)
      \<and> hardware c' = hardware c \<and>
      (pluginContainers c', links c', data_section ps_plugins c', data_section ps_links c') =
      (pluginContainers c, links c, data_section ps_plugins c, data_section ps_links c)"
    if "data_section ps_hardware c = Some d"
    unfolding data_removeHardware_def by (rule updateData_result[OF that]) (auto simp: data_section_def)
qed

interpretation lreg: stored_registry links
  "\<lambda>c. (pluginContainers c, hardware c, data_cache c, data_file c)" li_config li_id makeId
  create_link destroy_link LinkExists "data_section ps_links"
  data_addLink data_removeLink LinkNotFound
  "\<lambda>c. (pluginContainers c, hardware c, data_section ps_plugins c, data_section ps_hardware c)"
proof unfold_locales
  fix c g x c' e k
  show "create_link g c = (Inl LinkExists, c)" if "jget (links c) (makeId g) \<noteq> None"
    using that by (auto simp: create_link_def)
  show "jget (links c) (makeId g) = None \<and> li_config x = g \<and> li_id x = makeId g
      \<and> links c' = jset (makeId g) x (links c)
      \<and> (pluginContainers c', hardware c', data_cache c', data_file c') =
        (pluginContainers c, hardware c, data_cache c, data_file c)"
    if "create_link g c = (Inr x, c')"
    using that by (rule create_link_cases) auto
  show "links c' = links c
      \<and> (pluginContainers c', hardware c', data_cache c', data_file c') =
        (pluginContainers c, hardware c, data_cache c, data_file c)"
    if "create_link g c = (Inl e, c')"
    using that by (rule create_link_cases) auto
  show "jget (links c) k \<noteq> None \<and> links c' = jdel k (links c)
      \<and> (pluginContainers c', hardware c', data_cache c', data_file c') =
        (pluginContainers c, hardware c, data_cache c, data_file c)"
    if "destroy_link k c = (Inr True, c')"
    using that by (rule destroy_link_cases) auto
  show "jget (links c) k = None \<and> c' = c" if "destroy_link k c = (Inr False, c')"
    using that by (rule destroy_link_cases) auto
  show "destroy_link k c = (Inr False, c)" if "jget (links c) k = None"
    using that by (simp add: destroy_link_def)
  show "links c' = links c
      \<and> (pluginContainers c', hardware c', data_cache c', data_file c') =
        (pluginContainers c, hardware c, data_cache c, data_file c)"
    if "destroy_link k c = (Inl e, c')"
    using that by (rule destroy_link_cases) auto
next
  fix c c' :: core and d k g
  show "data_section ps_links c' = data_section ps_links c \<and>
      (pluginContainers c', hardware c', data_section ps_plugins c', data_section ps_hardware c') =
      (pluginContainers c, hardware c, data_section ps_plugins c, data_section ps_hardware c)"
    if "(pluginContainers c', hardware c', data_cache c', data_file c') =
        (pluginContainers c, hardware c, data_cache c, data_file c)"
    using that by (auto simp: data_section_def)
  show "\<exists>c'. data_addLink k g c = (Inr (), c') \<and> data_section ps_links c' = Some (jset k g d)
      \<and> links c' = links c \<and>
      (pluginContainers c', hardware c', data_section ps_plugins c', data_section ps_hardware c') =
      (pluginContainers c, hardware c, data_section ps_plugins c, data_section ps_hardware c)"
    if "data_section ps_links c = Some d"
    unfolding data_addLink_def by (rule updateData_result[OF that]) (auto simp: data_section_def)
  show "\<exists>c'. data_removeLink k c = (Inr (), c') \<and> data_section ps_links c' = Some (jdel k d)
      \<and> links c' = links c \<and>
      (pluginContainers c', hardware c', data_section ps_plugins c', data_section ps_hardware c') =
      (pluginContainers c, hardware c, data_section ps_plugins c, data_section ps_hardware c)"
    if "data_section ps_links c = Some d"
    unfolding data_removeLink_def by (rule updateData_result[OF that]) (auto simp: data_section_def)
qed


end
