(* ===== verification/CoreInvariant.thy ===== *)
theory CoreInvariant
  imports ManagerLaws
begin

section \<open>The invariant of the running core process\<close>

text \<open>
  The state predicate that every input of the process keeps: registries are keyed by their
  ids, links connect existing components, what is published belongs to a plugin or a hardware item,
  each of these owns its object, attributes are well typed, and the data in memory and in the file
  is the running configuration.
\<close>

definition component_ids :: "core \<Rightarrow> string set" where
  "component_ids c = set (jkeys (pluginContainers c)) \<union> set (jkeys (hardware c))"

definition links_connected :: "core \<Rightarrow> bool" where
  "links_connected c \<longleftrightarrow> (\<forall>(k, li) \<in> set (links c).
     sourceComponent (li_config li) \<in> component_ids c \<and>
     destinationComponent (li_config li) \<in> component_ids c)"

definition published_owned :: "core \<Rightarrow> bool" where
  "published_owned c \<longleftrightarrow> set (jkeys (repository (net c))) \<subseteq> component_ids c"

definition objects_owned :: "core \<Rightarrow> bool" where
  "objects_owned c \<longleftrightarrow>
     (\<forall>(k, x) \<in> set (pluginContainers c). has_id (net c) (ct_object (pk_net x)) k) \<and>
     (\<forall>(k, x) \<in> set (hardware c). has_id (net c) (ct_object (hi_container x)) k)"

definition running_inv :: "core \<Rightarrow> bool" where
  "running_inv c \<longleftrightarrow>
     preg.well_keyed c \<and> hreg.well_keyed c \<and> lreg.well_keyed c \<and>
     links_connected c \<and> published_owned c \<and> objects_owned c \<and> world_typed (net c)"

definition data_synced :: "core \<Rightarrow> bool" where
  "data_synced c \<longleftrightarrow> (\<exists>d. data_cache c = Some d \<and> data_file c = Some d \<and>
     ps_plugins d = dmap pk_config (pluginContainers c) \<and>
     ps_hardware d = dmap hi_config (hardware c) \<and>
     ps_links d = dmap li_config (links c))"

definition core_inv :: "core \<Rightarrow> bool" where
  "core_inv c \<longleftrightarrow> running_inv c \<and> data_synced c"

lemma data_synced_sections: "data_synced c \<longleftrightarrow> preg.synced c \<and> hreg.synced c \<and> lreg.synced c"
  unfolding data_synced_def preg.synced_def hreg.synced_def lreg.synced_def
  by (auto simp: data_section_def split: if_splits)

subsection \<open>Steps of the network layer\<close>

definition world_step :: "world \<Rightarrow> world \<Rightarrow> bool" where
  "world_step w w' \<longleftrightarrow> ids_kept w w' \<and> repository w' = repository w \<and> (world_typed w \<longrightarrow> world_typed w')"

lemma world_stepI:
  assumes "along ids_kept m" "along same_repository m" "along (keeps world_typed) m" "m w = (r, w')"
  shows "world_step w w'"
  using assms along_result[OF assms(1,4)] along_result[OF assms(2,4)] along_result[OF assms(3,4)]
  by (simp add: world_step_def same_repository_def keeps_def)

lemma running_inv_net:
  assumes "running_inv c" "world_step (net c) (net c')" "pluginContainers c' = pluginContainers c"
    "hardware c' = hardware c" "links c' = links c"
  shows "running_inv c'"
proof -
  have "objects_owned c'"
    using assms by (auto simp: running_inv_def objects_owned_def world_step_def dest: ids_keptD)
  with assms show ?thesis
    by (auto simp: running_inv_def preg.well_keyed_def hreg.well_keyed_def lreg.well_keyed_def
        links_connected_def published_owned_def component_ids_def world_step_def)
qed

lemma running_inv_world: "running_inv c \<Longrightarrow> world_step (net c) w \<Longrightarrow> running_inv (c\<lparr>net := w\<rparr>)"
  by (erule running_inv_net) simp_all

lemma running_inv_cong:
  assumes "running_inv c" "net c' = net c" "pluginContainers c' = pluginContainers c"
    "hardware c' = hardware c" "links c' = links c"
  shows "running_inv c'"
  using assms by (intro running_inv_net[of c c']) (auto simp: world_step_def ids_kept_def)

subsection \<open>Creation\<close>

lemma component_ids_insert:
  "component_ids (c\<lparr>net := w, pluginTypes := ts, pluginContainers := jset i k (pluginContainers c)\<rparr>)
     = insert i (component_ids c)"
  "component_ids (c\<lparr>net := w, hardware := jset i h (hardware c)\<rparr>) = insert i (component_ids c)"
  using jd.keys_dset[of i k "pluginContainers c"] jd.keys_dset[of i h "hardware c"]
  by (auto simp: component_ids_def)

lemma plugin_create_along:
  "along ids_kept (plugin_create depth k r)" "along same_repository (plugin_create depth k r)"
  "along (keeps world_typed) (plugin_create depth k r)"
  unfolding plugin_create_def
  by (intro ids.along_seqE ids.along_forE, auto intro: ids.along_setAttribute ids.along_listeners)
    (intro repo.along_seqE repo.along_forE, auto intro: repo.along_setAttribute repo.along_listeners,
     intro keeps.along_seqE keeps.along_forE, auto intro: typed.along_setAttribute typed.along_listeners)

lemma instantiate_plugin_ok:
  assumes "instantiate_plugin depth i pt w = (Inr ct, w')"
  shows "has_id w' (ct_object ct) i" "repository w' = jset i ct (repository w)" "ct_local ct"
proof -
  from assms obtain r w1 w2 where n: "netObject i (pt_class pt) w = (Inr r, w1)"
      and p: "plugin_create depth (pt_kind pt) r w1 = (Inr (), w2)"
      and q: "publish r (plugin_channels pt) True w2 = (Inr ct, w')"
    by (auto simp: instantiate_plugin_def op_result_iffs)
  have "repository w1 = repository w" using netObject_frame(1)[of i "pt_class pt" w] n by simp
  moreover have "repository w2 = repository w1"
    using along_result[OF plugin_create_along(2) p] by (simp add: same_repository_def)
  moreover have i2: "has_id w2 r i"
    using along_result[OF plugin_create_along(1) p] netObject_has_id[OF n] by (rule ids_keptD)
  ultimately show "repository w' = jset i ct (repository w)" "ct_local ct"
    using publish_ok[OF q] by simp_all
  show "has_id w' (ct_object ct) i"
    using along_result[OF ids.along_publish q] i2 publish_ok(1)[OF q i2] by (auto dest: ids_keptD)
qed

lemma instantiate_plugin_error:
  assumes "instantiate_plugin depth i pt w = (Inl e, w')"
  shows "repository w' = repository w"
proof -
  obtain r w1 where n: "netObject i (pt_class pt) w = (Inr r, w1)" by (simp add: netObject_def)
  have r1: "repository w1 = repository w" using netObject_frame(1)[of i "pt_class pt" w] n by simp
  obtain x w2 where p: "plugin_create depth (pt_kind pt) r w1 = (x, w2)" by force
  have "repository w2 = repository w1"
    using along_result[OF plugin_create_along(2) p] by (simp add: same_repository_def)
  moreover have "w' = w2 \<or> repository w' = repository w2"
    using assms n p by (auto simp: instantiate_plugin_def op_result_iffs dest: publish_error)
  ultimately show ?thesis using r1 by auto
qed

lemma instantiate_plugin_along:
  "along ids_kept (instantiate_plugin depth i pt)" "along (keeps world_typed) (instantiate_plugin depth i pt)"
  unfolding instantiate_plugin_def
  by (intro ids.along_bindE ids.along_netObject ids.along_seqE plugin_create_along ids.along_publish)
    (intro keeps.along_bindE typed.along_netObject keeps.along_seqE plugin_create_along typed.along_publish)

lemma running_inv_add:
  assumes "running_inv c" "preg.well_keyed c'" "hreg.well_keyed c'"
    and "ids_kept (net c) (net c')" "world_typed (net c')"
    and "repository (net c') = jset i ct (repository (net c))"
    and "component_ids c' = insert i (component_ids c)" "links c' = links c"
    and "\<forall>(k, x) \<in> set (pluginContainers c'). (k, x) \<in> set (pluginContainers c) \<or>
           has_id (net c') (ct_object (pk_net x)) k"
    and "\<forall>(k, x) \<in> set (hardware c'). (k, x) \<in> set (hardware c) \<or>
           has_id (net c') (ct_object (hi_container x)) k"
  shows "running_inv c'"
proof -
  have "objects_owned c'"
    using assms(1,4,9,10) unfolding running_inv_def objects_owned_def
    by (fastforce dest: ids_keptD)
  moreover have "links_connected c'"
    using assms(1,7,8) by (auto simp: running_inv_def links_connected_def)
  moreover have "published_owned c'"
    using assms(1,7) jd.keys_dset[of i ct "repository (net c)"]
    by (auto simp: running_inv_def published_owned_def assms(6))
  moreover have "lreg.well_keyed c'"
    using assms(1,8) by (simp add: running_inv_def lreg.well_keyed_def)
  ultimately show ?thesis using assms(2,3,5) by (simp add: running_inv_def)
qed

lemma running_inv_create_plugin:
  assumes inv: "running_inv c" and eq: "create_plugin depth require icon cfg c = (r, c')"
  shows "running_inv c'"
  using eq
proof (cases rule: create_plugin_cases)
  case dup
  with inv show ?thesis by simp
next
  case (untyped e ts)
  with inv show ?thesis by (intro running_inv_cong[of c c']) simp_all
next
  case (failed pt e ts w)
  have "world_step (net c) w"
    using along_result[OF instantiate_plugin_along(1) failed(3)]
      along_result[OF instantiate_plugin_along(2) failed(3)] instantiate_plugin_error[OF failed(3)]
    by (simp add: world_step_def keeps_def)
  with inv failed show ?thesis by (intro running_inv_net[of c c']) simp_all
next
  case (made pt ct ts w)
  have t: "world_typed w"
    using inv along_result[OF instantiate_plugin_along(2) made(2)]
    by (simp add: keeps_def running_inv_def)
  have wk: "preg.well_keyed c'" "hreg.well_keyed c'"
    using inv preg.well_keyed_create[OF _ eq] made(4)
    by (simp_all add: running_inv_def hreg.well_keyed_def)
  show ?thesis
    using inv wk
  proof (rule running_inv_add[where i = "pc_id cfg" and ct = ct])
    show "component_ids c' = insert (pc_id cfg) (component_ids c)"
      using jd.keys_dset[of "pc_id cfg" _ "pluginContainers c"] made(4)
      by (auto simp: component_ids_def)
  qed (use made t instantiate_plugin_ok[OF made(2)] along_result[OF instantiate_plugin_along(1) made(2)]
      in \<open>auto dest!: set_jset_cases\<close>)
qed

lemma running_inv_create_hardware:
  assumes inv: "running_inv c" and eq: "create_hardware cfg c = (r, c')"
  shows "running_inv c'"
  using eq
proof (cases rule: create_hardware_cases)
  case dup
  with inv show ?thesis by simp
next
  case classless
  with inv show ?thesis by simp
next
  case (failed cl r0 e w1 w)
  have "ids_kept (net c) w1" "ids_kept w1 w"
    using along_result[OF ids.along_netObject failed(2)] along_result[OF ids.along_publish failed(3)]
    by simp_all
  moreover have "keeps world_typed (net c) w1" "keeps world_typed w1 w"
    using along_result[OF typed.along_netObject failed(2)] along_result[OF typed.along_publish failed(3)]
    by simp_all
  moreover have "repository w = repository (net c)"
    using publish_error[OF failed(3)] netObject_frame(1)[of "hc_id cfg" cl "net c"] failed(2) by simp
  ultimately have "world_step (net c) w"
    by (auto simp: world_step_def keeps_def intro: ids.R_trans)
  with inv failed show ?thesis by (intro running_inv_net[of c c']) simp_all
next
  case (made cl r0 ct w1 w)
  have ik: "ids_kept (net c) w" "ids_kept w1 w"
    using along_result[OF ids.along_netObject made(3)] along_result[OF ids.along_publish made(4)]
    by (auto intro: ids.R_trans)
  have t: "world_typed w"
    using inv along_result[OF typed.along_netObject made(3)] along_result[OF typed.along_publish made(4)]
    by (simp add: keeps_def running_inv_def)
  have h1: "has_id w1 r0 (hc_id cfg)" using netObject_has_id[OF made(3)] .
  have rp: "repository w = jset (hc_id cfg) ct (repository (net c))"
    using publish_ok(3)[OF made(4) h1] netObject_frame(1)[of "hc_id cfg" cl "net c"] made(3) by simp
  have h: "has_id w (ct_object ct) (hc_id cfg)"
    using ids_keptD[OF ik(2) h1] publish_ok(1)[OF made(4) h1] by simp
  have wk: "preg.well_keyed c'" "hreg.well_keyed c'"
    using inv hreg.well_keyed_create[OF _ eq] made(6)
    by (simp_all add: running_inv_def preg.well_keyed_def)
  show ?thesis
    using inv wk
  proof (rule running_inv_add[where i = "hc_id cfg" and ct = ct])
    show "component_ids c' = insert (hc_id cfg) (component_ids c)"
      using jd.keys_dset[of "hc_id cfg" _ "hardware c"] made(6)
      by (auto simp: component_ids_def)
  qed (use made t ik rp h in \<open>auto dest!: set_jset_cases\<close>)
qed

subsection \<open>Links\<close>

lemma connect_link_along:
  "along ids_kept (connect_link cfg)" "along same_repository (connect_link cfg)"
  "along (keeps world_typed) (connect_link cfg)"
proof -
  have r: "along R (repository_object i)" if "\<And>w. R w w" for R i
    using that by (auto simp: along_def repository_object_def split: option.split)
  show "along ids_kept (connect_link cfg)"
    unfolding connect_link_def Let_def
    by (intro ids.along_bindE ids.along_seqE ids.along_new_id ids.along_listeners ids.along_ret r ids.R_refl)
  show "along same_repository (connect_link cfg)"
    unfolding connect_link_def Let_def
    by (intro repo.along_bindE repo.along_seqE repo.along_new_id repo.along_listeners repo.along_ret r repo.R_refl)
  show "along (keeps world_typed) (connect_link cfg)"
    unfolding connect_link_def Let_def
    by (intro keeps.along_bindE keeps.along_seqE typed.along_new_id typed.along_listeners keeps.along_ret r
        keeps.R_refl)
qed

lemma connect_link_endpoints:
  assumes "connect_link cfg w = (Inr x, w')"
  shows "sourceComponent cfg \<in> set (jkeys (repository w))"
    "destinationComponent cfg \<in> set (jkeys (repository w))"
proof -
  obtain ct1 ct2 where "jget (repository w) (sourceComponent cfg) = Some ct1"
      "jget (repository w) (destinationComponent cfg) = Some ct2"
    using assms by (auto simp: connect_link_def repository_object_def bindE_Inr_iff split: option.splits)
  then show "sourceComponent cfg \<in> set (jkeys (repository w))"
    "destinationComponent cfg \<in> set (jkeys (repository w))"
    by (auto intro!: jget_key simp del: set_map)
qed

lemma running_inv_create_link:
  assumes inv: "running_inv c" and eq: "create_link cfg c = (r, c')"
  shows "running_inv c'"
  using eq
proof (cases rule: create_link_cases)
  case dup
  with inv show ?thesis by simp
next
  case (failed e w)
  have "world_step (net c) w" using connect_link_along failed(2) by (rule world_stepI)
  with inv failed show ?thesis by (intro running_inv_net[of c c']) simp_all
next
  case (made src h w)
  have ws: "world_step (net c) w" using connect_link_along made(2) by (rule world_stepI)
  have ends: "sourceComponent cfg \<in> component_ids c" "destinationComponent cfg \<in> component_ids c"
    using connect_link_endpoints[OF made(2)] inv by (auto simp: running_inv_def published_owned_def)
  have "running_inv (c\<lparr>net := w\<rparr>)"
    using inv ws by (rule running_inv_world)
  moreover have "component_ids c' = component_ids c" "component_ids (c\<lparr>net := w\<rparr>) = component_ids c"
    using made(4) by (simp_all add: component_ids_def)
  moreover have "lreg.well_keyed c'" using lreg.well_keyed_create[OF _ eq] inv by (simp add: running_inv_def)
  moreover have "links_connected c'"
    using made(4) ends inv \<open>component_ids c' = component_ids c\<close>
    by (auto simp: links_connected_def running_inv_def dest!: set_jset_cases)
  ultimately show ?thesis
    using made(4) by (simp add: running_inv_def preg.well_keyed_def hreg.well_keyed_def
        published_owned_def objects_owned_def)
qed

lemma running_inv_destroy_link:
  assumes inv: "running_inv c" and eq: "destroy_link i c = (r, c')"
  shows "running_inv c'"
  using eq
proof (cases rule: destroy_link_cases)
  case missing
  with inv show ?thesis by simp
next
  case (gone li w)
  have "world_step (net c) w"
    by (rule world_stepI[OF ids.along_listeners(2) repo.along_listeners(2) typed.along_listeners(2)])
      (subst gone(2), rule remove_listener_result)
  with inv have "running_inv (c\<lparr>net := w\<rparr>)" by (rule running_inv_world)
  moreover have "lreg.well_keyed c'" using lreg.well_keyed_destroy[OF _ eq] inv by (simp add: running_inv_def)
  moreover have "links_connected c'"
    using inv gone(4) set_jdel_subset[of i "links c"]
    by (auto simp: running_inv_def links_connected_def component_ids_def)
  ultimately show ?thesis
    using gone(4) by (simp add: running_inv_def preg.well_keyed_def hreg.well_keyed_def
        published_owned_def objects_owned_def component_ids_def)
qed

subsection \<open>Destruction of components\<close>

definition unlinked :: "core \<Rightarrow> string \<Rightarrow> bool" where
  "unlinked c i \<longleftrightarrow> (\<forall>(k, li) \<in> set (links c). \<not> uses_component i (li_config li))"

lemma checkLink_iff: "checkLink i c = (Inr (), c') \<longleftrightarrow> c' = c \<and> unlinked c i"
proof (cases "find (\<lambda>(lid, li). uses_component i (li_config li)) (links c)")
  case None
  then have "unlinked c i" by (auto simp: unlinked_def find_None_iff)
  with None show ?thesis by (auto simp: checkLink_def)
next
  case (Some x)
  then have "\<not> unlinked c i" using find_SomeD[OF Some] by (auto simp: unlinked_def)
  with Some show ?thesis by (cases x) (auto simp: checkLink_def)
qed

lemma checkLink_state: "snd (checkLink i c) = c"
  by (auto simp: checkLink_def split: option.split)

lemma unpublish_step:
  assumes "unpublish ct w = (x, w')" "has_id w (ct_object ct) i"
  shows "ids_kept w w'" "world_typed w \<longrightarrow> world_typed w'" "repository w' = jdel i (repository w)"
  using along_result[OF ids.along_unpublish assms(1)] along_result[OF typed.along_unpublish assms(1)]
    unpublish_repository[OF assms] by (simp_all add: keeps_def)

lemma running_inv_remove:
  assumes inv: "running_inv c" and un: "unlinked c i"
    and "preg.well_keyed c'" "hreg.well_keyed c'"
    and ws: "ids_kept (net c) (net c')" "world_typed (net c')" "repository (net c') = jdel i (repository (net c))"
    and regs: "set (pluginContainers c') \<subseteq> set (pluginContainers c)" "set (hardware c') \<subseteq> set (hardware c)"
      "component_ids c - {i} \<subseteq> component_ids c'" "links c' = links c"
  shows "running_inv c'"
proof -
  have "objects_owned c'"
    using inv ws(1) regs(1,2) unfolding running_inv_def objects_owned_def by (fastforce dest: ids_keptD)
  moreover have "links_connected c'"
    using inv un regs(3,4) by (fastforce simp: running_inv_def links_connected_def unlinked_def uses_component_def)
  moreover have "published_owned c'"
    using inv regs(3) ws(3) jd.keys_ddel[of i "repository (net c)"]
    by (auto simp: running_inv_def published_owned_def)
  moreover have "lreg.well_keyed c'" using inv regs(4) by (simp add: running_inv_def lreg.well_keyed_def)
  ultimately show ?thesis using assms(3,4) ws(2) by (simp add: running_inv_def)
qed

lemma running_inv_destroy_plugin:
  assumes inv: "running_inv c" and un: "unlinked c i" and eq: "destroy_plugin i c = (r, c')"
  shows "running_inv c'"
proof (rule destroy_plugin_cases[OF eq])
  assume "c' = c" with inv show ?thesis by simp
next
  fix k e w
  assume k: "jget (pluginContainers c) i = Some k" "unpublish (pk_net k) (net c) = (Inl e, w)"
    "c' = c\<lparr>net := w\<rparr>"
  have h: "has_id (net c) (ct_object (pk_net k)) i"
    using inv map_of_SomeD[OF k(1)] by (auto simp: running_inv_def objects_owned_def)
  show ?thesis
    by (rule running_inv_remove[OF inv un])
      (use k inv unpublish_step[OF k(2) h] in \<open>auto simp: running_inv_def preg.well_keyed_def
        hreg.well_keyed_def component_ids_def\<close>)
next
  fix k w
  assume k: "jget (pluginContainers c) i = Some k" "unpublish (pk_net k) (net c) = (Inr (), w)"
    "c' = c\<lparr>net := w, pluginContainers := jdel i (pluginContainers c)\<rparr>"
  have h: "has_id (net c) (ct_object (pk_net k)) i"
    using inv map_of_SomeD[OF k(1)] by (auto simp: running_inv_def objects_owned_def)
  have "component_ids c - {i} \<subseteq> component_ids c'"
    using k(3) jd.keys_ddel[of i "pluginContainers c"] by (auto simp: component_ids_def)
  then show ?thesis
    by (intro running_inv_remove[OF inv un])
      (use k inv unpublish_step[OF k(2) h] preg.well_keyed_destroy[OF _ eq] set_jdel_subset
        in \<open>auto simp: running_inv_def hreg.well_keyed_def\<close>)
qed

lemma running_inv_destroy_hardware:
  assumes inv: "running_inv c" and un: "unlinked c i" and eq: "destroy_hardware i c = (r, c')"
  shows "running_inv c'"
proof (rule destroy_hardware_cases[OF eq])
  assume "c' = c" with inv show ?thesis by simp
next
  fix k e w
  assume k: "jget (hardware c) i = Some k" "unpublish (hi_container k) (net c) = (Inl e, w)"
    "c' = c\<lparr>net := w\<rparr>"
  have h: "has_id (net c) (ct_object (hi_container k)) i"
    using inv map_of_SomeD[OF k(1)] by (auto simp: running_inv_def objects_owned_def)
  show ?thesis
    by (rule running_inv_remove[OF inv un])
      (use k inv unpublish_step[OF k(2) h] in \<open>auto simp: running_inv_def preg.well_keyed_def
        hreg.well_keyed_def component_ids_def\<close>)
next
  fix k w
  assume k: "jget (hardware c) i = Some k" "unpublish (hi_container k) (net c) = (Inr (), w)"
    "c' = c\<lparr>net := w, hardware := jdel i (hardware c)\<rparr>"
  have h: "has_id (net c) (ct_object (hi_container k)) i"
    using inv map_of_SomeD[OF k(1)] by (auto simp: running_inv_def objects_owned_def)
  have "component_ids c - {i} \<subseteq> component_ids c'"
    using k(3) jd.keys_ddel[of i "hardware c"] by (auto simp: component_ids_def)
  then show ?thesis
    by (intro running_inv_remove[OF inv un])
      (use k inv unpublish_step[OF k(2) h] hreg.well_keyed_destroy[OF _ eq] set_jdel_subset
        in \<open>auto simp: running_inv_def preg.well_keyed_def\<close>)
qed

end
