(* ===== verification/CoreSteps.thy ===== *)
theory CoreSteps
  imports CoreInvariant
begin

section \<open>Every input keeps the invariant\<close>

text \<open>
  The operations of \<open>manager.js\<close>, the routes of \<open>app.js\<close> and the asynchronous inputs (messages,
  connection events, timers) as steps of the core process, each shown to keep \<open>core_inv\<close>.
\<close>

lemma addPlugin_add: "addPlugin depth require icon cfg = preg.add depth require icon cfg"
  by (simp add: addPlugin_def preg.add_def)

lemma addHardware_add: "addHardware cfg = hreg.add cfg"
  by (simp add: addHardware_def hreg.add_def)

lemma addLink_add: "addLink cfg = lreg.add cfg"
  by (simp add: addLink_def lreg.add_def)

lemma removePlugin_remove: "removePlugin i = seqE (checkLink i) (preg.remove i)"
  by (simp add: removePlugin_def preg.remove_def)

lemma removeHardware_remove: "removeHardware i = seqE (checkLink i) (hreg.remove i)"
  by (simp add: removeHardware_def hreg.remove_def)

lemma removeLink_remove: "removeLink i = lreg.remove i"
  by (simp add: removeLink_def lreg.remove_def)

lemma synced_others:
  "(hardware c', links c', data_section ps_hardware c', data_section ps_links c') =
   (hardware c, links c, data_section ps_hardware c, data_section ps_links c) \<Longrightarrow>
   hreg.synced c \<Longrightarrow> lreg.synced c \<Longrightarrow> hreg.synced c' \<and> lreg.synced c'"
  "(pluginContainers c', links c', data_section ps_plugins c', data_section ps_links c') =
   (pluginContainers c, links c, data_section ps_plugins c, data_section ps_links c) \<Longrightarrow>
   preg.synced c \<Longrightarrow> lreg.synced c \<Longrightarrow> preg.synced c' \<and> lreg.synced c'"
  "(pluginContainers c', hardware c', data_section ps_plugins c', data_section ps_hardware c') =
   (pluginContainers c, hardware c, data_section ps_plugins c, data_section ps_hardware c) \<Longrightarrow>
   preg.synced c \<Longrightarrow> hreg.synced c \<Longrightarrow> preg.synced c' \<and> hreg.synced c'"
  by (simp_all add: preg.synced_def hreg.synced_def lreg.synced_def)

lemma updateData_frame:
  assumes "updateData g c = (r, c')"
  shows "net c' = net c" "pluginContainers c' = pluginContainers c" "hardware c' = hardware c"
    "links c' = links c"
proof -
  have "net c' = net c \<and> pluginContainers c' = pluginContainers c \<and> hardware c' = hardware c \<and> links c' = links c"
    using assms
    by (auto simp: updateData_def checkData_def saveData_def seqE_def bindE_def modifyE_def
        split: option.splits)
  then show "net c' = net c" "pluginContainers c' = pluginContainers c" "hardware c' = hardware c"
    "links c' = links c" by simp_all
qed

lemma running_inv_updateData: "updateData g c = (r, c') \<Longrightarrow> running_inv c \<Longrightarrow> running_inv c'"
  by (rule running_inv_cong[of c]) (simp_all add: updateData_frame)

subsection \<open>The manager's operations\<close>

lemma core_inv_addPlugin:
  assumes "core_inv c" "addPlugin depth require icon cfg c = (r, c')"
  shows "core_inv c'"
proof -
  have inv: "running_inv c" and ps: "preg.synced c" and hs: "hreg.synced c" and ls: "lreg.synced c"
    using assms(1) by (simp_all add: core_inv_def data_synced_sections)
  have add: "preg.add depth require icon cfg c = (r, c')"
    using assms(2) by (simp add: addPlugin_add)
  have "data_synced c'"
    using preg.synced_add[OF ps add] synced_others(1)[OF preg.others_add[OF ps add] hs ls]
    by (simp add: data_synced_sections)
  moreover have "running_inv c'"
    using ps
  proof (rule preg.add_cases[where g = cfg and depth = depth and require = require and icon = icon])
    fix e s' assume e: "create_plugin depth require icon cfg c = (Inl e, s')"
      "preg.add depth require icon cfg c = (Inl e, s')"
    then show ?thesis using add running_inv_create_plugin[OF inv e(1)] by simp
  next
    fix x s1 s' assume x: "create_plugin depth require icon cfg c = (Inr x, s1)"
      "data_addPlugin (pc_id cfg) cfg s1 = (Inr (), s')"
      "preg.add depth require icon cfg c = (Inr (pc_id cfg), s')"
    then have "running_inv s'"
      using running_inv_create_plugin[OF inv x(1)] unfolding data_addPlugin_def
      by (auto intro: running_inv_updateData)
    with x(3) add show ?thesis by simp
  qed
  ultimately show ?thesis by (simp add: core_inv_def)
qed

lemma core_inv_addHardware:
  assumes "core_inv c" "addHardware cfg c = (r, c')"
  shows "core_inv c'"
proof -
  have inv: "running_inv c" and ps: "preg.synced c" and hs: "hreg.synced c" and ls: "lreg.synced c"
    using assms(1) by (simp_all add: core_inv_def data_synced_sections)
  have add: "hreg.add cfg c = (r, c')" using assms(2) by (simp add: addHardware_add)
  have "data_synced c'"
    using hreg.synced_add[OF hs add] synced_others(2)[OF hreg.others_add[OF hs add] ps ls]
    by (simp add: data_synced_sections)
  moreover have "running_inv c'"
    using hs
  proof (rule hreg.add_cases[where g = cfg])
    fix e s' assume e: "create_hardware cfg c = (Inl e, s')" "hreg.add cfg c = (Inl e, s')"
    then show ?thesis using add running_inv_create_hardware[OF inv e(1)] by simp
  next
    fix x s1 s' assume x: "create_hardware cfg c = (Inr x, s1)"
      "data_addHardware (hc_id cfg) cfg s1 = (Inr (), s')" "hreg.add cfg c = (Inr (hc_id cfg), s')"
    then have "running_inv s'"
      using running_inv_create_hardware[OF inv x(1)] unfolding data_addHardware_def
      by (auto intro: running_inv_updateData)
    with x(3) add show ?thesis by simp
  qed
  ultimately show ?thesis by (simp add: core_inv_def)
qed

lemma core_inv_addLink:
  assumes "core_inv c" "addLink cfg c = (r, c')"
  shows "core_inv c'"
proof -
  have inv: "running_inv c" and ps: "preg.synced c" and hs: "hreg.synced c" and ls: "lreg.synced c"
    using assms(1) by (simp_all add: core_inv_def data_synced_sections)
  have add: "lreg.add cfg c = (r, c')" using assms(2) by (simp add: addLink_add)
  have "data_synced c'"
    using lreg.synced_add[OF ls add] synced_others(3)[OF lreg.others_add[OF ls add] ps hs]
    by (simp add: data_synced_sections)
  moreover have "running_inv c'"
    using ls
  proof (rule lreg.add_cases[where g = cfg])
    fix e s' assume e: "create_link cfg c = (Inl e, s')" "lreg.add cfg c = (Inl e, s')"
    then show ?thesis using add running_inv_create_link[OF inv e(1)] by simp
  next
    fix x s1 s' assume x: "create_link cfg c = (Inr x, s1)"
      "data_addLink (makeId cfg) cfg s1 = (Inr (), s')" "lreg.add cfg c = (Inr (makeId cfg), s')"
    then have "running_inv s'"
      using running_inv_create_link[OF inv x(1)] unfolding data_addLink_def
      by (auto intro: running_inv_updateData)
    with x(3) add show ?thesis by simp
  qed
  ultimately show ?thesis by (simp add: core_inv_def)
qed

lemma core_inv_removePlugin:
  assumes "core_inv c" "removePlugin i c = (r, c')"
  shows "core_inv c'"
proof (cases "checkLink i c = (Inr (), c)")
  case False
  then have "c' = c" using assms(2) checkLink_state[of i c] checkLink_iff[of i c c]
    by (cases "checkLink i c") (auto simp: removePlugin_remove seqE_def bindE_def split: sum.splits)
  with assms(1) show ?thesis by simp
next
  case True
  then have un: "unlinked c i" by (simp add: checkLink_iff)
  have inv: "running_inv c" and ps: "preg.synced c" and hs: "hreg.synced c" and ls: "lreg.synced c"
    using assms(1) by (simp_all add: core_inv_def data_synced_sections)
  have rm: "preg.remove i c = (r, c')"
    using assms(2) True by (simp add: removePlugin_remove seqE_def bindE_def)
  have "data_synced c'"
    using preg.synced_remove[OF ps rm] synced_others(1)[OF preg.others_remove[OF ps rm] hs ls]
    by (simp add: data_synced_sections)
  moreover have "running_inv c'"
    using ps
  proof (rule preg.remove_cases[where k = i])
    fix e s' assume e: "destroy_plugin i c = (Inl e, s')" "preg.remove i c = (Inl e, s')"
    then show ?thesis using rm running_inv_destroy_plugin[OF inv un e(1)] by simp
  next
    assume "preg.remove i c = (Inl PluginNotFound, c)"
    then show ?thesis using rm inv by simp
  next
    fix s1 s' assume x: "destroy_plugin i c = (Inr True, s1)" "data_removePlugin i s1 = (Inr (), s')"
      "preg.remove i c = (Inr (), s')"
    then have "running_inv s'"
      using running_inv_destroy_plugin[OF inv un x(1)] unfolding data_removePlugin_def
      by (auto intro: running_inv_updateData)
    with x(3) rm show ?thesis by simp
  qed
  ultimately show ?thesis by (simp add: core_inv_def)
qed

lemma core_inv_removeHardware:
  assumes "core_inv c" "removeHardware i c = (r, c')"
  shows "core_inv c'"
proof (cases "checkLink i c = (Inr (), c)")
  case False
  then have "c' = c" using assms(2) checkLink_state[of i c] checkLink_iff[of i c c]
    by (cases "checkLink i c") (auto simp: removeHardware_remove seqE_def bindE_def split: sum.splits)
  with assms(1) show ?thesis by simp
next
  case True
  then have un: "unlinked c i" by (simp add: checkLink_iff)
  have inv: "running_inv c" and ps: "preg.synced c" and hs: "hreg.synced c" and ls: "lreg.synced c"
    using assms(1) by (simp_all add: core_inv_def data_synced_sections)
  have rm: "hreg.remove i c = (r, c')"
    using assms(2) True by (simp add: removeHardware_remove seqE_def bindE_def)
  have "data_synced c'"
    using hreg.synced_remove[OF hs rm] synced_others(2)[OF hreg.others_remove[OF hs rm] ps ls]
    by (simp add: data_synced_sections)
  moreover have "running_inv c'"
    using hs
  proof (rule hreg.remove_cases[where k = i])
    fix e s' assume e: "destroy_hardware i c = (Inl e, s')" "hreg.remove i c = (Inl e, s')"
    then show ?thesis using rm running_inv_destroy_hardware[OF inv un e(1)] by simp
  next
    assume "hreg.remove i c = (Inl HardwareNotFound, c)"
    then show ?thesis using rm inv by simp
  next
    fix s1 s' assume x: "destroy_hardware i c = (Inr True, s1)" "data_removeHardware i s1 = (Inr (), s')"
      "hreg.remove i c = (Inr (), s')"
    then have "running_inv s'"
      using running_inv_destroy_hardware[OF inv un x(1)] unfolding data_removeHardware_def
      by (auto intro: running_inv_updateData)
    with x(3) rm show ?thesis by simp
  qed
  ultimately show ?thesis by (simp add: core_inv_def)
qed

lemma core_inv_removeLink:
  assumes "core_inv c" "removeLink i c = (r, c')"
  shows "core_inv c'"
proof -
  have inv: "running_inv c" and ps: "preg.synced c" and hs: "hreg.synced c" and ls: "lreg.synced c"
    using assms(1) by (simp_all add: core_inv_def data_synced_sections)
  have rm: "lreg.remove i c = (r, c')" using assms(2) by (simp add: removeLink_remove)
  have "data_synced c'"
    using lreg.synced_remove[OF ls rm] synced_others(3)[OF lreg.others_remove[OF ls rm] ps hs]
    by (simp add: data_synced_sections)
  moreover have "running_inv c'"
    using ls
  proof (rule lreg.remove_cases[where k = i])
    fix e s' assume e: "destroy_link i c = (Inl e, s')" "lreg.remove i c = (Inl e, s')"
    then show ?thesis using rm running_inv_destroy_link[OF inv e(1)] by simp
  next
    assume "lreg.remove i c = (Inl LinkNotFound, c)"
    then show ?thesis using rm inv by simp
  next
    fix s1 s' assume x: "destroy_link i c = (Inr True, s1)" "data_removeLink i s1 = (Inr (), s')"
      "lreg.remove i c = (Inr (), s')"
    then have "running_inv s'"
      using running_inv_destroy_link[OF inv x(1)] unfolding data_removeLink_def
      by (auto intro: running_inv_updateData)
    with x(3) rm show ?thesis by simp
  qed
  ultimately show ?thesis by (simp add: core_inv_def)
qed

subsection \<open>Requests and asynchronous inputs\<close>

lemma core_inv_cong:
  assumes "core_inv c" "net c' = net c" "pluginContainers c' = pluginContainers c"
    "hardware c' = hardware c" "links c' = links c" "data_cache c' = data_cache c"
    "data_file c' = data_file c"
  shows "core_inv c'"
  using assms running_inv_cong[of c c'] by (simp add: core_inv_def data_synced_def)

lemma core_inv_types [simp]: "core_inv (c\<lparr>pluginTypes := ts\<rparr>) = core_inv c"
  "core_inv (c\<lparr>plugin_dir := fs\<rparr>) = core_inv c"
  by (auto intro: core_inv_cong[of c] core_inv_cong[of "c\<lparr>pluginTypes := ts\<rparr>"]
      core_inv_cong[of "c\<lparr>plugin_dir := fs\<rparr>"])

lemma keeps_refreshPluginTypes: "along (keeps core_inv) (refreshPluginTypes require icon)"
  unfolding along_def keeps_def
proof (intro allI impI)
  fix c assume "core_inv c"
  moreover obtain ts where "snd (refreshPluginTypes require icon c) = c\<lparr>pluginTypes := ts\<rparr>"
    by (metis prod.collapse refreshPluginTypes_frame)
  ultimately show "core_inv (snd (refreshPluginTypes require icon c))" by simp
qed

lemma keeps_checkPluginTypes: "along (keeps core_inv) (checkPluginTypes require icon)"
  unfolding along_def keeps_def
proof (intro allI impI)
  fix c assume "core_inv c"
  moreover obtain ts where "snd (checkPluginTypes require icon c) = c\<lparr>pluginTypes := ts\<rparr>"
    by (metis prod.collapse checkPluginTypes_frame)
  ultimately show "core_inv (snd (checkPluginTypes require icon c))" by simp
qed

lemma keeps_readE: "along (keeps P) (readE f)"
  by (simp add: along_def keeps_def readE_def)

lemma keeps_register: "along (keeps core_inv) (register_plugin require icon name)"
  unfolding register_plugin_def
  by (intro keeps.along_seqE keeps.along_bindE keeps_checkPluginTypes keeps_readE keeps.along_if
      keeps.along_throw keeps.along_modifyE keeps_refreshPluginTypes) (simp add: keeps_def)

lemma keeps_getPluginTypes: "along (keeps core_inv) (getPluginTypes require icon)"
  unfolding getPluginTypes_def plugin_types_def
  by (intro keeps.along_seqE keeps.along_bindE keeps_checkPluginTypes keeps_readE keeps.along_ret)

lemma snd_respond: "snd (respond f m c) = snd (m c)"
  by (simp add: respond_def split: prod.split sum.split)

lemma core_inv_result: "(\<And>r c'. m c = (r, c') \<Longrightarrow> core_inv c') \<Longrightarrow> core_inv (snd (m c))"
  by (cases "m c") simp

lemma core_inv_handle: "core_inv c \<Longrightarrow> core_inv (snd (handle depth require icon q c))"
proof (cases q)
  case GetUi
  assume "core_inv c"
  then show ?thesis unfolding GetUi handle.simps snd_respond
    by (auto simp: data_getUi_def split: option.split intro: core_inv_cong)
next
  case (PostUi u)
  assume "core_inv c"
  then show ?thesis unfolding PostUi handle.simps snd_respond
    by (auto simp: data_setUi_def modifyE_def intro: core_inv_cong)
next
  case GetPluginTypes
  assume "core_inv c"
  then show ?thesis unfolding GetPluginTypes handle.simps snd_respond
    using keeps_getPluginTypes by (auto simp: along_def keeps_def)
next
  case RefreshPluginTypes
  assume "core_inv c"
  then show ?thesis unfolding RefreshPluginTypes handle.simps snd_respond
    using keeps_refreshPluginTypes by (auto simp: along_def keeps_def)
next
  case (PostPluginType name)
  assume "core_inv c"
  then show ?thesis unfolding PostPluginType handle.simps snd_respond addPluginType_def
    using keeps_register by (auto simp: along_def keeps_def)
qed (auto simp: snd_respond getPlugins_def getHardware_def getLinks_def readE_def
    intro!: core_inv_result elim: core_inv_addPlugin core_inv_addHardware core_inv_addLink
      core_inv_removePlugin core_inv_removeHardware core_inv_removeLink)

lemma core_inv_lift_net:
  assumes "core_inv c" "along ids_kept m" "along same_repository m" "along (keeps world_typed) m"
  shows "core_inv (snd (lift_net m c))"
proof -
  obtain r w where m: "m (net c) = (r, w)" by force
  then have "world_step (net c) w" using world_stepI[OF assms(2-4)] by blast
  then have "running_inv (c\<lparr>net := w\<rparr>)"
    using assms(1) by (intro running_inv_world) (simp_all add: core_inv_def)
  with assms(1) m show ?thesis by (simp add: lift_net_def core_inv_def data_synced_def)
qed

lemma core_inv_step: "core_inv c \<Longrightarrow> core_inv (core_step depth require icon i c)"
proof (cases i)
  case (Request q)
  then show "core_inv c \<Longrightarrow> ?thesis" by (simp add: core_inv_handle)
next
  case (IncomingMessage j sndr tgt msg)
  then show "core_inv c \<Longrightarrow> ?thesis"
    by (auto simp: deliver_message_def split: option.split
        intro!: core_inv_lift_net ids.along_message repo.along_message typed.along_message)
next
  case (WatcherEvent ev)
  have "along R (deliver_event depth ev)" if "\<And>wid. along R (watcher_event depth wid ev)" "\<And>w. R w w" for R
    using that by (auto simp: along_def deliver_event_def split: option.split)
  with WatcherEvent show "core_inv c \<Longrightarrow> ?thesis"
    by (auto intro!: core_inv_lift_net ids.along_watcher_event repo.along_watcher_event
        typed.along_watcher_event ids.R_refl repo.R_refl keeps.R_refl)
next
  case (TimerDue tid)
  then show "core_inv c \<Longrightarrow> ?thesis"
    by (auto intro!: core_inv_lift_net ids.along_fire_timer repo.along_fire_timer typed.along_fire_timer)
next
  case (TimePasses ms)
  then show "core_inv c \<Longrightarrow> ?thesis"
    by (auto intro!: core_inv_lift_net ids.along_advance_clock repo.along_advance_clock
        typed.along_advance_clock)
qed

lemma core_inv_run: "core_inv c \<Longrightarrow> core_inv (core_run depth require icon ins c)"
  by (induction ins arbitrary: c) (simp_all add: core_inv_step)

end
