(* ===== verification/PluginLaws.thy ===== *)
theory PluginLaws
  imports PluginHost
begin

section \<open>What the plugin instances do\<close>

text \<open>
  The state of a plugin instance after its creation and publication, and the effect of storing one
  of its attributes: the new value is stored and announced on IRC as the new nick of the
  component.
\<close>

definition plugin_object :: "string \<Rightarrow> plugin_kind \<Rightarrow> nat \<Rightarrow> (string \<rightharpoonup> jsval) \<Rightarrow> nobject" where
  "plugin_object i k client vals =
     \<lparr>obj_id = i, obj_class = plugin_class k, attr_values = vals,
      listeners = map (\<lambda>(a, h). (EvActionOf a, PluginListener h)) (plugin_handlers k)
                  @ [(EvAttribute, NickListener client)]\<rparr>"

definition plugin_value :: "(string \<rightharpoonup> jsval) \<Rightarrow> string \<Rightarrow> jsval" where
  "plugin_value vals n = (case vals n of Some v \<Rightarrow> v | None \<Rightarrow> VUndefined)"

definition plugin_nick :: "string \<Rightarrow> plugin_kind \<Rightarrow> (string \<rightharpoonup> jsval) \<Rightarrow> string" where
  "plugin_nick i k vals =
     i @ concat (map (\<lambda>n. ''|'' @ to_str (plugin_value vals n)) (attribute_names (members (plugin_class k))))"

text \<open>An attribute is stored and the client changes its nick.\<close>

definition announce :: "string \<Rightarrow> plugin_kind \<Rightarrow> nat \<Rightarrow> oref \<Rightarrow> (string \<rightharpoonup> jsval) \<Rightarrow> world \<Rightarrow> world" where
  "announce i k client r vals w =
     w\<lparr>heap := (heap w)(r \<mapsto> plugin_object i k client vals),
       irc_log := irc_log w @ [IrcNick client (plugin_nick i k vals)]\<rparr>"

lemma heap_announce [simp]: "heap (announce i k client r vals w) r = Some (plugin_object i k client vals)"
  by (simp add: announce_def)

lemma announce_frame [simp]:
  "timers (announce i k client r vals w) = timers w" "timeouts (announce i k client r vals w) = timeouts w"
  "clock (announce i k client r vals w) = clock w" "fresh (announce i k client r vals w) = fresh w"
  "irc_log (announce i k client r vals w) = irc_log w @ [IrcNick client (plugin_nick i k vals)]"
  by (simp_all add: announce_def)

lemma announce_twice:
  "announce i k client r vals' (announce i k client r vals w) =
     w\<lparr>heap := (heap w)(r \<mapsto> plugin_object i k client vals'),
       irc_log := irc_log w @ [IrcNick client (plugin_nick i k vals), IrcNick client (plugin_nick i k vals')]\<rparr>"
  by (simp add: announce_def)

lemma plugin_class_wf: "wf_class (plugin_class k)"
  by (cases k) (simp_all add: wf_class_def plugin_class_defs net_builders)

lemma makeNick_plugin: "makeNick (plugin_object i k client vals) = Inr (plugin_nick i k vals)"
  by (cases k)
    (simp_all add: makeNick_def plugin_nick_def plugin_object_def object_attribute_def getMember_def
      plugin_class_defs net_builders plugin_value_def)

lemma listeners_plugin:
  "listeners_of (plugin_object i k client vals) (EvAttributeOf n) = []"
  "listeners_of (plugin_object i k client vals) EvAttribute = [NickListener client]"
  "listeners_of (plugin_object i k client vals) EvAction = []"
  "listeners_of (plugin_object i k client vals) (EvActionOf a) =
     (case jget (plugin_handlers k) a of None \<Rightarrow> [] | Some h \<Rightarrow> [PluginListener h])"
  by (cases k; simp add: listeners_of_def plugin_object_def)+

definition plugin_member :: "plugin_kind \<Rightarrow> string \<Rightarrow> member option" where
  "plugin_member k n = find_member (members (plugin_class k)) n"

lemma getMember_plugin: "getMember (plugin_object i k client vals) n = plugin_member k n"
  by (simp add: getMember_def plugin_object_def plugin_member_def)

text \<open>Storing a checked value: one nick message, no error, whatever the remaining stack.\<close>

lemma set_plugin_attribute:
  assumes "heap w r = Some (plugin_object i k client vals)" "plugin_member k n = Some (Attribute n t)"
    "checkArg v t = None"
  shows "set_attribute_with (call_listener (Suc depth)) r n v w =
      (Inr (), announce i k client r (vals(n \<mapsto> v)) w)"
proof -
  have "plugin_object i k client vals\<lparr>attr_values := (attr_values (plugin_object i k client vals))(n \<mapsto> v)\<rparr>
      = plugin_object i k client (vals(n \<mapsto> v))"
    by (simp add: plugin_object_def)
  then have put: "put_value r n v w = w\<lparr>heap := (heap w)(r \<mapsto> plugin_object i k client (vals(n \<mapsto> v)))\<rparr>"
    using assms(1) by (simp add: put_value_def)
  show ?thesis
    using assms
    by (simp add: set_attribute_with_def with_object_def getMember_plugin op_defs emit_with_def
        listeners_plugin put listener_body_def attributeChanged_def makeNick_plugin log_irc_def announce_def)
qed

lemma get_plugin_attribute:
  assumes "heap w r = Some (plugin_object i k client vals)" "plugin_member k n = Some (Attribute n t)"
  shows "getAttribute r n w = (Inr (plugin_value vals n), w)"
proof -
  have "attr_values (plugin_object i k client vals) = vals" by (simp add: plugin_object_def)
  with assms show ?thesis
    by (simp add: getAttribute_def with_object_def object_attribute_def getMember_plugin plugin_value_def)
qed

lemma execute_plugin_action:
  assumes "heap w r = Some (plugin_object i k client vals)" "plugin_member k a = Some (Action a ts)"
    "check_call args ts = None" "jget (plugin_handlers k) a = Some h"
    and run: "run_plugin (call_listener depth) h r args w = (Inr (), w')"
    and after: "heap w' r = Some (plugin_object i k client vals')"
  shows "executeAction (Suc depth) r a args w = (Inr (), w')"
  using assms
  by (simp add: executeAction_def execute_action_with_def with_object_def getMember_plugin
      op_defs emit_with_def listeners_plugin listener_body_def)

lemma plugin_members:
  "plugin_member Button ''output'' = Some (Attribute ''output'' boolean_type)"
  "plugin_member Button ''input'' = Some (Action ''input'' [])"
  "plugin_member SwitchToButton ''output'' = Some (Attribute ''output'' boolean_type)"
  "plugin_member SwitchToButton ''input'' = Some (Action ''input'' [boolean_type])"
  "plugin_member HubBool ''output'' = Some (Attribute ''output'' boolean_type)"
  "plugin_member HubBool ''input'' = Some (Action ''input'' [boolean_type])"
  "plugin_member Light ''output'' = Some (Attribute ''output'' boolean_type)"
  "plugin_member Light ''input'' = Some (Action ''input'' [boolean_type])"
  "plugin_member StepRelay ''output'' = Some (Attribute ''output'' boolean_type)"
  "plugin_member StepRelay ''input'' = Some (Action ''input'' [boolean_type])"
  "plugin_member StepRelay ''on'' = Some (Action ''on'' [boolean_type])"
  "plugin_member StepRelay ''off'' = Some (Action ''off'' [boolean_type])"
  "plugin_member Music ''state'' = Some (Attribute ''state'' state_type)"
  "plugin_member Music ''volume'' = Some (Attribute ''volume'' volume_type)"
  "plugin_member Music ''setstate'' = Some (Action ''setstate'' [state_type])"
  "plugin_member Music ''setvolume'' = Some (Action ''setvolume'' [volume_type])"
  "plugin_member Music ''stop'' = Some (Action ''stop'' [])"
  "plugin_member Music ''play'' = Some (Action ''play'' [])"
  "plugin_member Music ''pause'' = Some (Action ''pause'' [])"
  "plugin_member Music ''state-switch'' = Some (Action ''state-switch'' [])"
  "plugin_member Music ''volume-more'' = Some (Action ''volume-more'' [])"
  "plugin_member Music ''volume-less'' = Some (Action ''volume-less'' [])"
  by (simp_all add: plugin_member_def plugin_class_defs net_builders)

lemma boolean_values [simp]: "checkArg v_on boolean_type = None" "checkArg v_off boolean_type = None"
  by (simp_all add: boolean_type_def netEnum_def checkArg_enum_iff)

subsection \<open>Creation\<close>

definition initial_values :: "plugin_kind \<Rightarrow> string \<rightharpoonup> jsval" where
  "initial_values k = map_of (plugin_initial k)"

definition plugin_publication :: "plugin_type \<Rightarrow> nat \<Rightarrow> container" where
  "plugin_publication pt r =
     \<lparr>ct_object = r, ct_channels = plugin_channels pt, ct_local = True, ct_link = Suc r\<rparr>"

definition plugin_published :: "string \<Rightarrow> plugin_type \<Rightarrow> world \<Rightarrow> world" where
  "plugin_published i pt w =
     w\<lparr>heap := (heap w)(fresh w \<mapsto>
         plugin_object i (pt_kind pt) (Suc (fresh w)) (initial_values (pt_kind pt))),
       fresh := fresh w + 2,
       repository := jset i (plugin_publication pt (fresh w)) (repository w),
       irc_log := irc_log w @ [IrcConnect (Suc (fresh w))
         (plugin_nick i (pt_kind pt) (initial_values (pt_kind pt))) (plugin_channels pt)]\<rparr>"

lemma instantiate_plugin_result:
  assumes "pt_class pt = plugin_class (pt_kind pt)"
  shows "instantiate_plugin depth i pt w =
    (Inr (plugin_publication pt (fresh w)), plugin_published i pt w)"
  using assms
  by (cases "pt_kind pt")
    (simp_all add: instantiate_plugin_def plugin_create_def netObject_def op_defs plugin_class_defs
      net_builders setAttribute_def set_attribute_with_def with_object_def getMember_def
      emit_with_def listeners_of_def add_listener_def map_listeners_def publish_def publishLocal_def
      makeNick_def object_attribute_def put_value_def checkArg_def new_id_def log_irc_def
      parse_int10_def parse_signed_def parse_digits_def is_digit_def is_space_def read_nat_def digit_val_def
      plugin_publication_def plugin_published_def plugin_object_def initial_values_def plugin_nick_def
      plugin_value_def init_values_def fun_eq_iff)

end
