(* ===== verification/Startup.thy ===== *)
theory Startup
  imports CoreSteps
begin

section \<open>Starting the process from its data file\<close>

text \<open>
  \<open>manager.initialize\<close> creates the stored hardware, then the plugins, then the links. When
  the data is well formed every creation succeeds and the started process runs exactly what
  the file says. The three loops share the contract \<open>loader\<close>.
\<close>

locale loader =
  fixes inv :: "'s \<Rightarrow> bool" and view :: "'s \<Rightarrow> 'g dict" and key :: "'g \<Rightarrow> string"
    and loads :: "'g \<Rightarrow> bool" and load :: "'g \<Rightarrow> ('s, 'x) op"
  assumes load_step: "inv s \<Longrightarrow> loads g \<Longrightarrow> key g \<notin> set (jkeys (view s)) \<Longrightarrow>
      \<exists>x s'. load g s = (Inr x, s') \<and> inv s' \<and> view s' = view s @ [(key g, g)]"
begin

lemma load_all:
  assumes "inv s" "\<forall>g \<in> set gs. loads g" "distinct (jkeys (view s) @ map key gs)"
  shows "\<exists>s'. forE gs (\<lambda>g. bindE (load g) (\<lambda>_. ret ())) s = (Inr (), s') \<and> inv s' \<and>
    view s' = view s @ map (\<lambda>g. (key g, g)) gs"
  using assms
proof (induction gs arbitrary: s)
  case Nil
  then show ?case by (simp add: op_defs)
next
  case (Cons g gs)
  then obtain x s1 where s1: "load g s = (Inr x, s1)" "inv s1" "view s1 = view s @ [(key g, g)]"
    using load_step[of s g] by auto
  with Cons.prems obtain s' where "forE gs (\<lambda>g. bindE (load g) (\<lambda>_. ret ())) s1 = (Inr (), s')"
      "inv s'" "view s' = view s1 @ map (\<lambda>g. (key g, g)) gs"
    using Cons.IH[of s1] by auto
  with s1 show ?case by (fastforce simp: op_result_iffs)
qed

end

subsection \<open>Well-formed data\<close>

text \<open>
  The data of a running process: entries under their own keys, a class for every hardware
  component, a loadable type for every plugin and existing ends for every link.
\<close>

definition well_formed_data :: "plugin_type dict \<Rightarrow> persisted \<Rightarrow> bool" where
  "well_formed_data types d \<longleftrightarrow>
     keyed pc_id (ps_plugins d) \<and> keyed hc_id (ps_hardware d) \<and> keyed makeId (ps_links d) \<and>
     (\<forall>(k, cfg) \<in> set (ps_hardware d). hc_class cfg \<noteq> None) \<and>
     (\<forall>(k, cfg) \<in> set (ps_plugins d). jget types (pc_type cfg) \<noteq> None) \<and>
     (\<forall>(k, cfg) \<in> set (ps_links d).
        {sourceComponent cfg, destinationComponent cfg} \<subseteq> set (jkeys (ps_plugins d)) \<union> set (jkeys (ps_hardware d)))"

lemma keyed_configs: "keyed key d \<Longrightarrow> map (\<lambda>g. (key g, g)) (map snd d) = d"
  by (force simp: keyed_def intro: map_idI)

lemma keyed_distinct: "keyed key d \<Longrightarrow> distinct (map key (map snd d))"
proof -
  assume k: "keyed key d"
  then have "map key (map snd d) = jkeys d" by (auto simp: keyed_def)
  with k show ?thesis by (metis keyed_def)
qed

definition types_available :: "(string \<Rightarrow> js_error + plugin_kind) \<Rightarrow> (string \<Rightarrow> string) \<Rightarrow> plugin_type dict \<Rightarrow> core \<Rightarrow> bool" where
  "types_available require icon types c \<longleftrightarrow>
     pluginTypes c = Some types \<or>
     pluginTypes c = None \<and> refresh_files require icon (plugin_dir c) [] = (None, types)"

lemma checkPluginTypes_available:
  "types_available require icon types c \<Longrightarrow>
     checkPluginTypes require icon c = (Inr (), c\<lparr>pluginTypes := Some types\<rparr>)"
  by (auto simp: types_available_def checkPluginTypes_def refreshPluginTypes_def)

definition types_sound :: "plugin_type dict \<Rightarrow> bool" where
  "types_sound types \<longleftrightarrow> (\<forall>(n, pt) \<in> set types. pt_class pt = plugin_class (pt_kind pt))"

lemma refresh_files_sound:
  "refresh_files require icon fs types = (e, types') \<Longrightarrow> types_sound types \<Longrightarrow> types_sound types'"
proof (induction fs arbitrary: types)
  case (Cons f fs)
  have "types_sound (jset n (make_plugin_type icon n k) types)" for n k
    using Cons.prems(2) by (auto simp: types_sound_def make_plugin_type_def dest!: set_jset_cases)
  with Cons show ?case by (auto split: if_splits sum.splits)
qed simp

lemma types_sound_jget: "types_sound types \<Longrightarrow> jget types n = Some pt \<Longrightarrow> pt_class pt = plugin_class (pt_kind pt)"
  by (auto simp: types_sound_def dest: map_of_SomeD)

subsection \<open>Creation succeeds\<close>

lemma instantiate_plugin_succeeds:
  assumes "pt_class pt = plugin_class (pt_kind pt)"
  shows "\<exists>ct w'. instantiate_plugin depth i pt w = (Inr ct, w') \<and> watcher w' = watcher w \<and> watchers w' = watchers w \<and>
    ct_local ct"
  using assms
  by (cases "pt_kind pt")
    (simp_all add: instantiate_plugin_def plugin_create_def netObject_def op_defs plugin_class_defs
      net_builders setAttribute_def set_attribute_with_def with_object_def getMember_def
      emit_with_def listeners_of_def add_listener_def map_listeners_def publish_def publishLocal_def
      makeNick_def object_attribute_def put_value_def checkArg_def new_id_def log_irc_def
      parse_int10_def parse_signed_def parse_digits_def is_digit_def is_space_def read_nat_def digit_val_def)

text \<open>The current watcher is there, and watchers once created are never forgotten.\<close>

definition watchers_kept :: "world \<Rightarrow> world \<Rightarrow> bool" where
  "watchers_kept w w' \<longleftrightarrow> (\<forall>wid. watchers w wid \<noteq> None \<longrightarrow> watchers w' wid \<noteq> None)"

lemma watchers_kept_trans: "watchers_kept w w1 \<Longrightarrow> watchers_kept w1 w2 \<Longrightarrow> watchers_kept w w2"
  by (simp add: watchers_kept_def)

definition watcher_loaded :: "world \<Rightarrow> bool" where
  "watcher_loaded w \<longleftrightarrow> (\<forall>wid. watcher w = Some wid \<longrightarrow> watchers w wid \<noteq> None)"

lemma loadWatcher_loaded:
  assumes "watcher_loaded w"
  obtains wid w' where "loadWatcher w = (Inr wid, w')" "watcher w' = Some wid" "watchers w' wid \<noteq> None"
    "heap w' = heap w" "watchers_kept w w'"
  using assms
  by (cases "watcher w") (auto simp: loadWatcher_def watcher_loaded_def watchers_kept_def Let_def intro: that)

lemma addChannel_loaded:
  assumes "watchers w wid \<noteq> None"
  obtains w' where "addChannel wid ch w = (Inr (), w')" "watcher w' = watcher w" "watchers w' wid \<noteq> None"
    "heap w' = heap w" "watchers_kept w w'"
proof -
  have "\<exists>w'. addChannel wid ch w = (Inr (), w') \<and> watcher w' = watcher w \<and> watchers w' wid \<noteq> None \<and> heap w' = heap w \<and>
      watchers_kept w w'"
    using assms
    by (auto simp: watchers_kept_def addChannel_def with_watcher_def put_watcher_def op_defs log_irc_def
        split: option.split nat.split)
  with that show thesis by blast
qed

lemma publishRemote_succeeds:
  assumes "watcher_loaded w" "heap w r \<noteq> None"
  shows "\<exists>ct w'. publish r [ch] False w = (Inr ct, w') \<and> watcher_loaded w' \<and> watchers_kept w w' \<and>
    \<not> ct_local ct \<and> watchers w' (ct_link ct) \<noteq> None"
proof -
  obtain wid w1 where w1: "loadWatcher w = (Inr wid, w1)" "watcher w1 = Some wid" "watchers w1 wid \<noteq> None"
      "heap w1 = heap w" "watchers_kept w w1" using loadWatcher_loaded[OF assms(1)] .
  obtain w2 where w2: "addChannel wid ch w1 = (Inr (), w2)" "watcher w2 = watcher w1"
      "watchers w2 wid \<noteq> None" "heap w2 = heap w1" "watchers_kept w1 w2" using addChannel_loaded[OF w1(3)] .
  have "\<exists>ct w'. publish r [ch] False w = (Inr ct, w') \<and> watcher_loaded w' \<and> watchers_kept w2 w' \<and>
    \<not> ct_local ct \<and> watchers w' (ct_link ct) \<noteq> None"
    using w1(1-4) w2(1-4) assms(2)
    by (auto simp: publish_def publishRemote_def op_defs addObject_def with_watcher_def with_object_def
        put_watcher_def add_listener_def map_listeners_def watcher_loaded_def watchers_kept_def)
  then show ?thesis using watchers_kept_trans[OF w1(5) w2(5)] watchers_kept_trans by blast
qed

lemma connect_link_succeeds:
  assumes "{sourceComponent cfg, destinationComponent cfg} \<subseteq> set (jkeys (repository w))"
  shows "\<exists>sh w'. connect_link cfg w = (Inr sh, w') \<and> watcher w' = watcher w \<and> watchers w' = watchers w"
proof -
  from assms obtain a b where "jget (repository w) (sourceComponent cfg) = Some a"
      "jget (repository w) (destinationComponent cfg) = Some b"
    unfolding jd.dkeys_dget by blast
  then show ?thesis
    by (simp add: connect_link_def op_defs repository_object_def new_id_def add_listener_def
        map_listeners_def Let_def)
qed


subsection \<open>The three loops of the start\<close>

text \<open>
  What holds while the process starts from the data \<open>d\<close>: the running invariant, every component is
  published, plugins locally and hardware through a watcher, and the data is not touched.
\<close>

definition containers_ok :: "core \<Rightarrow> bool" where
  "containers_ok c \<longleftrightarrow> (\<forall>(k, x) \<in> set (pluginContainers c). ct_local (pk_net x)) \<and>
     (\<forall>(k, x) \<in> set (hardware c). \<not> ct_local (hi_container x) \<and> watchers (net c) (ct_link (hi_container x)) \<noteq> None)"

lemma containers_ok_mono:
  assumes "containers_ok c" "watchers_kept (net c) (net c')"
    and "\<forall>(k, x) \<in> set (pluginContainers c'). (k, x) \<in> set (pluginContainers c) \<or> ct_local (pk_net x)"
    and "\<forall>(k, x) \<in> set (hardware c'). (k, x) \<in> set (hardware c) \<or>
      \<not> ct_local (hi_container x) \<and> watchers (net c') (ct_link (hi_container x)) \<noteq> None"
  shows "containers_ok c'"
  using assms unfolding containers_ok_def watchers_kept_def by fast

definition starting :: "(string \<Rightarrow> js_error + plugin_kind) \<Rightarrow> (string \<Rightarrow> string) \<Rightarrow> plugin_type dict \<Rightarrow>
    persisted \<Rightarrow> core \<Rightarrow> bool" where
  "starting require icon types d c \<longleftrightarrow>
     running_inv c \<and> watcher_loaded (net c) \<and> containers_ok c \<and> component_ids c \<subseteq> set (jkeys (repository (net c))) \<and>
     types_available require icon types c \<and> types_sound types \<and>
     data_cache c = Some d \<and> data_file c = Some d"

lemma jset_new: "k \<notin> set (jkeys m) \<Longrightarrow> jset k v m = m @ [(k, v)]"
  by (induction m) auto

lemma dmap_append [simp]: "dmap f (xs @ ys) = dmap f xs @ dmap f ys" "dmap f [(k, v)] = [(k, f v)]"
  by (simp_all add: dmap_def)

lemma jget_new: "k \<notin> set (jkeys m) \<Longrightarrow> jget m k = None"
  by (simp add: map_of_eq_None_iff)

lemma create_hardware_loads:
  assumes st: "starting require icon types d c" and "hc_class cfg \<noteq> None"
    and new: "hc_id cfg \<notin> set (jkeys (hardware c))"
  shows "\<exists>x c'. create_hardware cfg c = (Inr x, c') \<and> starting require icon types d c' \<and>
    dmap hi_config (hardware c') = dmap hi_config (hardware c) @ [(hc_id cfg, cfg)] \<and>
    pluginContainers c' = pluginContainers c \<and> links c' = links c"
proof -
  obtain cl where cl: "hc_class cfg = Some cl" using assms(2) by blast
  obtain r w1 where n: "netObject (hc_id cfg) cl (net c) = (Inr r, w1)" by (simp add: netObject_def)
  have "heap w1 r \<noteq> None" "watcher_loaded w1"
    using n st by (auto simp: netObject_def starting_def watcher_loaded_def)
  then obtain ct w where p: "publish r [''#mylife-home-hardware''] False w1 = (Inr ct, w)"
      and wl: "watcher_loaded w" "watchers_kept w1 w" "\<not> ct_local ct" "watchers w (ct_link ct) \<noteq> None"
    using publishRemote_succeeds by metis
  define x where "x = \<lparr>hi_id = hc_id cfg, hi_config = cfg, hi_object = r, hi_container = ct\<rparr>"
  define c' where "c' = c\<lparr>net := w, hardware := jset (hc_id cfg) x (hardware c)\<rparr>"
  have eq: "create_hardware cfg c = (Inr x, c')"
    using jget_new[OF new] cl n p
    by (simp add: create_hardware_def op_defs lift_net_def x_def c'_def Let_def)
  have inv: "running_inv c'" using running_inv_create_hardware[OF _ eq] st by (simp add: starting_def)
  have "repository w = jset (hc_id cfg) ct (repository (net c))"
    using publish_ok(3)[OF p netObject_has_id[OF n]] netObject_frame(1)[of "hc_id cfg" cl "net c"] n by simp
  then have "set (jkeys (repository w)) = insert (hc_id cfg) (set (jkeys (repository (net c))))"
    by (simp only: jd.keys_dset)
  moreover have "component_ids c' = insert (hc_id cfg) (component_ids c)"
    by (simp only: c'_def component_ids_insert)
  moreover have "net c' = w" by (simp add: c'_def)
  ultimately have "component_ids c' \<subseteq> set (jkeys (repository (net c')))"
    using st by (auto simp only: starting_def)
  moreover have "containers_ok c'"
    by (rule containers_ok_mono[of c])
      (use st wl n in \<open>auto simp: starting_def c'_def x_def watchers_kept_def netObject_def dest!: set_jset_cases\<close>)
  ultimately have "starting require icon types d c'"
    using st inv wl(1) by (simp add: starting_def c'_def types_available_def)
  with eq new show ?thesis by (simp add: c'_def x_def jset_new)
qed

lemma create_plugin_loads:
  assumes st: "starting require icon types d c" and ty: "jget types (pc_type cfg) \<noteq> None"
    and new: "pc_id cfg \<notin> set (jkeys (pluginContainers c))"
  shows "\<exists>x c'. create_plugin depth require icon cfg c = (Inr x, c') \<and> starting require icon types d c' \<and>
    dmap pk_config (pluginContainers c') = dmap pk_config (pluginContainers c) @ [(pc_id cfg, cfg)] \<and>
    hardware c' = hardware c \<and> links c' = links c"
proof -
  obtain pt where pt: "jget types (pc_type cfg) = Some pt" using ty by blast
  then have "pt_class pt = plugin_class (pt_kind pt)"
    using st by (auto simp: starting_def intro: types_sound_jget)
  then obtain ct w where i: "instantiate_plugin depth (pc_id cfg) pt (net c) = (Inr ct, w)"
      and wl: "watcher w = watcher (net c)" "watchers w = watchers (net c)" "ct_local ct"
    using instantiate_plugin_succeeds by metis
  define x where "x = \<lparr>pk_id = pc_id cfg, pk_typeId = pt_id pt, pk_config = cfg, pk_net = ct\<rparr>"
  define c' where "c' = c\<lparr>net := w, pluginTypes := Some types,
      pluginContainers := jset (pc_id cfg) x (pluginContainers c)\<rparr>"
  have "checkPluginTypes require icon c = (Inr (), c\<lparr>pluginTypes := Some types\<rparr>)"
    using st by (intro checkPluginTypes_available) (simp add: starting_def)
  then have eq: "create_plugin depth require icon cfg c = (Inr x, c')"
    using jget_new[OF new] pt i
    by (simp add: create_plugin_def op_defs lift_net_def readE_def x_def c'_def Let_def)
  have inv: "running_inv c'" using running_inv_create_plugin[OF _ eq] st by (simp add: starting_def)
  have "repository w = jset (pc_id cfg) ct (repository (net c))"
    by (rule instantiate_plugin_ok[OF i])
  then have "set (jkeys (repository w)) = insert (pc_id cfg) (set (jkeys (repository (net c))))"
    by (simp only: jd.keys_dset)
  moreover have "component_ids c' = insert (pc_id cfg) (component_ids c)"
    by (simp only: c'_def component_ids_insert)
  moreover have "net c' = w" by (simp add: c'_def)
  ultimately have "component_ids c' \<subseteq> set (jkeys (repository (net c')))"
    using st by (auto simp only: starting_def)
  moreover have "containers_ok c'"
    by (rule containers_ok_mono[of c])
      (use st wl in \<open>auto simp: starting_def c'_def x_def watchers_kept_def dest!: set_jset_cases\<close>)
  ultimately have "starting require icon types d c'"
    using st inv wl by (simp add: starting_def c'_def types_available_def watcher_loaded_def)
  with eq new show ?thesis by (simp add: c'_def x_def jset_new)
qed

lemma create_link_loads:
  assumes st: "starting require icon types d c"
    and ends: "{sourceComponent cfg, destinationComponent cfg} \<subseteq> component_ids c"
    and new: "makeId cfg \<notin> set (jkeys (links c))"
  shows "\<exists>x c'. create_link cfg c = (Inr x, c') \<and> starting require icon types d c' \<and>
    dmap li_config (links c') = dmap li_config (links c) @ [(makeId cfg, cfg)] \<and>
    pluginContainers c' = pluginContainers c \<and> hardware c' = hardware c"
proof -
  obtain sh w where k: "connect_link cfg (net c) = (Inr sh, w)" "watcher w = watcher (net c)"
      "watchers w = watchers (net c)"
    using connect_link_succeeds[of cfg "net c"] st ends by (fastforce simp: starting_def)
  obtain src h where sh: "sh = (src, h)" by (cases sh)
  define x where "x = \<lparr>li_id = makeId cfg, li_config = cfg, li_source = src, li_handler = h\<rparr>"
  define c' where "c' = c\<lparr>net := w, links := jset (makeId cfg) x (links c)\<rparr>"
  have eq: "create_link cfg c = (Inr x, c')"
    using jget_new[OF new] k sh
    by (simp add: create_link_def op_defs lift_net_def x_def c'_def Let_def)
  have inv: "running_inv c'" using running_inv_create_link[OF _ eq] st by (simp add: starting_def)
  have "repository w = repository (net c)"
    using along_result[OF connect_link_along(2) k(1)] by (simp add: same_repository_def)
  then have "component_ids c' \<subseteq> set (jkeys (repository (net c')))"
    using st by (auto simp: c'_def starting_def component_ids_def)
  moreover have "containers_ok c'"
    using st k by (simp add: starting_def c'_def containers_ok_def)
  ultimately have "starting require icon types d c'"
    using st inv k by (simp add: starting_def c'_def types_available_def watcher_loaded_def)
  with eq new show ?thesis by (simp add: c'_def x_def jset_new)
qed

interpretation hload: loader
  "\<lambda>c. starting require icon types d c \<and> pluginContainers c = [] \<and> links c = []"
  "\<lambda>c. dmap hi_config (hardware c)" hc_id "\<lambda>cfg. hc_class cfg \<noteq> None" create_hardware
  for require icon types d
proof unfold_locales
  fix c and cfg :: hw_config
  assume "starting require icon types d c \<and> pluginContainers c = [] \<and> links c = []" "hc_class cfg \<noteq> None"
    "hc_id cfg \<notin> set (jkeys (dmap hi_config (hardware c)))"
  then show "\<exists>x c'. create_hardware cfg c = (Inr x, c') \<and>
      (starting require icon types d c' \<and> pluginContainers c' = [] \<and> links c' = []) \<and>
      dmap hi_config (hardware c') = dmap hi_config (hardware c) @ [(hc_id cfg, cfg)]"
    using create_hardware_loads[of require icon types d c cfg] by auto
qed

interpretation pload: loader
  "\<lambda>c. starting require icon types d c \<and> dmap hi_config (hardware c) = H \<and> links c = []"
  "\<lambda>c. dmap pk_config (pluginContainers c)" pc_id "\<lambda>cfg. jget types (pc_type cfg) \<noteq> None"
  "create_plugin depth require icon"
  for depth require icon types d H
proof unfold_locales
  fix c and cfg :: plugin_config
  assume "starting require icon types d c \<and> dmap hi_config (hardware c) = H \<and> links c = []"
    "jget types (pc_type cfg) \<noteq> None" "pc_id cfg \<notin> set (jkeys (dmap pk_config (pluginContainers c)))"
  then show "\<exists>x c'. create_plugin depth require icon cfg c = (Inr x, c') \<and>
      (starting require icon types d c' \<and> dmap hi_config (hardware c') = H \<and> links c' = []) \<and>
      dmap pk_config (pluginContainers c') = dmap pk_config (pluginContainers c) @ [(pc_id cfg, cfg)]"
    using create_plugin_loads[of require icon types d c cfg depth] by auto
qed

interpretation lload: loader
  "\<lambda>c. starting require icon types d c \<and> dmap hi_config (hardware c) = H \<and> dmap pk_config (pluginContainers c) = P"
  "\<lambda>c. dmap li_config (links c)" makeId
  "\<lambda>cfg. {sourceComponent cfg, destinationComponent cfg} \<subseteq> set (jkeys P) \<union> set (jkeys H)" create_link
  for require icon types d H P
proof unfold_locales
  fix c cfg
  assume a: "starting require icon types d c \<and> dmap hi_config (hardware c) = H \<and>
      dmap pk_config (pluginContainers c) = P"
    "{sourceComponent cfg, destinationComponent cfg} \<subseteq> set (jkeys P) \<union> set (jkeys H)"
    "makeId cfg \<notin> set (jkeys (dmap li_config (links c)))"
  have "set (jkeys P) \<union> set (jkeys H) = component_ids c"
    using a(1) jkeys_dmap[of pk_config "pluginContainers c"] jkeys_dmap[of hi_config "hardware c"]
    by (simp add: component_ids_def)
  then have ends: "{sourceComponent cfg, destinationComponent cfg} \<subseteq> component_ids c"
    using a(2) by (simp only:)
  have "starting require icon types d c" "makeId cfg \<notin> set (jkeys (links c))"
    using a(1,3) by simp_all
  from create_link_loads[OF this(1) ends this(2)] a(1)
  show "\<exists>x c'. create_link cfg c = (Inr x, c') \<and>
      (starting require icon types d c' \<and> dmap hi_config (hardware c') = H \<and>
       dmap pk_config (pluginContainers c') = P) \<and>
      dmap li_config (links c') = dmap li_config (links c) @ [(makeId cfg, cfg)]"
    by auto
qed

lemma starting_cache: "starting require icon types d c \<Longrightarrow> getData f c = (Inr (f d), c)"
  by (simp add: starting_def getData_def checkData_def readE_def op_defs)

lemma initialize_loads:
  assumes files: "refresh_files require icon files [] = (None, types)"
    and wf: "well_formed_data types d"
  shows "\<exists>c. initialize depth require icon (fresh_process nick files (Some d) uf) = (Inr (), c) \<and>
    starting require icon types d c \<and> dmap hi_config (hardware c) = ps_hardware d \<and>
    dmap pk_config (pluginContainers c) = ps_plugins d \<and> dmap li_config (links c) = ps_links d"
proof -
  define s0 where "s0 = (fresh_process nick files (Some d) uf)\<lparr>data_cache := Some d\<rparr>"
  have "types_sound types" by (rule refresh_files_sound[OF files]) (simp add: types_sound_def)
  then have s0: "starting require icon types d s0 \<and> pluginContainers s0 = [] \<and> links s0 = []"
    using files
    by (simp add: starting_def s0_def fresh_process_def empty_world_def running_inv_def watcher_loaded_def
        component_ids_def types_available_def preg.well_keyed_def hreg.well_keyed_def
        lreg.well_keyed_def links_connected_def published_owned_def objects_owned_def world_typed_def containers_ok_def)
  have k: "keyed pc_id (ps_plugins d)" "keyed hc_id (ps_hardware d)" "keyed makeId (ps_links d)"
    and ok: "\<forall>g \<in> set (map snd (ps_hardware d)). hc_class g \<noteq> None"
      "\<forall>g \<in> set (map snd (ps_plugins d)). jget types (pc_type g) \<noteq> None"
      "\<forall>g \<in> set (map snd (ps_links d)). {sourceComponent g, destinationComponent g} \<subseteq>
         set (jkeys (ps_plugins d)) \<union> set (jkeys (ps_hardware d))"
    using wf by (auto simp: well_formed_data_def)
  note kc = keyed_configs[OF k(1)] keyed_configs[OF k(2)] keyed_configs[OF k(3)]
  have "dmap hi_config (hardware s0) = []" by (simp add: s0_def fresh_process_def)
  then obtain s1 where s1: "forE (map snd (ps_hardware d)) (\<lambda>cfg. bindE (create_hardware cfg) (\<lambda>_. ret ())) s0 = (Inr (), s1)"
      "starting require icon types d s1" "pluginContainers s1 = []" "links s1 = []"
      "dmap hi_config (hardware s1) = ps_hardware d"
    using hload.load_all[OF s0 ok(1)] keyed_distinct[OF k(2)] by (auto simp only: kc append_Nil list.map)
  have i1: "starting require icon types d s1 \<and> dmap hi_config (hardware s1) = ps_hardware d \<and> links s1 = []"
    and v1: "dmap pk_config (pluginContainers s1) = []" using s1 by simp_all
  obtain s2 where s2: "forE (map snd (ps_plugins d)) (\<lambda>cfg. bindE (create_plugin depth require icon cfg) (\<lambda>_. ret ())) s1 = (Inr (), s2)"
      "starting require icon types d s2" "dmap hi_config (hardware s2) = ps_hardware d" "links s2 = []"
      "dmap pk_config (pluginContainers s2) = ps_plugins d"
    using pload.load_all[OF i1 ok(2), of depth] keyed_distinct[OF k(1)]
    by (auto simp only: kc v1 append_Nil list.map)
  have i2: "starting require icon types d s2 \<and> dmap hi_config (hardware s2) = ps_hardware d \<and>
      dmap pk_config (pluginContainers s2) = ps_plugins d"
    and v2: "dmap li_config (links s2) = []" using s2 by simp_all
  obtain s3 where s3: "forE (map snd (ps_links d)) (\<lambda>cfg. bindE (create_link cfg) (\<lambda>_. ret ())) s2 = (Inr (), s3)"
      "starting require icon types d s3" "dmap hi_config (hardware s3) = ps_hardware d"
      "dmap pk_config (pluginContainers s3) = ps_plugins d" "dmap li_config (links s3) = ps_links d"
    using lload.load_all[OF i2 ok(3)] keyed_distinct[OF k(3)]
    by (auto simp only: kc v2 append_Nil list.map)
  have "data_getHardware (fresh_process nick files (Some d) uf) = (Inr (ps_hardware d), s0)"
    by (simp add: data_getHardware_def getData_def checkData_def s0_def fresh_process_def op_defs readE_def)
  moreover have "data_getPlugins s1 = (Inr (ps_plugins d), s1)" "data_getLinks s2 = (Inr (ps_links d), s2)"
    by (simp_all add: data_getPlugins_def data_getLinks_def starting_cache[OF s1(2)] starting_cache[OF s2(2)])
  ultimately have "initialize depth require icon (fresh_process nick files (Some d) uf) = (Inr (), s3)"
    using s1(1) s2(1) s3(1) by (simp add: initialize_def bindE_def seqE_def)
  with s3 show ?thesis by blast
qed

lemma starting_core_inv:
  assumes "starting require icon types d c" "dmap hi_config (hardware c) = ps_hardware d"
    "dmap pk_config (pluginContainers c) = ps_plugins d" "dmap li_config (links c) = ps_links d"
  shows "core_inv c"
  using assms by (simp add: starting_def core_inv_def data_synced_def)

end
