(* ===== verification/Sample.thy ===== *)
theory Sample
  imports Startup PluginLaws
begin

section \<open>A sample installation\<close>

text \<open>
  A small configuration on which the properties are instantiated: a button \<open>btn\<close>, a step
  relay \<open>relay\<close>, a light \<open>lamp\<close> and a relay board \<open>board\<close> in another process; the button drives the relay,
  the relay drives the light and the board.
\<close>

definition sample_icon :: "string \<Rightarrow> string" where
  "sample_icon name = ''data:image/png;base64,''"

definition sample_plugin :: "string \<Rightarrow> string \<Rightarrow> plugin_config" where
  "sample_plugin i ty = \<lparr>pc_id = i, pc_type = ty, pc_parameters = [], pc_designer = None\<rparr>"

definition board_class :: net_class where
  "board_class = netClass [netAttribute ''state'' boolean_type, netAction ''drive'' [boolean_type]]"

definition sample_board :: hw_config where
  "sample_board = \<lparr>hc_id = ''board'', hc_class = Some board_class, hc_designer = Some (10, 20)\<rparr>"

definition sample_link :: "string \<Rightarrow> string \<Rightarrow> string \<Rightarrow> string \<Rightarrow> link_config" where
  "sample_link s a d t = \<lparr>sourceComponent = s, sourceAttribute = a, destinationComponent = d, destinationAction = t\<rparr>"

definition link_btn :: link_config where
  "link_btn = sample_link ''btn'' ''output'' ''relay'' ''input''"

definition link_lamp :: link_config where
  "link_lamp = sample_link ''relay'' ''output'' ''lamp'' ''input''"

definition link_board :: link_config where
  "link_board = sample_link ''relay'' ''output'' ''board'' ''drive''"

definition sample_data :: persisted where
  "sample_data =
     \<lparr>ps_hardware = [(''board'', sample_board)],
      ps_plugins = [(''btn'', sample_plugin ''btn'' ''button''), (''relay'', sample_plugin ''relay'' ''stepRelay''),
                    (''lamp'', sample_plugin ''lamp'' ''light'')],
      ps_links = [(makeId link_btn, link_btn), (makeId link_lamp, link_lamp), (makeId link_board, link_board)]\<rparr>"

definition sample_types :: "plugin_type dict" where
  "sample_types = snd (refresh_files repo_require sample_icon repo_plugin_dir [])"

definition sample_core :: core where
  "sample_core = snd (initialize 20 repo_require sample_icon
     (fresh_process ''node-1'' repo_plugin_dir (Some sample_data) None))"

lemmas sample_defs = sample_icon_def sample_plugin_def board_class_def sample_board_def sample_link_def
  link_btn_def link_lamp_def link_board_def sample_data_def

lemma sample_files: "refresh_files repo_require sample_icon repo_plugin_dir [] = (None, sample_types)"
  by code_simp

lemma sample_well_formed: "well_formed_data sample_types sample_data"
  by code_simp

lemma sample_starting:
  "starting repo_require sample_icon sample_types sample_data sample_core"
  using initialize_loads[OF sample_files sample_well_formed, of 20 "''node-1''" None]
  by (auto simp: sample_core_def)

lemma sample_loaded:
  "core_inv sample_core" "dmap hi_config (hardware sample_core) = ps_hardware sample_data"
  "dmap pk_config (pluginContainers sample_core) = ps_plugins sample_data"
  "dmap li_config (links sample_core) = ps_links sample_data"
  using initialize_loads[OF sample_files sample_well_formed, of 20 "''node-1''" None]
  by (auto simp: sample_core_def dest: starting_core_inv)


text \<open>A smaller process: a button \<open>btn\<close> and a light \<open>lamp\<close>, published, not yet linked.\<close>

definition sample_pt :: "plugin_kind \<Rightarrow> plugin_type" where
  "sample_pt k = make_plugin_type sample_icon ''sample'' k"

definition sample_net :: world where
  "sample_net = plugin_published ''lamp'' (sample_pt Light)
     (plugin_published ''btn'' (sample_pt Button) (empty_world ''node-1''))"

definition sample_pair :: core where
  "sample_pair = (fresh_process ''node-1'' repo_plugin_dir None None)\<lparr>net := sample_net\<rparr>"

definition link_pair :: link_config where
  "link_pair = sample_link ''btn'' ''output'' ''lamp'' ''input''"

definition sample_linked :: core where
  "sample_linked = snd (create_link link_pair sample_pair)"

definition sample_link_item :: link_item where
  "sample_link_item = \<lparr>li_id = makeId link_pair, li_config = link_pair, li_source = 0,
     li_handler = LinkListener 4 0 2 link_pair\<rparr>"

lemma sample_net_repository:
  "jget (repository sample_net) ''btn'' = Some (plugin_publication (sample_pt Button) 0)"
  "jget (repository sample_net) ''lamp'' = Some (plugin_publication (sample_pt Light) 2)"
  "fresh sample_net = 4"
  by (simp_all add: sample_net_def plugin_published_def empty_world_def numeral_2_eq_2)

lemma sample_linked_result: "create_link link_pair sample_pair = (Inr sample_link_item, sample_linked)"
proof -
  have "fst (create_link link_pair sample_pair) = Inr sample_link_item"
    by (simp add: create_link_def sample_pair_def fresh_process_def lift_net_def connect_link_def
        op_defs repository_object_def sample_net_repository link_pair_def sample_link_def Let_def new_id_def
        plugin_publication_def add_listener_def map_listeners_def sample_link_item_def)
  then show ?thesis by (simp add: sample_linked_def prod_eq_iff)
qed

lemma sample_net_heap:
  "heap sample_net 0 = Some (plugin_object ''btn'' Button 1 (initial_values Button))"
  "heap sample_net 2 = Some (plugin_object ''lamp'' Light 3 (initial_values Light))"
  by (simp_all add: sample_net_def plugin_published_def empty_world_def sample_pt_def make_plugin_type_def
      numeral_2_eq_2 numeral_3_eq_3)

lemma plugin_published_typed:
  assumes "world_typed w" "pt_class pt = plugin_class (pt_kind pt)"
  shows "world_typed (plugin_published i pt w)"
  using along_result[OF instantiate_plugin_along(2) instantiate_plugin_result[OF assms(2), of 0 i w]] assms(1)
  by (simp add: keeps_def)

lemma sample_net_typed: "world_typed sample_net"
proof -
  have "world_typed (empty_world ''node-1'')" by (simp add: world_typed_def empty_world_def)
  then show ?thesis
    unfolding sample_net_def by (intro plugin_published_typed) (simp_all add: sample_pt_def make_plugin_type_def)
qed

end
