(* ===== verification/CoreProps.thy ===== *)
theory CoreProps
  imports Sample "HOL-Library.Multiset"
begin

section \<open>Properties of the manager\<close>

text \<open>
  What the core process promises across its modules: the invariant of a running process, starting
  and restarting from the data file, the guards of the removals, and what the code leaves behind
  when a link is destroyed or the process terminates. Each property is instantiated on the
  sample installation.
\<close>

subsection \<open>Helpers\<close>

lemma running_data: "core_inv c \<Longrightarrow> \<exists>d. data_file c = Some d \<and>
    ps_plugins d = dmap pk_config (pluginContainers c) \<and> ps_hardware d = dmap hi_config (hardware c) \<and>
    ps_links d = dmap li_config (links c)"
  by (auto simp: core_inv_def data_synced_def)

lemma keyed_dmap: "keyed (key \<circ> f) d \<Longrightarrow> keyed key (dmap f d)"
  by (auto simp: keyed_def dmap_def case_prod_beta comp_def)

lemma set_dmap: "set (dmap f d) = (\<lambda>(k, x). (k, f x)) ` set d"
  by (simp add: dmap_def)

lemma running_well_formed:
  assumes "core_inv c" "data_file c = Some d"
    and hw: "\<forall>(k, x) \<in> set (hardware c). hc_class (hi_config x) \<noteq> None"
    and ty: "\<forall>(k, x) \<in> set (pluginContainers c). jget types (pc_type (pk_config x)) \<noteq> None"
  shows "well_formed_data types d"
proof -
  have d: "ps_plugins d = dmap pk_config (pluginContainers c)" "ps_hardware d = dmap hi_config (hardware c)"
      "ps_links d = dmap li_config (links c)"
    using running_data[OF assms(1)] assms(2) by simp_all
  have r: "preg.well_keyed c" "hreg.well_keyed c" "lreg.well_keyed c" "links_connected c"
    using assms(1) by (simp_all add: core_inv_def running_inv_def)
  have k: "keyed pc_id (ps_plugins d)" "keyed hc_id (ps_hardware d)" "keyed makeId (ps_links d)"
    using r unfolding d by (simp_all add: preg.well_keyed_def hreg.well_keyed_def lreg.well_keyed_def keyed_dmap)
  have "\<forall>(k, cfg) \<in> set (ps_links d). {sourceComponent cfg, destinationComponent cfg} \<subseteq>
      set (jkeys (ps_plugins d)) \<union> set (jkeys (ps_hardware d))"
    using r(4) unfolding d jkeys_dmap links_connected_def component_ids_def set_dmap by auto
  moreover have "\<forall>(k, cfg) \<in> set (ps_hardware d). hc_class cfg \<noteq> None"
    using hw unfolding d set_dmap by auto
  moreover have "\<forall>(k, cfg) \<in> set (ps_plugins d). jget types (pc_type cfg) \<noteq> None"
    using ty unfolding d set_dmap by auto
  ultimately show ?thesis using k unfolding well_formed_data_def by blast
qed

lemma sample_configs:
  "\<forall>(k, x) \<in> set (hardware sample_core). hc_class (hi_config x) \<noteq> None"
  "\<forall>(k, x) \<in> set (pluginContainers sample_core). jget sample_types (pc_type (pk_config x)) \<noteq> None"
proof -
  have "\<forall>(k, x) \<in> set (dmap hi_config (hardware sample_core)). hc_class x \<noteq> None"
    unfolding sample_loaded by code_simp
  then show "\<forall>(k, x) \<in> set (hardware sample_core). hc_class (hi_config x) \<noteq> None"
    unfolding set_dmap by auto
  have "\<forall>(k, x) \<in> set (dmap pk_config (pluginContainers sample_core)). jget sample_types (pc_type x) \<noteq> None"
    unfolding sample_loaded by code_simp
  then show "\<forall>(k, x) \<in> set (pluginContainers sample_core). jget sample_types (pc_type (pk_config x)) \<noteq> None"
    unfolding set_dmap by auto
qed

lemma removal_refused:
  assumes "(lid, li) \<in> set (links c)" "uses_component i (li_config li)"
  shows "\<exists>lid'. checkLink i c = (Inl (UsedInLink i lid'), c)"
proof -
  have "find (\<lambda>(lid, li). uses_component i (li_config li)) (links c) \<noteq> None"
    using assms by (auto simp: find_None_iff)
  then show ?thesis by (auto simp: checkLink_def)
qed

subsection \<open>The invariant, start and restart\<close>

text \<open>
  C1: Whatever sequence of requests, messages, connection events and timers a running core process
  receives, errors included, it keeps its invariant: registries keyed by their ids, links between
  existing components only, well-typed attributes, and a data file that describes exactly what
  runs.
\<close>

theorem run_keeps_invariant:
  assumes "core_inv c"
  shows "core_inv (core_run depth require icon inputs c)"
  using assms by (rule core_inv_run)

theorem run_keeps_invariant_witness:
  "core_inv (core_run 20 repo_require sample_icon
     [Request (DeleteLink (makeId link_board)), Request (DeleteHardware ''board''),
      Request (PostPlugin (sample_plugin ''hub'' ''hubBool'')),
      IncomingMessage ''btn'' ''ui'' ''btn'' ''input'', Request (DeletePlugin ''relay''), TimePasses 5000] sample_core)"
  by (rule run_keeps_invariant[OF sample_loaded(1)])

text \<open>
  C2: Starting from a well-formed data file succeeds: every stored component is created and every
  stored link connected, in the order of the file, and the process satisfies its invariant.
\<close>

theorem startup_loads_data:
  assumes "refresh_files require icon files [] = (None, types)" "well_formed_data types d"
  shows "\<exists>c. initialize depth require icon (fresh_process nick files (Some d) uf) = (Inr (), c) \<and> core_inv c \<and>
    dmap pk_config (pluginContainers c) = ps_plugins d \<and> dmap hi_config (hardware c) = ps_hardware d \<and>
    dmap li_config (links c) = ps_links d"
  using initialize_loads[OF assms, of depth nick uf] by (auto dest: starting_core_inv)

theorem startup_loads_data_witness:
  "\<exists>c. initialize 20 repo_require sample_icon (fresh_process ''node-1'' repo_plugin_dir (Some sample_data) None)
       = (Inr (), c) \<and> core_inv c \<and>
    dmap pk_config (pluginContainers c) = ps_plugins sample_data \<and>
    dmap hi_config (hardware c) = ps_hardware sample_data \<and> dmap li_config (links c) = ps_links sample_data"
  by (rule startup_loads_data[OF sample_files sample_well_formed])

text \<open>
  C8: A process stopped at any moment and started again from its data file runs the same
  plugins, hardware and links, with the same configurations, as long as the plugin modules
  can still be loaded.
\<close>

theorem restart_roundtrip:
  assumes "core_inv c" "refresh_files require icon files [] = (None, types)"
    and "\<forall>(k, x) \<in> set (hardware c). hc_class (hi_config x) \<noteq> None"
    and "\<forall>(k, x) \<in> set (pluginContainers c). jget types (pc_type (pk_config x)) \<noteq> None"
  shows "\<exists>c'. initialize depth require icon (fresh_process nick files (data_file c) uf) = (Inr (), c') \<and> core_inv c' \<and>
    dmap pk_config (pluginContainers c') = dmap pk_config (pluginContainers c) \<and>
    dmap hi_config (hardware c') = dmap hi_config (hardware c) \<and>
    dmap li_config (links c') = dmap li_config (links c) \<and> data_file c' = data_file c"
proof -
  obtain d where d: "data_file c = Some d" "ps_plugins d = dmap pk_config (pluginContainers c)"
      "ps_hardware d = dmap hi_config (hardware c)" "ps_links d = dmap li_config (links c)"
    using running_data[OF assms(1)] by blast
  have "well_formed_data types d" using running_well_formed[OF assms(1) d(1) assms(3,4)] .
  then obtain c' where "initialize depth require icon (fresh_process nick files (Some d) uf) = (Inr (), c')"
      "starting require icon types d c'" "dmap hi_config (hardware c') = ps_hardware d"
      "dmap pk_config (pluginContainers c') = ps_plugins d" "dmap li_config (links c') = ps_links d"
    using initialize_loads[OF assms(2)] by blast
  moreover from this have "core_inv c'" by (blast intro: starting_core_inv)
  moreover from calculation have "data_file c' = Some d" by (simp add: starting_def)
  ultimately show ?thesis using d by auto
qed

theorem restart_roundtrip_witness:
  "\<exists>c'. initialize 20 repo_require sample_icon
        (fresh_process ''node-2'' repo_plugin_dir (data_file sample_core) None) = (Inr (), c') \<and> core_inv c' \<and>
    dmap pk_config (pluginContainers c') = dmap pk_config (pluginContainers sample_core) \<and>
    dmap hi_config (hardware c') = dmap hi_config (hardware sample_core) \<and>
    dmap li_config (links c') = dmap li_config (links sample_core) \<and> data_file c' = data_file sample_core"
  by (rule restart_roundtrip[OF sample_loaded(1) sample_files sample_configs])

subsection \<open>Removal\<close>

text \<open>
  A component that a link uses, as its source or its destination, cannot be removed: the
  request fails with the name of a link that uses it and nothing changes.
\<close>

theorem linked_component_protected:
  assumes "(lid, li) \<in> set (links c)" "uses_component i (li_config li)"
  shows "\<exists>lid'. removePlugin i c = (Inl (UsedInLink i lid'), c) \<and>
    removeHardware i c = (Inl (UsedInLink i lid'), c)"
proof -
  obtain lid' where "checkLink i c = (Inl (UsedInLink i lid'), c)" using removal_refused[OF assms] by blast
  then show ?thesis by (auto simp: removePlugin_def removeHardware_def seqE_def bindE_def)
qed

lemma sample_link_present: "\<exists>li. (makeId link_btn, li) \<in> set (links sample_core) \<and> uses_component ''relay'' (li_config li)"
proof -
  have "(makeId link_btn, link_btn) \<in> set (dmap li_config (links sample_core))"
    unfolding sample_loaded by code_simp
  then obtain li where "(makeId link_btn, li) \<in> set (links sample_core)" "li_config li = link_btn"
    unfolding set_dmap by auto
  moreover have "uses_component ''relay'' link_btn" by code_simp
  ultimately show ?thesis by auto
qed

theorem linked_component_protected_witness:
  "\<exists>lid'. removePlugin ''relay'' sample_core = (Inl (UsedInLink ''relay'' lid'), sample_core) \<and>
    removeHardware ''relay'' sample_core = (Inl (UsedInLink ''relay'' lid'), sample_core)"
proof -
  obtain li where "(makeId link_btn, li) \<in> set (links sample_core)" "uses_component ''relay'' (li_config li)"
    using sample_link_present by blast
  then show ?thesis by (rule linked_component_protected)
qed


lemma jdel_new: "k \<notin> set (jkeys m) \<Longrightarrow> jdel k m = m"
  by (induction m) auto

lemma jdel_jset_new: "k \<notin> set (jkeys m) \<Longrightarrow> jdel k (jset k v m) = m"
  by (simp add: jset_new AList.delete_eq) (induction m, auto)

lemma unpublish_local:
  assumes "ct_local ct" "has_id w (ct_object ct) i"
  obtains w' where "unpublish ct w = (Inr (), w')" "repository w' = jdel i (repository w)"
proof -
  have "\<exists>w'. unpublish ct w = (Inr (), w')"
    using assms by (auto simp: unpublish_def with_object_def has_id_def destroyLocal_def remove_listener_def
        map_listeners_def log_irc_def op_defs)
  then show thesis using that unpublish_repository[OF _ assms(2)] by blast
qed

lemma unlinked_new:
  assumes "core_inv c" "i \<notin> component_ids c" "links c' = links c"
  shows "checkLink i c' = (Inr (), c')"
  using assms unfolding checkLink_iff unlinked_def core_inv_def running_inv_def links_connected_def
  by (auto simp: uses_component_def)

lemma core_inv_data_eq:
  assumes "core_inv c" "core_inv c'" "pluginContainers c' = pluginContainers c" "hardware c' = hardware c"
    "links c' = links c"
  shows "data_file c' = data_file c"
proof -
  obtain d d' where "data_file c = Some d" "data_file c' = Some d'" "ps_plugins d' = ps_plugins d"
      "ps_hardware d' = ps_hardware d" "ps_links d' = ps_links d"
    using running_data[OF assms(1)] running_data[OF assms(2)] assms(3-5) by auto
  then show ?thesis by (cases d, cases d') simp
qed

lemma addPlugin_result:
  assumes inv: "core_inv c" and ok: "addPlugin depth require icon cfg c = (Inr i, c1)"
  obtains k where "i = pc_id cfg" "pc_id cfg \<notin> set (jkeys (pluginContainers c))" "ct_local (pk_net k)"
    "pluginContainers c1 = jset i k (pluginContainers c)" "hardware c1 = hardware c" "links c1 = links c"
    "repository (net c1) = jset i (pk_net k) (repository (net c))"
proof -
  have ps: "preg.synced c" using inv by (simp add: core_inv_def data_synced_sections)
  have add: "preg.add depth require icon cfg c = (Inr i, c1)" using ok by (simp add: addPlugin_add)
  show thesis
  proof (rule preg.add_cases[OF ps, where g = cfg and depth = depth and require = require and icon = icon])
    fix x s1 s'
    assume x: "create_plugin depth require icon cfg c = (Inr x, s1)"
      "data_addPlugin (pc_id cfg) cfg s1 = (Inr (), s')"
      "preg.add depth require icon cfg c = (Inr (pc_id cfg), s')"
    have s': "s' = c1" "i = pc_id cfg" using x(3) add by simp_all
    have n: "net c1 = net s1" "pluginContainers c1 = pluginContainers s1" "hardware c1 = hardware s1" "links c1 = links s1"
      using x(2) updateData_frame unfolding data_addPlugin_def s' by blast+
    show thesis
      using x(1)
    proof (cases rule: create_plugin_cases)
      case (made pt ct ts w)
      with n s'(2) instantiate_plugin_ok(2,3)[OF made(2)] show thesis
        by (intro that[of x]) (auto simp: map_of_eq_None_iff)
    qed simp_all
  qed (use add in simp)
qed

text \<open>
  C12: Adding a plugin under a new id and removing it again succeeds and restores the
  registries, the publications and the data file exactly.
\<close>

theorem add_remove_plugin:
  assumes inv: "core_inv c" and new: "pc_id cfg \<notin> component_ids c"
    and add: "addPlugin depth require icon cfg c = (Inr i, c1)"
  shows "\<exists>c2. removePlugin i c1 = (Inr (), c2) \<and> pluginContainers c2 = pluginContainers c \<and>
    repository (net c2) = repository (net c) \<and> data_file c2 = data_file c"
proof -
  obtain k where k: "i = pc_id cfg" "pc_id cfg \<notin> set (jkeys (pluginContainers c))" "ct_local (pk_net k)"
      "pluginContainers c1 = jset i k (pluginContainers c)" "hardware c1 = hardware c" "links c1 = links c"
      "repository (net c1) = jset i (pk_net k) (repository (net c))"
    using addPlugin_result[OF inv add] .
  have inv1: "core_inv c1" using core_inv_addPlugin[OF inv add] .
  have kg: "jget (pluginContainers c1) i = Some k" using k(4) by simp
  have "has_id (net c1) (ct_object (pk_net k)) i"
    using inv1 map_of_SomeD[OF kg] by (auto simp: core_inv_def running_inv_def objects_owned_def)
  then obtain w where w: "unpublish (pk_net k) (net c1) = (Inr (), w)" "repository w = jdel i (repository (net c1))"
    using unpublish_local[OF k(3)] by blast
  define s where "s = c1\<lparr>net := w, pluginContainers := jdel i (pluginContainers c1)\<rparr>"
  have d: "destroy_plugin i c1 = (Inr True, s)"
    using kg w(1) by (simp add: destroy_plugin_def lift_net_def op_defs s_def)
  obtain p where p: "data_cache s = Some p" using inv1 by (auto simp: s_def core_inv_def data_synced_def)
  obtain c2 where c2: "data_removePlugin i s = (Inr (), c2)"
    unfolding data_removePlugin_def using updateData_loaded[OF p] by blast
  have f: "net c2 = net s" "pluginContainers c2 = pluginContainers s" "hardware c2 = hardware s" "links c2 = links s"
    using c2 updateData_frame unfolding data_removePlugin_def by blast+
  have rm: "removePlugin i c1 = (Inr (), c2)"
    using d c2 unlinked_new[OF inv _ k(6)] new k(1) by (simp add: removePlugin_def op_defs)
  have same: "pluginContainers c2 = pluginContainers c" "hardware c2 = hardware c" "links c2 = links c"
    using f k by (simp_all add: s_def jdel_jset_new)
  have "i \<notin> set (jkeys (repository (net c)))"
    using inv new k(1) by (auto simp: core_inv_def running_inv_def published_owned_def)
  then have "repository (net c2) = repository (net c)"
    using f(1) w(2) k(7) by (simp add: s_def jdel_jset_new)
  with rm same core_inv_data_eq[OF inv core_inv_removePlugin[OF inv1 rm] same] show ?thesis by blast
qed

lemma sample_component_ids: "component_ids sample_core = {''btn'', ''relay'', ''lamp'', ''board''}"
proof -
  have "component_ids sample_core = set (jkeys (dmap pk_config (pluginContainers sample_core))) \<union>
      set (jkeys (dmap hi_config (hardware sample_core)))"
    by (simp only: component_ids_def jkeys_dmap)
  then show ?thesis by (auto simp: sample_loaded sample_data_def)
qed

lemma addPlugin_succeeds:
  assumes "starting require icon types d c" "jget types (pc_type cfg) \<noteq> None"
    and "pc_id cfg \<notin> set (jkeys (pluginContainers c))"
  shows "\<exists>c'. addPlugin depth require icon cfg c = (Inr (pc_id cfg), c')"
proof -
  obtain x c1 where x: "create_plugin depth require icon cfg c = (Inr x, c1)" "starting require icon types d c1"
    using create_plugin_loads[OF assms] by blast
  have "pk_id x = pc_id cfg" using preg.create_ok[OF x(1)] by simp
  moreover have "data_cache c1 = Some d" using x(2) by (simp add: starting_def)
  ultimately show ?thesis
    using x(1) by (simp add: addPlugin_def op_defs data_addPlugin_def updateData_loaded)
qed

definition sample_more :: core where
  "sample_more = snd (addPlugin 20 repo_require sample_icon (sample_plugin ''hub'' ''hubBool'') sample_core)"

lemma sample_more_added: "addPlugin 20 repo_require sample_icon (sample_plugin ''hub'' ''hubBool'') sample_core
    = (Inr ''hub'', sample_more)"
proof -
  have t: "jget sample_types (pc_type (sample_plugin ''hub'' ''hubBool'')) \<noteq> None" by code_simp
  have "''hub'' \<notin> component_ids sample_core" by (simp add: sample_component_ids)
  then have h: "''hub'' \<notin> set (jkeys (pluginContainers sample_core))" by (simp add: component_ids_def)
  have "\<exists>c'. addPlugin 20 repo_require sample_icon (sample_plugin ''hub'' ''hubBool'') sample_core = (Inr ''hub'', c')"
    using addPlugin_succeeds[OF sample_starting t, of 20] h by (simp add: sample_plugin_def)
  then show ?thesis by (auto simp: sample_more_def)
qed

theorem add_remove_plugin_witness:
  "\<exists>c2. removePlugin ''hub'' sample_more = (Inr (), c2) \<and> pluginContainers c2 = pluginContainers sample_core \<and>
    repository (net c2) = repository (net sample_core) \<and> data_file c2 = data_file sample_core"
  by (rule add_remove_plugin[OF sample_loaded(1) _ sample_more_added])
    (simp add: sample_component_ids sample_plugin_def)


subsection \<open>What destroying a link leaves behind\<close>

definition object_listeners :: "world \<Rightarrow> oref \<Rightarrow> (event \<times> listener) list" where
  "object_listeners w r = (case heap w r of None \<Rightarrow> [] | Some ob \<Rightarrow> listeners ob)"

lemma object_listeners_add:
  "snd (add_listener r ev l w) = w1 \<Longrightarrow> heap w q \<noteq> None \<Longrightarrow>
     object_listeners w1 q = (if q = r then object_listeners w q @ [(ev, l)] else object_listeners w q)"
  by (auto simp: object_listeners_def add_listener_def map_listeners_def modifyE_def)

lemma connect_link_listeners:
  assumes "connect_link cfg w = (Inr (src, h), w')" "heap w src \<noteq> None"
  shows "object_listeners w' src =
      object_listeners w src @ [(EvAttributeOf (sourceAttribute cfg), h), (EvConnected, h)]"
    "heap w' src \<noteq> None"
proof -
  obtain ct where "jget (repository w) (sourceComponent cfg) = Some ct" "src = ct_object ct"
    using assms(1) by (auto simp: connect_link_def op_result_iffs repository_object_def Let_def
        split: option.splits)
  with assms show "object_listeners w' src =
      object_listeners w src @ [(EvAttributeOf (sourceAttribute cfg), h), (EvConnected, h)]"
      "heap w' src \<noteq> None"
    by (auto simp: connect_link_def op_defs repository_object_def Let_def new_id_def add_listener_def
        map_listeners_def object_listeners_def split: option.splits)
qed

text \<open>
  C15: Destroying a link that was just created answers true and forgets the link, but only one of
  its two listeners is taken off the source object: the \<open>connected\<close> listener of the destroyed link stays
  registered.
\<close>

theorem destroyed_link_keeps_connected_listener:
  assumes create: "create_link cfg c = (Inr li, c1)" and src: "heap (net c) (li_source li) \<noteq> None"
  shows "\<exists>c2. destroy_link (makeId cfg) c1 = (Inr True, c2) \<and> jget (links c2) = jget (links c) \<and>
    mset (object_listeners (net c2) (li_source li)) =
      mset (object_listeners (net c) (li_source li)) + {#(EvConnected, li_handler li)#}"
  using create
proof (cases rule: create_link_cases)
  case (made s h w)
  have h1: "heap (net c) s \<noteq> None" using src made(3) by simp
  note ls = connect_link_listeners[OF made(2) h1]
  define w2 where "w2 = snd (remove_listener s (EvAttributeOf (sourceAttribute cfg)) h w)"
  have "object_listeners w2 s = remove1 (EvAttributeOf (sourceAttribute cfg), h) (object_listeners w s)"
    using ls(2) by (auto simp: w2_def object_listeners_def remove_listener_def map_listeners_def modifyE_def)
  then have m: "mset (object_listeners w2 s) = mset (object_listeners (net c) s) + {#(EvConnected, h)#}"
    using ls(1) by simp
  have "remove_listener s (EvAttributeOf (sourceAttribute cfg)) h w = (Inr (), w2)"
    unfolding w2_def by (rule remove_listener_result)
  then have "destroy_link (makeId cfg) c1 = (Inr True, c1\<lparr>net := w2, links := jdel (makeId cfg) (links c1)\<rparr>)"
    using made by (simp add: destroy_link_def lift_net_def op_defs)
  with made(1,3,4) m show ?thesis by auto
qed simp_all


theorem destroyed_link_keeps_connected_listener_witness:
  "\<exists>c2. destroy_link (makeId link_pair) sample_linked = (Inr True, c2) \<and>
    jget (links c2) = jget (links sample_pair) \<and>
    mset (object_listeners (net c2) (li_source sample_link_item)) =
      mset (object_listeners (net sample_pair) (li_source sample_link_item)) +
      {#(EvConnected, li_handler sample_link_item)#}"
  by (rule destroyed_link_keeps_connected_listener[OF sample_linked_result])
    (simp add: sample_link_item_def sample_pair_def sample_net_heap)

subsection \<open>Termination of the process\<close>

lemma destroy_link_frame:
  assumes "jget (links c) i = Some li"
  shows "\<exists>w. destroy_link i c = (Inr True, c\<lparr>net := w, links := jdel i (links c)\<rparr>) \<and>
    repository w = repository (net c) \<and> irc_log w = irc_log (net c)"
proof -
  define w where "w = snd (remove_listener (li_source li) (EvAttributeOf (sourceAttribute (li_config li)))
      (li_handler li) (net c))"
  have "remove_listener (li_source li) (EvAttributeOf (sourceAttribute (li_config li))) (li_handler li) (net c)
      = (Inr (), w)"
    unfolding w_def by (rule remove_listener_result)
  then have "destroy_link i c = (Inr True, c\<lparr>net := w, links := jdel i (links c)\<rparr>)"
    using assms by (simp add: destroy_link_def lift_net_def op_defs)
  moreover have "repository w = repository (net c)" "irc_log w = irc_log (net c)"
    by (simp_all add: w_def remove_listener_def)
  ultimately show ?thesis by blast
qed

lemma destroy_all_links:
  assumes "distinct (jkeys (links c))"
  shows "\<exists>w. forE (jkeys (links c)) (\<lambda>lid. bindE (destroy_link lid) (\<lambda>_. ret ())) c =
      (Inr (), c\<lparr>net := w, links := []\<rparr>) \<and> repository w = repository (net c) \<and> irc_log w = irc_log (net c)"
  using assms
proof (induction "links c" arbitrary: c)
  case Nil
  then have "c\<lparr>net := net c, links := []\<rparr> = c" by simp
  with Nil show ?case by (intro exI[of _ "net c"]) (simp add: op_defs)
next
  case (Cons kx ls)
  obtain k x where kx: "kx = (k, x)" by (cases kx)
  have ls: "jdel k (links c) = ls"
    using Cons.prems Cons.hyps(2)[symmetric] kx by (simp add: jdel_new)
  obtain w1 where d: "destroy_link k c = (Inr True, c\<lparr>net := w1, links := jdel k (links c)\<rparr>)"
      "repository w1 = repository (net c)" "irc_log w1 = irc_log (net c)"
    using destroy_link_frame[of c k x] Cons.hyps(2)[symmetric] kx by auto
  define c1 where "c1 = c\<lparr>net := w1, links := ls\<rparr>"
  have "distinct (jkeys (links c1))" using Cons.prems Cons.hyps(2)[symmetric] by (simp add: c1_def)
  then obtain w where "forE (jkeys ls) (\<lambda>lid. bindE (destroy_link lid) (\<lambda>_. ret ())) c1 =
      (Inr (), c1\<lparr>net := w, links := []\<rparr>)" "repository w = repository w1" "irc_log w = irc_log w1"
    using Cons.hyps(1)[of c1] by (auto simp: c1_def)
  then show ?case
    using d Cons.hyps(2)[symmetric] kx ls by (intro exI[of _ w]) (simp add: op_defs c1_def)
qed

lemma destroy_nothing:
  "jget (pluginContainers c) object_string = None \<Longrightarrow>
     forE ps (\<lambda>_. bindE (destroy_plugin object_string) (\<lambda>_. ret ())) c = (Inr (), c)"
  "jget (hardware c) object_string = None \<Longrightarrow>
     forE hs (\<lambda>_. bindE (destroy_hardware object_string) (\<lambda>_. ret ())) c = (Inr (), c)"
  by (induction ps) (simp_all add: op_defs destroy_plugin_def,
    induction hs, simp_all add: op_defs destroy_hardware_def)

text \<open>
  Terminating the process takes every link down but leaves every plugin and every
  hardware component in its registry and published: no irc client is disconnected.
\<close>

theorem terminate_only_destroys_links:
  assumes "core_inv c" "jget (pluginContainers c) object_string = None" "jget (hardware c) object_string = None"
  shows "\<exists>w. terminate c = (Inr (), c\<lparr>net := w, links := []\<rparr>) \<and>
    repository w = repository (net c) \<and> irc_log w = irc_log (net c)"
proof -
  have "distinct (jkeys (links c))"
    using assms(1) by (simp add: core_inv_def running_inv_def lreg.well_keyed_def keyed_def)
  from destroy_all_links[OF this] obtain w where
    w: "forE (jkeys (links c)) (\<lambda>lid. bindE (destroy_link lid) (\<lambda>_. ret ())) c = (Inr (), c\<lparr>net := w, links := []\<rparr>)"
      "repository w = repository (net c)" "irc_log w = irc_log (net c)" by blast
  with assms(2,3) show ?thesis
    by (intro exI[of _ w]) (simp add: terminate_def bindE_def seqE_def readE_def destroy_nothing)
qed

theorem terminate_only_destroys_links_witness:
  "\<exists>w. terminate sample_core = (Inr (), sample_core\<lparr>net := w, links := []\<rparr>) \<and>
    repository w = repository (net sample_core) \<and> irc_log w = irc_log (net sample_core)"
proof -
  have "object_string \<notin> component_ids sample_core"
    by (simp add: sample_component_ids object_string_def)
  then have "jget (pluginContainers sample_core) object_string = None"
      "jget (hardware sample_core) object_string = None"
    by (simp_all add: component_ids_def map_of_eq_None_iff)
  then show ?thesis by (rule terminate_only_destroys_links[OF sample_loaded(1)])
qed

end
