(* ===== verification/PluginProps.thy ===== *)
theory PluginProps
  imports Sample
begin

section \<open>Properties of the plugins\<close>

text \<open>
  The behaviour of each plugin module on a published instance: the world after an action is
  given exactly, with the nick changes that announce it. Two nested calls of listeners are enough
  for every plugin that is not linked.
\<close>

lemma announce_other [simp]:
  "repository (announce i k client r vals w) = repository w"
  "watchers (announce i k client r vals w) = watchers w" "watcher (announce i k client r vals w) = watcher w"
  by (simp_all add: announce_def)

lemma fun_upd_same_value: "vals n = Some v \<Longrightarrow> vals(n \<mapsto> v) = vals"
  by auto

text \<open>
  Creating a plugin instance never fails: the object exists under the given id with the
  module's initial values and handlers, it is in the repository, and one irc client connects with
  the nick that spells the initial values.
\<close>

theorem plugin_creation:
  "instantiate_plugin depth i (make_plugin_type icon name k) w =
     (Inr (plugin_publication (make_plugin_type icon name k) (fresh w)),
      w\<lparr>heap := (heap w)(fresh w \<mapsto> plugin_object i k (Suc (fresh w)) (map_of (plugin_initial k))),
        fresh := fresh w + 2,
        repository := jset i (plugin_publication (make_plugin_type icon name k) (fresh w)) (repository w),
        irc_log := irc_log w @ [IrcConnect (Suc (fresh w)) (plugin_nick i k (map_of (plugin_initial k)))
          (if plugin_ui k then [''#mylife-home-core'', ''#mylife-home-ui''] else [''#mylife-home-core''])]\<rparr>)"
  using instantiate_plugin_result[of "make_plugin_type icon name k" depth i w]
  by (simp add: plugin_published_def make_plugin_type_def initial_values_def plugin_channels_def)

subsection \<open>Button\<close>

text \<open>
  A button answers \<open>input\<close> with a pulse: its output is on, then off, both are announced in this
  order, and nothing else changes.
\<close>

lemma button_pulse:
  assumes "heap w r = Some (plugin_object i Button client vals)"
  shows "executeAction (Suc (Suc depth)) r ''input'' [] w =
    (Inr (), w\<lparr>heap := (heap w)(r \<mapsto> plugin_object i Button client (vals(''output'' \<mapsto> v_off))),
              irc_log := irc_log w @ [IrcNick client (i @ ''|on''), IrcNick client (i @ ''|off'')]\<rparr>)"
proof -
  let ?w1 = "announce i Button client r (vals(''output'' \<mapsto> v_on)) w"
  let ?w2 = "announce i Button client r (vals(''output'' \<mapsto> v_off)) ?w1"
  have "set_attribute_with (call_listener (Suc depth)) r ''output'' v_on w = (Inr (), ?w1)"
    by (rule set_plugin_attribute[OF assms plugin_members(1)]) simp
  moreover have "set_attribute_with (call_listener (Suc depth)) r ''output'' v_off ?w1 = (Inr (), ?w2)"
    using set_plugin_attribute[OF heap_announce[of i Button client r "vals(''output'' \<mapsto> v_on)" w]
        plugin_members(1), of v_off depth] by simp
  ultimately have run: "run_plugin (call_listener (Suc depth)) ButtonInput r [] w = (Inr (), ?w2)"
    by (simp add: button_input_def op_defs)
  have "executeAction (Suc (Suc depth)) r ''input'' [] w = (Inr (), ?w2)"
    by (rule execute_plugin_action[OF assms plugin_members(2) _ _ run heap_announce])
      (simp_all add: check_call_def)
  then show ?thesis
    by (simp add: announce_twice plugin_nick_def plugin_value_def plugin_class_defs net_builders)
qed

lemma button_pulse_sample:
  "executeAction 2 0 ''input'' [] sample_net =
    (Inr (), sample_net\<lparr>heap := (heap sample_net)(0 \<mapsto> plugin_object ''btn'' Button 1
               ((initial_values Button)(''output'' \<mapsto> v_off))),
              irc_log := irc_log sample_net @ [IrcNick 1 (''btn'' @ ''|on''), IrcNick 1 (''btn'' @ ''|off'')]\<rparr>)"
  using button_pulse[OF sample_net_heap(1), of 0] by (simp add: numeral_2_eq_2)

subsection \<open>Light and hub\<close>

text \<open>
  A light shows what its input receives: every accepted value is stored as the output and
  announced once; a value that is neither on nor off (nor falsy) is rejected and changes nothing.
\<close>

theorem light_follows_input:
  assumes "heap w r = Some (plugin_object i Light client vals)"
  shows "executeAction (Suc (Suc depth)) r ''input'' [v] w =
    (if truthy v \<and> v \<noteq> v_on \<and> v \<noteq> v_off then (Inl InvalidValue, w)
     else (Inr (), announce i Light client r (vals(''output'' \<mapsto> v)) w))"
proof (cases "checkArg v boolean_type")
  case None
  have set: "set_attribute_with (call_listener (Suc depth)) r ''output'' v w =
      (Inr (), announce i Light client r (vals(''output'' \<mapsto> v)) w)"
    by (rule set_plugin_attribute[OF assms plugin_members(7) None])
  have run: "run_plugin (call_listener (Suc depth)) LightInput r [v] w =
      (Inr (), announce i Light client r (vals(''output'' \<mapsto> v)) w)"
    by (simp only: run_plugin.simps light_input_def arg0.simps set)
  have "executeAction (Suc (Suc depth)) r ''input'' [v] w =
      (Inr (), announce i Light client r (vals(''output'' \<mapsto> v)) w)"
    by (rule execute_plugin_action[OF assms plugin_members(8) _ _ run heap_announce])
      (simp_all add: check_call_def None)
  moreover have "\<not> (truthy v \<and> v \<noteq> v_on \<and> v \<noteq> v_off)"
    using None by (auto simp: boolean_type_def netEnum_def checkArg_enum_iff)
  ultimately show ?thesis by simp
next
  case (Some e)
  then have "e = InvalidValue" "truthy v \<and> v \<noteq> v_on \<and> v \<noteq> v_off"
    by (auto simp: boolean_type_def netEnum_def checkArg_def split: if_splits)
  with Some assms show ?thesis
    by (simp add: executeAction_def execute_action_with_def with_object_def getMember_plugin
        plugin_members(8) check_call_def throw_def)
qed

theorem light_follows_input_witness:
  "executeAction 2 2 ''input'' [v_on] sample_net =
     (Inr (), announce ''lamp'' Light 3 2 ((initial_values Light)(''output'' \<mapsto> v_on)) sample_net)"
  using light_follows_input[OF sample_net_heap(2), of 0 v_on] by (simp add: numeral_2_eq_2)

subsection \<open>Step relay\<close>

lemma step_relay_input_on:
  assumes "heap w r = Some (plugin_object i StepRelay client vals)"
  shows "executeAction (Suc (Suc depth)) r ''input'' [v_on] w =
    (Inr (), announce i StepRelay client r
       (vals(''output'' \<mapsto> (if plugin_value vals ''output'' = v_on then v_off else v_on))) w)"
proof -
  let ?v = "if plugin_value vals ''output'' = v_on then v_off else v_on"
  have set: "set_attribute_with (call_listener (Suc depth)) r ''output'' ?v w =
      (Inr (), announce i StepRelay client r (vals(''output'' \<mapsto> ?v)) w)"
    by (rule set_plugin_attribute[OF assms plugin_members(9)]) simp
  have run: "run_plugin (call_listener (Suc depth)) StepRelayInput r [v_on] w =
      (Inr (), announce i StepRelay client r (vals(''output'' \<mapsto> ?v)) w)"
    using set get_plugin_attribute[OF assms plugin_members(9)]
    by (simp add: step_relay_input_def bindE_def)
  show ?thesis
    by (rule execute_plugin_action[OF assms plugin_members(10) _ _ run heap_announce])
      (simp_all add: check_call_def)
qed

text \<open>
  A step relay toggles on every rising input: two presses bring the output back to what it was,
  with exactly two announcements, and leave every other part of the world alone.
\<close>

lemma step_relay_toggles_twice:
  assumes "heap w r = Some (plugin_object i StepRelay client vals)"
    and "vals ''output'' = Some a" "a = v_on \<and> b = v_off \<or> a = v_off \<and> b = v_on"
  shows "seqE (executeAction (Suc (Suc depth)) r ''input'' [v_on])
           (executeAction (Suc (Suc depth)) r ''input'' [v_on]) w =
    (Inr (), w\<lparr>irc_log := irc_log w @ [IrcNick client (i @ ''|'' @ to_str b), IrcNick client (i @ ''|'' @ to_str a)]\<rparr>)"
proof -
  let ?w1 = "announce i StepRelay client r (vals(''output'' \<mapsto> b)) w"
  have first: "executeAction (Suc (Suc depth)) r ''input'' [v_on] w = (Inr (), ?w1)"
    using step_relay_input_on[OF assms(1), of depth] assms(2,3) by (auto simp: plugin_value_def)
  have "executeAction (Suc (Suc depth)) r ''input'' [v_on] ?w1 =
      (Inr (), announce i StepRelay client r (vals(''output'' \<mapsto> a)) ?w1)"
    using step_relay_input_on[OF heap_announce[of i StepRelay client r "vals(''output'' \<mapsto> b)" w], of depth] assms(2,3)
    by (auto simp: plugin_value_def)
  moreover have "vals(''output'' \<mapsto> a) = vals" "(heap w)(r \<mapsto> plugin_object i StepRelay client vals) = heap w"
    using assms(1,2) by (auto simp: fun_eq_iff)
  moreover have "plugin_nick i StepRelay (vals(''output'' \<mapsto> b)) = i @ ''|'' @ to_str b"
      "plugin_nick i StepRelay vals = i @ ''|'' @ to_str a"
    using assms(2) by (simp_all add: plugin_nick_def plugin_value_def plugin_class_defs net_builders)
  ultimately show ?thesis
    using first by (simp add: seqE_def bindE_def announce_twice)
qed

definition relay_net :: world where
  "relay_net = plugin_published ''relay'' (sample_pt StepRelay) (empty_world ''node-1'')"

lemma relay_net_heap: "heap relay_net 0 = Some (plugin_object ''relay'' StepRelay 1 (initial_values StepRelay))"
  by (simp add: relay_net_def plugin_published_def empty_world_def sample_pt_def make_plugin_type_def)

lemma step_relay_toggles_twice_sample:
  "seqE (executeAction 2 0 ''input'' [v_on]) (executeAction 2 0 ''input'' [v_on]) relay_net =
    (Inr (), relay_net\<lparr>irc_log := irc_log relay_net @ [IrcNick 1 (''relay'' @ ''|'' @ to_str v_on),
       IrcNick 1 (''relay'' @ ''|'' @ to_str v_off)]\<rparr>)"
  using step_relay_toggles_twice[OF relay_net_heap, of v_off v_on 0]
  by (simp add: initial_values_def numeral_2_eq_2)


subsection \<open>Music: the volume\<close>

definition has_volume :: "world \<Rightarrow> oref \<Rightarrow> string \<Rightarrow> nat \<Rightarrow> int \<Rightarrow> bool" where
  "has_volume w r i client n \<longleftrightarrow> (\<exists>vals. heap w r = Some (plugin_object i Music client vals) \<and>
     parse_int (to_str (plugin_value vals ''volume'')) = Some n)"

text \<open>The abstract effect of \<open>volume-more\<close> (true) and \<open>volume-less\<close> (false).\<close>

fun volume_step :: "int \<Rightarrow> bool \<Rightarrow> int" where
  "volume_step n True = min 100 (n + 10)"
| "volume_step n False = max 0 (n - 10)"

definition volume_action :: "bool \<Rightarrow> string" where
  "volume_action up = (if up then ''volume-more'' else ''volume-less'')"

lemma volume_values:
  assumes "parse_int (to_str v) = Some n" "0 \<le> n" "n \<le> 100"
  shows "volume_more v = VNum (volume_step n True)" "volume_less v = VNum (volume_step n False)"
  using assms by (auto simp: volume_more_def volume_less_def volumeInterval_def)

lemma volume_action_step:
  assumes "has_volume w r i client n" "0 \<le> n" "n \<le> 100"
  shows "\<exists>w'. executeAction (Suc (Suc depth)) r (volume_action up) [] w = (Inr (), w') \<and>
    has_volume w' r i client (volume_step n up)"
proof -
  obtain vals where h: "heap w r = Some (plugin_object i Music client vals)"
      and p: "parse_int (to_str (plugin_value vals ''volume'')) = Some n"
    using assms(1) by (auto simp: has_volume_def)
  let ?v = "VNum (volume_step n up)"
  let ?w' = "announce i Music client r (vals(''volume'' \<mapsto> ?v)) w"
  have ok: "checkArg ?v volume_type = None"
    using assms(2,3) by (cases up) (auto simp: volume_type_def netRange_def checkArg_range_num)
  have set: "set_attribute_with (call_listener (Suc depth)) r ''volume'' ?v w = (Inr (), ?w')"
    by (rule set_plugin_attribute[OF h plugin_members(14) ok])
  have get: "getAttribute r ''volume'' w = (Inr (plugin_value vals ''volume''), w)"
    by (rule get_plugin_attribute[OF h plugin_members(14)])
  have "executeAction (Suc (Suc depth)) r (volume_action up) [] w = (Inr (), ?w')"
  proof (cases up)
    case True
    have run: "run_plugin (call_listener (Suc depth)) MusicVolumeMore r [] w = (Inr (), ?w')"
      using set get volume_values(1)[OF p assms(2,3)] True
      by (simp only: run_plugin.simps music_volume_more_def bindE_def) simp
    have "executeAction (Suc (Suc depth)) r ''volume-more'' [] w = (Inr (), ?w')"
      by (rule execute_plugin_action[OF h plugin_members(21) _ _ run heap_announce])
        (simp_all add: check_call_def)
    with True show ?thesis by (simp add: volume_action_def)
  next
    case False
    have run: "run_plugin (call_listener (Suc depth)) MusicVolumeLess r [] w = (Inr (), ?w')"
      using set get volume_values(2)[OF p assms(2,3)] False
      by (simp only: run_plugin.simps music_volume_less_def bindE_def) simp
    have "executeAction (Suc (Suc depth)) r ''volume-less'' [] w = (Inr (), ?w')"
      by (rule execute_plugin_action[OF h plugin_members(22) _ _ run heap_announce])
        (simp_all add: check_call_def)
    with False show ?thesis by (simp add: volume_action_def)
  qed
  moreover have "has_volume ?w' r i client (volume_step n up)"
    by (auto simp: has_volume_def plugin_value_def js_simps)
  ultimately show ?thesis by blast
qed

lemma volume_step_bounds: "0 \<le> n \<Longrightarrow> n \<le> 100 \<Longrightarrow> 0 \<le> volume_step n up \<and> volume_step n up \<le> 100"
  by (cases up) auto

text \<open>
  C11: The volume of a music instance follows the abstract counter with steps of ten that saturates at
  0 and 100, for every sequence of \<open>volume-more\<close> and \<open>volume-less\<close> actions; no action fails and
  the volume never leaves the range.
\<close>

theorem music_volume_refines_counter:
  assumes "has_volume w r i client n" "0 \<le> n" "n \<le> 100"
  shows "\<exists>w'. forE ups (\<lambda>up. executeAction (Suc (Suc depth)) r (volume_action up) []) w = (Inr (), w') \<and>
    has_volume w' r i client (foldl volume_step n ups) \<and>
    0 \<le> foldl volume_step n ups \<and> foldl volume_step n ups \<le> 100"
  using assms
proof (induction ups arbitrary: w n)
  case Nil
  then show ?case by (simp add: op_defs)
next
  case (Cons up ups)
  obtain w1 where w1: "executeAction (Suc (Suc depth)) r (volume_action up) [] w = (Inr (), w1)"
      "has_volume w1 r i client (volume_step n up)"
    using volume_action_step[OF Cons.prems] by blast
  from Cons.IH[OF w1(2)] volume_step_bounds[OF Cons.prems(2,3), of up]
  obtain w' where "forE ups (\<lambda>up. executeAction (Suc (Suc depth)) r (volume_action up) []) w1 = (Inr (), w')"
      "has_volume w' r i client (foldl volume_step (volume_step n up) ups)"
      "0 \<le> foldl volume_step (volume_step n up) ups" "foldl volume_step (volume_step n up) ups \<le> 100"
    by blast
  with w1(1) show ?case by (simp add: seqE_def bindE_def)
qed

definition music_net :: world where
  "music_net = plugin_published ''radio'' (sample_pt Music) (empty_world ''node-1'')"

lemma music_net_heap: "heap music_net 0 = Some (plugin_object ''radio'' Music 1 (initial_values Music))"
  by (simp add: music_net_def plugin_published_def empty_world_def sample_pt_def make_plugin_type_def)

lemma music_net_volume: "has_volume music_net 0 ''radio'' 1 0"
proof -
  have "parse_int (to_str (plugin_value (initial_values Music) ''volume'')) = Some 0"
    by code_simp
  with music_net_heap show ?thesis by (auto simp: has_volume_def)
qed

theorem music_volume_refines_counter_witness:
  "\<exists>w'. forE [True, True, False, False, False] (\<lambda>up. executeAction 2 0 (volume_action up) []) music_net = (Inr (), w') \<and>
    has_volume w' 0 ''radio'' 1 0"
  using music_volume_refines_counter[OF music_net_volume, of "[True, True, False, False, False]" 0]
  by (auto simp: numeral_2_eq_2)

subsection \<open>Music: the delayed state\<close>

lemma find_append: "find p (xs @ ys) = (case find p xs of Some x \<Rightarrow> Some x | None \<Rightarrow> find p ys)"
  by (induction xs) auto

text \<open>The action only starts the timer.\<close>

lemma setstate_delays:
  assumes "heap u r = Some (plugin_object i Music client vals)" "checkArg (VStr x) state_type = None"
  shows "executeAction (Suc (Suc depth)) r ''setstate'' [VStr x] u = (Inr (), snd (delay_attribute r ''state'' (VStr x) u))"
proof -
  have run: "run_plugin (call_listener (Suc depth)) MusicSetstate r [VStr x] u =
      (Inr (), snd (delay_attribute r ''state'' (VStr x) u))"
    by (simp add: music_setstate_def delay_attribute_def modifyE_def)
  have "heap (snd (delay_attribute r ''state'' (VStr x) u)) r = Some (plugin_object i Music client vals)"
    using assms(1) by (simp add: delay_attribute_def modifyE_def Let_def)
  from execute_plugin_action[OF assms(1) plugin_members(15) _ _ run this] show ?thesis
    by (simp add: check_call_def assms(2))
qed

text \<open>
  C10: A state requested with \<open>setstate\<close> is applied five seconds later, and a second request
  within this time replaces the first: the first timer is gone, the second is due five seconds
  after its own request, and when it fires only the second state is stored and announced.
\<close>

theorem music_last_state_wins:
  assumes h: "heap w r = Some (plugin_object i Music client vals)"
    and idle: "timeouts w r ''state'' = None" "\<forall>t \<in> set (timers w). tm_id t < fresh w"
    and ok: "a \<in> {''unknown'', ''stop'', ''play'', ''pause''}" "b \<in> {''unknown'', ''stop'', ''play'', ''pause''}"
    and late: "5000 \<le> late"
  shows "\<exists>w1 w2. seqE (executeAction (Suc (Suc depth)) r ''setstate'' [VStr a])
             (seqE (advance_clock ms) (executeAction (Suc (Suc depth)) r ''setstate'' [VStr b])) w = (Inr (), w1) \<and>
    timers w1 = timers w @ [\<lparr>tm_id = Suc (fresh w), tm_due = clock w + ms + 5000, tm_obj = r,
       tm_attr = ''state'', tm_value = VStr b\<rparr>] \<and>
    fire_timer (Suc depth) (Suc (fresh w)) (snd (advance_clock late w1)) = (Inr (), w2) \<and>
    heap w2 r = Some (plugin_object i Music client (vals(''state'' \<mapsto> VStr b))) \<and>
    timers w2 = timers w \<and> timeouts w2 r ''state'' = None"
proof -
  have acc: "checkArg (VStr a) state_type = None" "checkArg (VStr b) state_type = None"
    using ok by (auto simp: state_type_def netEnum_def checkArg_enum_iff)
  note step = setstate_delays
  define u1 where "u1 = snd (delay_attribute r ''state'' (VStr a) w)"
  define u2 where "u2 = snd (advance_clock ms u1)"
  define w1 where "w1 = snd (delay_attribute r ''state'' (VStr b) u2)"
  define w3 where "w3 = snd (advance_clock late w1)"
  have heaps: "heap u2 r = Some (plugin_object i Music client vals)" "heap w3 r = Some (plugin_object i Music client vals)"
    using h by (simp_all add: u1_def u2_def w1_def w3_def delay_attribute_def advance_clock_def modifyE_def Let_def)
  have run: "seqE (executeAction (Suc (Suc depth)) r ''setstate'' [VStr a])
      (seqE (advance_clock ms) (executeAction (Suc (Suc depth)) r ''setstate'' [VStr b])) w = (Inr (), w1)"
    using step[OF h acc(1)] step[OF heaps(1) acc(2)]
    by (simp add: op_defs u1_def u2_def w1_def advance_clock_def)
  have old: "filter (\<lambda>t. tm_id t \<noteq> fresh w) (timers w) = timers w"
      "filter (\<lambda>t. tm_id t \<noteq> Suc (fresh w)) (timers w) = timers w"
      "find (\<lambda>t. tm_id t = Suc (fresh w) \<and> tm_due t \<le> c) (timers w) = None" for c
    using idle(2) by (force intro: filter_True simp: find_None_iff)+
  have ts: "timers w1 = timers w @ [\<lparr>tm_id = Suc (fresh w), tm_due = clock w + ms + 5000, tm_obj = r,
       tm_attr = ''state'', tm_value = VStr b\<rparr>]"
    using idle(1) old(1)
    by (simp add: w1_def u2_def u1_def delay_attribute_def advance_clock_def modifyE_def Let_def delay_ms_def)
  have ts3: "timers w3 = timers w1" "clock w3 = clock w + ms + late"
    by (simp_all add: w3_def w1_def u2_def u1_def advance_clock_def delay_attribute_def modifyE_def Let_def)
  define w4 where "w4 = w3\<lparr>timers := timers w\<rparr>"
  have set: "setAttribute (Suc depth) r ''state'' (VStr b) w4 =
      (Inr (), announce i Music client r (vals(''state'' \<mapsto> VStr b)) w4)"
    unfolding setAttribute_def
    by (rule set_plugin_attribute[OF _ plugin_members(13) acc(2)]) (simp add: w4_def heaps)
  have fire: "fire_timer (Suc depth) (Suc (fresh w)) w3 =
      (Inr (), (announce i Music client r (vals(''state'' \<mapsto> VStr b)) w4)
        \<lparr>timeouts := (timeouts w4)(r := (timeouts w4 r)(''state'' := None))\<rparr>)"
  proof -
    have "find (\<lambda>t. tm_id t = Suc (fresh w) \<and> tm_due t \<le> clock w3) (timers w3) =
        Some \<lparr>tm_id = Suc (fresh w), tm_due = clock w + ms + 5000, tm_obj = r, tm_attr = ''state'', tm_value = VStr b\<rparr>"
      using late old(3) by (simp add: ts3 ts find_append)
    then show ?thesis
      using set old(2) by (simp add: fire_timer_def op_defs ts3 ts w4_def)
  qed
  show ?thesis
    by (rule exI[of _ w1], rule exI[of _ "snd (fire_timer (Suc depth) (Suc (fresh w)) w3)"])
      (use run ts fire in \<open>simp add: w3_def[symmetric], simp add: w4_def\<close>)
qed

theorem music_last_state_wins_witness:
  "\<exists>w1 w2. seqE (executeAction 2 0 ''setstate'' [VStr ''play''])
             (seqE (advance_clock 3000) (executeAction 2 0 ''setstate'' [VStr ''pause''])) music_net = (Inr (), w1) \<and>
    timers w1 = timers music_net @ [\<lparr>tm_id = Suc (fresh music_net), tm_due = clock music_net + 3000 + 5000, tm_obj = 0,
       tm_attr = ''state'', tm_value = VStr ''pause''\<rparr>] \<and>
    fire_timer 1 (Suc (fresh music_net)) (snd (advance_clock 6000 w1)) = (Inr (), w2) \<and>
    heap w2 0 = Some (plugin_object ''radio'' Music 1 ((initial_values Music)(''state'' \<mapsto> VStr ''pause''))) \<and>
    timers w2 = timers music_net \<and> timeouts w2 0 ''state'' = None"
proof -
  have "timeouts music_net 0 ''state'' = None" "\<forall>t \<in> set (timers music_net). tm_id t < fresh music_net"
    by (simp_all add: music_net_def plugin_published_def empty_world_def)
  from music_last_state_wins[OF music_net_heap this, of "''play''" "''pause''" 6000 0 3000]
  show ?thesis by (simp add: numeral_2_eq_2)
qed

end
