(* ===== verification/DispatchProps.thy ===== *)
theory DispatchProps
  imports Sample
begin

section \<open>Termination of the dispatch\<close>

text \<open>
  The code does not bound the recursion of listeners. A network whose links descend in some rank needs
  two nested calls per link: with that much stack the dispatch never overflows and its result does
  not depend on the stack. A hub linked to itself overflows every stack.
\<close>

subsection \<open>Operations that agree\<close>

text \<open>
  Two operations agree under an invariant when they give the same result from every state that
  satisfies it, without a stack overflow, and keep it.
\<close>

definition agree :: "('w \<Rightarrow> bool) \<Rightarrow> ('w, 'a) op \<Rightarrow> ('w, 'a) op \<Rightarrow> bool" where
  "agree P m m' \<longleftrightarrow> (\<forall>w. P w \<longrightarrow> m w = m' w \<and> fst (m w) \<noteq> Inl StackOverflow \<and> P (snd (m w)))"

lemma agree_bindE:
  assumes "agree P m m'" "\<And>x. agree P (f x) (f' x)"
  shows "agree P (bindE m f) (bindE m' f')"
  unfolding agree_def
proof (intro allI impI)
  fix w assume "P w"
  then have a: "m w = m' w \<and> fst (m w) \<noteq> Inl StackOverflow \<and> P (snd (m w))"
    using assms(1) unfolding agree_def by blast
  obtain r w1 where m: "m w = (r, w1)" by force
  with a have m': "m' w = (r, w1)" "r \<noteq> Inl StackOverflow" "P w1" by auto
  show "bindE m f w = bindE m' f' w \<and> fst (bindE m f w) \<noteq> Inl StackOverflow \<and> P (snd (bindE m f w))"
  proof (cases r)
    case (Inl e)
    with m m' show ?thesis by (simp add: bindE_def)
  next
    case (Inr x)
    have "f x w1 = f' x w1 \<and> fst (f x w1) \<noteq> Inl StackOverflow \<and> P (snd (f x w1))"
      using assms(2)[of x] m'(3) unfolding agree_def by blast
    with m m' Inr show ?thesis by (auto simp: bindE_def)
  qed
qed

lemma agree_seqE: "agree P m m' \<Longrightarrow> agree P k k' \<Longrightarrow> agree P (seqE m k) (seqE m' k')"
  unfolding seqE_def by (rule agree_bindE)

lemma agree_ret: "agree P (ret x) (ret x)"
  by (simp add: agree_def ret_def)

lemma agree_throw: "e \<noteq> StackOverflow \<Longrightarrow> agree P (throw e) (throw e)"
  by (simp add: agree_def throw_def)

lemma agree_modifyE: "(\<And>w. P w \<Longrightarrow> P (f w)) \<Longrightarrow> agree P (modifyE f) (modifyE f)"
  by (simp add: agree_def modifyE_def)

lemma agree_forE: "(\<And>x. x \<in> set xs \<Longrightarrow> agree P (f x) (f' x)) \<Longrightarrow> agree P (forE xs f) (forE xs f')"
  by (induction xs) (auto intro: agree_ret agree_seqE)

lemma agree_with_object:
  assumes "\<And>w ob. P w \<Longrightarrow> heap w r = Some ob \<Longrightarrow> agree P (f ob) (f' ob)"
  shows "agree P (with_object r f) (with_object r f')"
  unfolding agree_def
proof (intro allI impI)
  fix w assume P: "P w"
  show "with_object r f w = with_object r f' w \<and> fst (with_object r f w) \<noteq> Inl StackOverflow \<and>
      P (snd (with_object r f w))"
  proof (cases "heap w r")
    case (Some ob)
    have "f ob w = f' ob w \<and> fst (f ob w) \<noteq> Inl StackOverflow \<and> P (snd (f ob w))"
      using assms[OF P Some] P unfolding agree_def by blast
    with Some show ?thesis by (auto simp: with_object_def)
  qed (use P in \<open>simp add: with_object_def\<close>)
qed

subsection \<open>Networks without cycles\<close>

definition acyclic_net :: "(oref \<Rightarrow> nat) \<Rightarrow> world \<Rightarrow> bool" where
  "acyclic_net rank w \<longleftrightarrow> (\<forall>r ob ev l. heap w r = Some ob \<longrightarrow> (ev, l) \<in> set (listeners ob) \<longrightarrow>
     (case l of
        LinkListener u src dst cfg \<Rightarrow> rank dst < rank r \<and> (ev = EvConnected \<or> (\<exists>a. ev = EvAttributeOf a))
      | PluginListener h \<Rightarrow> (\<exists>a. ev = EvActionOf a)
      | _ \<Rightarrow> True))"

lemma acyclic_net_shape: "same_shape w w' \<Longrightarrow> acyclic_net rank w \<Longrightarrow> acyclic_net rank w'"
  unfolding acyclic_net_def
proof (intro allI impI, goal_cases)
  case (1 r ob ev l)
  then have "map_option obj_shape (heap w' r) = map_option obj_shape (heap w r)"
    unfolding same_shape_def by blast
  with 1 have "map_option obj_shape (heap w r) = Some (obj_shape ob)" by simp
  then obtain ob' where "heap w r = Some ob'" "listeners ob' = listeners ob"
    by (auto simp: obj_shape_def)
  with 1 show ?case by metis
qed

lemma agree_shape: "(\<And>w. same_shape w (f w)) \<Longrightarrow> agree (acyclic_net rank) (modifyE f) (modifyE f)"
  by (rule agree_modifyE) (blast intro: acyclic_net_shape)

lemma listeners_of_iff: "l \<in> set (listeners_of ob ev) \<longleftrightarrow> (ev, l) \<in> set (listeners ob)"
  by (force simp: listeners_of_def)

lemma agree_emit:
  assumes "\<And>w ob l. acyclic_net rank w \<Longrightarrow> heap w r = Some ob \<Longrightarrow> (ev, l) \<in> set (listeners ob) \<Longrightarrow>
      agree (acyclic_net rank) (call r l p) (call' r l p)"
  shows "agree (acyclic_net rank) (emit_with call r ev p) (emit_with call' r ev p)"
  unfolding emit_with_def
  by (intro agree_with_object agree_forE assms) (auto simp: listeners_of_iff)

lemma checkArg_error: "checkArg v t = Some e \<Longrightarrow> e \<noteq> StackOverflow"
  by (auto simp: checkArg_def split: if_splits net_type.splits option.splits)

lemma checkArgs_error: "checkArgs args ts = Some e \<Longrightarrow> e \<noteq> StackOverflow"
  by (induction args ts rule: checkArgs.induct) (auto split: option.splits dest: checkArg_error)

lemma check_call_error: "check_call args ts = Some e \<Longrightarrow> e \<noteq> StackOverflow"
  by (auto simp: check_call_def split: if_splits dest: checkArgs_error)

lemma agree_put_value: "agree (acyclic_net rank) (modifyE (put_value r n v)) (modifyE (put_value r n v))"
  by (rule agree_shape) (auto simp: same_shape_def put_value_shape)

lemma agree_set_attribute:
  assumes "\<And>ev p. ev = EvAttribute \<or> (\<exists>a. ev = EvAttributeOf a) \<Longrightarrow>
      agree (acyclic_net rank) (emit_with call r ev p) (emit_with call' r ev p)"
  shows "agree (acyclic_net rank) (set_attribute_with call r n v) (set_attribute_with call' r n v)"
  unfolding set_attribute_with_def
proof (rule agree_with_object)
  fix w ob
  show "agree (acyclic_net rank)
     (case getMember ob n of
        Some (Attribute n t) \<Rightarrow> (case checkArg v t of Some e \<Rightarrow> throw e
          | None \<Rightarrow> seqE (modifyE (put_value r n v))
              (seqE (emit_with call r (EvAttributeOf n) (PValue v)) (emit_with call r EvAttribute (PAttribute n v))))
      | _ \<Rightarrow> throw AssertionError)
     (case getMember ob n of
        Some (Attribute n t) \<Rightarrow> (case checkArg v t of Some e \<Rightarrow> throw e
          | None \<Rightarrow> seqE (modifyE (put_value r n v))
              (seqE (emit_with call' r (EvAttributeOf n) (PValue v)) (emit_with call' r EvAttribute (PAttribute n v))))
      | _ \<Rightarrow> throw AssertionError)"
    by (auto split: option.split member.split intro!: agree_throw agree_seqE agree_put_value assms
        dest: checkArg_error)
qed

lemma agree_getAttribute: "agree (acyclic_net rank) (getAttribute r n) (getAttribute r n)"
  by (auto simp: agree_def getAttribute_def with_object_def object_attribute_def
      split: option.split member.split)

lemma agree_run_plugin:
  assumes "\<And>n v. agree (acyclic_net rank) (set_attribute_with call r n v) (set_attribute_with call' r n v)"
  shows "agree (acyclic_net rank) (run_plugin call h r args) (run_plugin call' h r args)"
proof -
  have d: "agree (acyclic_net rank) (delay_attribute r n v) (delay_attribute r n v)" for n v
    unfolding delay_attribute_def
    by (rule agree_shape) (auto simp: same_shape_def Let_def)
  show ?thesis
    by (cases h)
      (auto simp: button_input_def switch_to_button_input_def hub_bool_input_def light_input_def
        step_relay_input_def step_relay_on_def step_relay_off_def step_relay_set_def
        music_setstate_def music_setvolume_def music_state_switch_def music_volume_more_def
        music_volume_less_def intro!: agree_seqE agree_bindE assms agree_getAttribute agree_ret d)
qed

lemma agree_quiet:
  "agree (acyclic_net rank) (attributeChanged c r) (attributeChanged c r)"
  "agree (acyclic_net rank) (remote_execute wid chs r n args) (remote_execute wid chs r n args)"
proof -
  have log: "agree (acyclic_net rank) (log_irc c) (log_irc c)" for c
    unfolding log_irc_def
    by (rule agree_shape) (auto simp: same_shape_def)
  have nick: "nick_values ob ms = Inl e \<Longrightarrow> e = AssertionError" for ob ms e
    by (induction ob ms rule: nick_values.induct)
      (auto simp: object_attribute_def split: sum.splits option.splits member.splits)
  show "agree (acyclic_net rank) (attributeChanged c r) (attributeChanged c r)"
    unfolding attributeChanged_def
    by (intro agree_with_object)
      (auto simp: makeNick_def split: sum.split intro!: agree_throw log dest: nick)
  have "agree (acyclic_net rank) (watcher_send wid chs m) (watcher_send wid chs m)" for m
    using log by (auto simp: agree_def watcher_send_def split: option.split)
  then show "agree (acyclic_net rank) (remote_execute wid chs r n args) (remote_execute wid chs r n args)"
    unfolding remote_execute_def by (intro agree_with_object)
qed

definition set_agrees :: "(oref \<Rightarrow> nat) \<Rightarrow> nat \<Rightarrow> bool" where
  "set_agrees rank n \<longleftrightarrow> (\<forall>r a v d d'. rank r \<le> n \<longrightarrow> 2 * n + 1 \<le> d \<longrightarrow> 2 * n + 1 \<le> d' \<longrightarrow>
     agree (acyclic_net rank) (setAttribute d r a v) (setAttribute d' r a v))"

definition exec_agrees :: "(oref \<Rightarrow> nat) \<Rightarrow> nat \<Rightarrow> bool" where
  "exec_agrees rank n \<longleftrightarrow> (\<forall>r a args d d'. rank r \<le> n \<longrightarrow> 2 * n + 2 \<le> d \<longrightarrow> 2 * n + 2 \<le> d' \<longrightarrow>
     agree (acyclic_net rank) (executeAction d r a args) (executeAction d' r a args))"

lemma set_agrees_step:
  assumes "\<And>m. m < n \<Longrightarrow> exec_agrees rank m"
  shows "set_agrees rank n"
  unfolding set_agrees_def
proof (intro allI impI)
  fix r a v d d'
  assume r: "rank r \<le> n" and d: "2 * n + 1 \<le> d" "2 * n + 1 \<le> d'"
  then obtain k k' where k: "d = Suc k" "d' = Suc k'" "2 * n \<le> k" "2 * n \<le> k'"
    by (cases d; cases d') auto
  show "agree (acyclic_net rank) (setAttribute d r a v) (setAttribute d' r a v)"
    unfolding setAttribute_def
  proof (intro agree_set_attribute agree_emit)
    fix ev p w ob l
    assume ev: "ev = EvAttribute \<or> (\<exists>a. ev = EvAttributeOf a)" and w: "acyclic_net rank w"
      and l: "heap w r = Some ob" "(ev, l) \<in> set (listeners ob)"
    show "agree (acyclic_net rank) (call_listener d r l p) (call_listener d' r l p)"
    proof (cases l)
      case (LinkListener u src dst cfg)
      have "rank dst < rank r" using w l LinkListener by (fastforce simp: acyclic_net_def)
      then have m: "rank dst < n" using r by simp
      then have "2 * rank dst + 2 \<le> k" "2 * rank dst + 2 \<le> k'" using k by linarith+
      with assms[OF m] have "agree (acyclic_net rank) (executeAction k dst x y) (executeAction k' dst x y)" for x y
        by (auto simp: exec_agrees_def)
      then have "agree (acyclic_net rank) (link_handler (call_listener k) src dst cfg x)
          (link_handler (call_listener k') src dst cfg x)" for x
        unfolding link_handler_def executeAction_def
        by (auto intro!: agree_bindE agree_getAttribute agree_ret)
      then show ?thesis by (simp add: k LinkListener listener_body_def)
    next
      case (PluginListener h)
      with w l ev show ?thesis by (fastforce simp: acyclic_net_def)
    qed (auto simp: k listener_body_def intro!: agree_quiet agree_ret split: payload.split)
  qed
qed

lemma exec_agrees_step:
  assumes "set_agrees rank n"
  shows "exec_agrees rank n"
  unfolding exec_agrees_def
proof (intro allI impI)
  fix r a args d d'
  assume r: "rank r \<le> n" and d: "2 * n + 2 \<le> d" "2 * n + 2 \<le> d'"
  then obtain k k' where k: "d = Suc k" "d' = Suc k'" "2 * n + 1 \<le> k" "2 * n + 1 \<le> k'"
    by (cases d; cases d') auto
  have set: "agree (acyclic_net rank) (set_attribute_with (call_listener k) r x v)
      (set_attribute_with (call_listener k') r x v)" for x v
    using assms r k unfolding set_agrees_def setAttribute_def by blast
  have emit: "agree (acyclic_net rank) (emit_with (call_listener d) r ev p) (emit_with (call_listener d') r ev p)"
    if ev: "ev = EvAction \<or> (\<exists>a. ev = EvActionOf a)" for ev p
  proof (rule agree_emit)
    fix w ob l
    assume w: "acyclic_net rank w" and l: "heap w r = Some ob" "(ev, l) \<in> set (listeners ob)"
    show "agree (acyclic_net rank) (call_listener d r l p) (call_listener d' r l p)"
    proof (cases l)
      case (LinkListener u src dst cfg)
      with w l ev show ?thesis by (fastforce simp: acyclic_net_def)
    qed (auto simp: k listener_body_def intro!: agree_quiet agree_ret agree_run_plugin set split: payload.split)
  qed
  show "agree (acyclic_net rank) (executeAction d r a args) (executeAction d' r a args)"
    unfolding executeAction_def execute_action_with_def
    by (intro agree_with_object)
      (auto split: option.split member.split intro!: agree_throw agree_seqE emit dest: check_call_error)
qed

lemma dispatch_agrees: "exec_agrees rank n \<and> set_agrees rank n"
proof (induction n rule: less_induct)
  case (less n)
  then have "set_agrees rank n" by (intro set_agrees_step) blast
  then show ?case using exec_agrees_step by blast
qed


text \<open>
  C9: In a network whose links descend in a rank, an action on an object of rank n never exhausts a
  stack of 2n + 2 nested listener calls, and its result is the same for every larger stack, so
  the dispatch terminates with a result that depends on the network only.
\<close>

theorem acyclic_dispatch_terminates:
  assumes "acyclic_net rank w" "2 * rank r + 2 \<le> depth" "2 * rank r + 2 \<le> depth'"
  shows "fst (executeAction depth r a args w) \<noteq> Inl StackOverflow \<and>
    executeAction depth' r a args w = executeAction depth r a args w"
proof -
  have "exec_agrees rank (rank r)" using dispatch_agrees by blast
  then have "agree (acyclic_net rank) (executeAction depth r a args) (executeAction depth' r a args)"
    using assms(2,3) unfolding exec_agrees_def by blast
  then show ?thesis using assms(1) by (auto simp: agree_def)
qed

definition pair_rank :: "oref \<Rightarrow> nat" where
  "pair_rank r = (if r = 0 then 1 else 0)"

lemma sample_linked_heap:
  "heap (net sample_linked) = (heap sample_net)(0 \<mapsto>
     (plugin_object ''btn'' Button 1 (initial_values Button))\<lparr>listeners :=
        listeners (plugin_object ''btn'' Button 1 (initial_values Button)) @
        [(EvAttributeOf ''output'', LinkListener 4 0 2 link_pair), (EvConnected, LinkListener 4 0 2 link_pair)]\<rparr>)"
  by (simp add: sample_linked_def create_link_def sample_pair_def fresh_process_def lift_net_def
      connect_link_def op_defs repository_object_def sample_net_repository link_pair_def sample_link_def
      Let_def new_id_def plugin_publication_def add_listener_def map_listeners_def sample_net_heap)

lemma sample_linked_acyclic: "acyclic_net pair_rank (net sample_linked)"
proof -
  have "heap sample_net r = Some ob \<Longrightarrow> r = 0 \<and> ob = plugin_object ''btn'' Button 1 (initial_values Button)
      \<or> r = 2 \<and> ob = plugin_object ''lamp'' Light 3 (initial_values Light)" for r ob
    by (auto simp: sample_net_def plugin_published_def empty_world_def sample_pt_def make_plugin_type_def
        numeral_2_eq_2 numeral_3_eq_3 split: if_splits)
  then show ?thesis
    unfolding acyclic_net_def sample_linked_heap
    by (fastforce simp: plugin_object_def pair_rank_def split: if_splits)
qed

theorem acyclic_dispatch_terminates_witness:
  "fst (executeAction 4 0 ''input'' [] (net sample_linked)) \<noteq> Inl StackOverflow \<and>
   executeAction 1000 0 ''input'' [] (net sample_linked) = executeAction 4 0 ''input'' [] (net sample_linked)"
  by (rule acyclic_dispatch_terminates[OF sample_linked_acyclic]) (simp_all add: pair_rank_def)

subsection \<open>A cycle\<close>

text \<open>A hub whose output is linked to its own input.\<close>

definition looped_hub :: "world \<Rightarrow> oref \<Rightarrow> bool" where
  "looped_hub w r \<longleftrightarrow> (\<exists>ob u cfg. heap w r = Some ob \<and> obj_class ob = hub_bool_class \<and>
     listeners_of ob (EvActionOf ''input'') = [PluginListener HubBoolInput] \<and>
     listeners_of ob (EvAttributeOf ''output'') = [LinkListener u r r cfg] \<and> destinationAction cfg = ''input'')"

lemma hub_members:
  "find_member (members hub_bool_class) ''output'' = Some (Attribute ''output'' boolean_type)"
  "find_member (members hub_bool_class) ''input'' = Some (Action ''input'' [boolean_type])"
  by (simp_all add: hub_bool_class_def net_builders)

lemma looped_hub_put: "looped_hub w r \<Longrightarrow> looped_hub (put_value r n v w) r"
  by (auto simp: looped_hub_def put_value_def listeners_of_def)

lemma forE_single: "forE [x] f = seqE (f x) (ret ())"
  by simp

lemma looped_hub_overflow: "looped_hub w r \<Longrightarrow> fst (executeAction depth r ''input'' [v_on] w) = Inl StackOverflow"
proof (induction depth arbitrary: w rule: less_induct)
  case (less depth)
  let ?w1 = "put_value r ''output'' v_on w"
  obtain ob u cfg where ob: "heap w r = Some ob" "obj_class ob = hub_bool_class"
      "listeners_of ob (EvActionOf ''input'') = [PluginListener HubBoolInput]"
      "listeners_of ob (EvAttributeOf ''output'') = [LinkListener u r r cfg]" "destinationAction cfg = ''input''"
    using less.prems by (auto simp: looped_hub_def)
  obtain ob1 u1 cfg1 where ob1: "heap ?w1 r = Some ob1"
      "listeners_of ob1 (EvAttributeOf ''output'') = [LinkListener u1 r r cfg1]" "destinationAction cfg1 = ''input''"
    using looped_hub_put[OF less.prems, of "''output''" v_on] by (auto simp: looped_hub_def)
  have ok: "check_call [v_on] [boolean_type] = None" by (simp add: check_call_def)
  have top: "fst (executeAction depth r ''input'' [v_on] w) = Inl StackOverflow"
    if "fst (call_listener depth r (PluginListener HubBoolInput) (PArgs [v_on]) w) = Inl StackOverflow"
    using that ob hub_members ok
    by (auto simp: executeAction_def execute_action_with_def with_object_def getMember_def emit_with_def
        seqE_def bindE_def split: prod.splits sum.splits)
  show ?case
  proof (cases depth)
    case 0
    with top show ?thesis by (simp add: throw_def)
  next
    case (Suc d)
    have set: "fst (set_attribute_with (call_listener d) r ''output'' v_on w) = Inl StackOverflow"
      if "fst (call_listener d r (LinkListener u1 r r cfg1) (PValue v_on) ?w1) = Inl StackOverflow"
      using that ob ob1 hub_members
      by (auto simp: set_attribute_with_def with_object_def getMember_def emit_with_def
          seqE_def bindE_def modifyE_def split: prod.splits sum.splits)
    have "fst (call_listener d r (LinkListener u1 r r cfg1) (PValue v_on) ?w1) = Inl StackOverflow"
    proof (cases d)
      case 0
      then show ?thesis by (simp add: throw_def)
    next
      case (Suc k)
      have "fst (executeAction k r ''input'' [v_on] ?w1) = Inl StackOverflow"
        by (rule less.IH[OF _ looped_hub_put[OF less.prems]]) (simp add: Suc \<open>depth = Suc d\<close>)
      then show ?thesis
        using Suc ob1(3) by (simp add: listener_body_def link_handler_def bindE_def ret_def executeAction_def)
    qed
    with set top show ?thesis
      using Suc by (simp add: listener_body_def hub_bool_input_def)
  qed
qed

text \<open>
  C16: A hub linked to its own input never settles: setting its input overflows every stack,
  however deep. \<open>links.js\<close> accepts such a link.
\<close>

theorem self_link_never_settles:
  assumes "looped_hub w r"
  shows "fst (executeAction depth r ''input'' [v_on] w) = Inl StackOverflow"
  using assms by (rule looped_hub_overflow)

definition hub_net :: world where
  "hub_net = plugin_published ''hub'' (sample_pt HubBool) (empty_world ''node-1'')"

definition hub_loop :: world where
  "hub_loop = snd (connect_link (sample_link ''hub'' ''output'' ''hub'' ''input'') hub_net)"

lemma hub_loop_looped: "looped_hub hub_loop 0"
  by (simp add: hub_loop_def hub_net_def connect_link_def op_defs repository_object_def plugin_published_def
      empty_world_def plugin_publication_def sample_link_def Let_def new_id_def add_listener_def
      map_listeners_def looped_hub_def listeners_of_def plugin_object_def sample_pt_def make_plugin_type_def)

theorem self_link_never_settles_witness:
  "fst (executeAction 5000 0 ''input'' [v_on] hub_loop) = Inl StackOverflow"
  by (rule self_link_never_settles[OF hub_loop_looped])

subsection \<open>Types\<close>

text \<open>
  C13: Actions are type safe. Arguments that the signature of the action rejects never reach a listener and change
  nothing. An accepted action, with the whole cascade of plugin handlers and links it sets off, wherever an
  exception ends it, leaves every attribute of every object readable, with a value that its class declares; objects
  keep their class.
\<close>

theorem actions_type_safe:
  assumes "world_typed w" "heap w r = Some ob" "getMember ob name = Some (Action n ts)"
    and "executeAction depth r name args w = (res, w')"
  shows "(\<forall>e. check_call args ts = Some e \<longrightarrow> res = Inl e \<and> w' = w) \<and>
    (\<forall>q ob' a m t. heap w' q = Some ob' \<longrightarrow> getMember ob' a = Some (Attribute m t) \<longrightarrow>
       (\<exists>v. getAttribute q a w' = (Inr v, w') \<and> checkArg v t = None)) \<and>
    (\<forall>q ob0. heap w q = Some ob0 \<longrightarrow> (\<exists>ob'. heap w' q = Some ob' \<and> obj_class ob' = obj_class ob0))"
proof (intro conjI allI impI)
  fix e assume "check_call args ts = Some e"
  with assms(2-4) show "res = Inl e" "w' = w"
    by (simp_all add: executeAction_def execute_action_with_def with_object_def throw_def)
next
  fix q ob' a m t
  assume ob': "heap w' q = Some ob'" "getMember ob' a = Some (Attribute m t)"
  have "world_typed w'"
    using along_result[OF typed.along_executeAction assms(4)] assms(1) by (simp add: keeps_def)
  then have "object_typed ob'" using ob'(1) by (simp add: world_typed_def)
  from object_typed_attribute[OF this ob'(2)]
  show "\<exists>v. getAttribute q a w' = (Inr v, w') \<and> checkArg v t = None"
    using ob'(1) by (metis getAttribute_def with_object_def option.simps(5))
next
  fix q ob0 assume "heap w q = Some ob0"
  moreover have "same_shape w w'" by (rule along_result[OF shape.along_executeAction assms(4)])
  ultimately show "\<exists>ob'. heap w' q = Some ob' \<and> obj_class ob' = obj_class ob0"
    by (auto simp: same_shape_def obj_shape_def dest!: spec[of _ q])
qed

theorem actions_type_safe_witness:
  "\<exists>v. getAttribute 2 ''output'' (snd (executeAction 2 2 ''input'' [v_on] sample_net)) =
      (Inr v, snd (executeAction 2 2 ''input'' [v_on] sample_net)) \<and> checkArg v boolean_type = None"
proof -
  let ?ob = "plugin_object ''lamp'' Light 3 (initial_values Light)"
  obtain res w' where run: "executeAction 2 2 ''input'' [v_on] sample_net = (res, w')" by force
  have input: "getMember ?ob ''input'' = Some (Action ''input'' [boolean_type])"
    by (simp add: getMember_plugin plugin_members)
  note safe = actions_type_safe[OF sample_net_typed sample_net_heap(2) input run]
  then obtain ob' where ob': "heap w' 2 = Some ob'" "obj_class ob' = obj_class ?ob"
    using sample_net_heap(2) by blast
  then have "getMember ob' ''output'' = Some (Attribute ''output'' boolean_type)"
    using plugin_members(7) by (simp add: getMember_def plugin_object_def plugin_member_def)
  with safe ob'(1) run show ?thesis by simp
qed

end
