(* ===== verification/NetProps.thy ===== *)
theory NetProps
  imports Sample
begin

section \<open>Properties of the nick protocol, of messages and of the watcher\<close>

text \<open>
  A component tells its attributes to the other processes in its nick and receives actions as
  messages. The first group of properties joins both ends: what the publishing process encodes, the watching
  process decodes. The second describes the receiving end of messages, the third the channels of
  the watcher.
\<close>

subsection \<open>Nicks\<close>

abbreviation attr_value :: "nobject \<Rightarrow> string \<Rightarrow> jsval" where
  "attr_value ob n \<equiv> plugin_value (attr_values ob) n"

lemma object_attribute_wf:
  assumes "wf_class (obj_class ob)" "n \<in> set (attribute_names (members (obj_class ob)))"
  shows "object_attribute ob n = Inr (attr_value ob n)"
proof -
  obtain t where "find_member (members (obj_class ob)) n = Some (Attribute n t)"
    using wf_class_member[OF assms] .
  then show ?thesis by (simp add: object_attribute_def getMember_def plugin_value_def)
qed

lemma nick_values_parts:
  assumes "\<forall>n \<in> set (attribute_names ms). object_attribute ob n = Inr (attr_value ob n)"
  shows "nick_values ob ms = Inr (concat (map (\<lambda>n. CHR ''|'' # to_str (attr_value ob n)) (attribute_names ms)))"
  using assms by (induction ms rule: nick_values.induct) auto

lemma makeNick_wf:
  "wf_class (obj_class ob) \<Longrightarrow> makeNick ob =
     Inr (obj_id ob @ concat (map (\<lambda>n. CHR ''|'' # to_str (attr_value ob n))
       (attribute_names (members (obj_class ob)))))"
  by (simp add: makeNick_def nick_values_parts object_attribute_wf)

lemma split_nick:
  assumes "CHR ''|'' \<notin> set i" "\<forall>p \<in> set ps. CHR ''|'' \<notin> set p"
  shows "split_on CHR ''|'' (i @ concat (map ((#) CHR ''|'') ps)) = i # ps"
  using assms
proof (induction ps arbitrary: i)
  case Nil
  then show ?case by (simp add: split_on_no_sep)
next
  case (Cons p ps)
  then show ?case using split_on_append[of "CHR ''|''" i] by simp
qed

lemma attribute_updates_zip:
  "length ps = length (attribute_names ms) \<Longrightarrow>
     attribute_updates ms (Some ps) = zip (attribute_names ms) (map VStr ps)"
  by (induction ms "Some ps" arbitrary: ps rule: attribute_updates.induct) auto

text \<open>The values a nick can carry: the receiver reads each of them as a string.\<close>

definition transportable :: "jsval \<Rightarrow> bool" where
  "transportable v \<longleftrightarrow> (truthy v \<or> v = VStr []) \<and> CHR ''|'' \<notin> set (to_str v)"

lemma transported_accepted:
  assumes "checkArg v t = None" "transportable v"
  shows "checkArg (VStr (to_str v)) t = None"
proof (cases "truthy v")
  case True
  show ?thesis
  proof (cases t)
    case (TRange lo hi)
    with True assms(1) show ?thesis by (auto simp: checkArg_range_iff)
  next
    case (TEnum vs)
    with True assms(1) show ?thesis by (auto simp: checkArg_enum_iff)
  next
    case (TOther tag)
    then show ?thesis by (simp add: checkArg_def)
  qed
next
  case False
  with assms show ?thesis by (auto simp: transportable_def)
qed

text \<open>An object no link listens to: only its actions have listeners.\<close>

definition unlinked_object :: "nobject \<Rightarrow> bool" where
  "unlinked_object ob \<longleftrightarrow> list_all (\<lambda>(ev, l). ev = EvAction) (listeners ob)"

lemma unlinked_listeners:
  "unlinked_object ob \<Longrightarrow> ev \<noteq> EvAction \<Longrightarrow> listeners_of ob ev = []"
  by (auto simp: unlinked_object_def listeners_of_def list_all_iff filter_empty_conv)

definition with_values :: "nobject \<Rightarrow> (string \<times> jsval) list \<Rightarrow> nobject" where
  "with_values ob nvs = ob\<lparr>attr_values := foldl (\<lambda>f (n, v). f(n \<mapsto> v)) (attr_values ob) nvs\<rparr>"

lemma set_unlinked:
  assumes "heap w r = Some ob" "unlinked_object ob" "getMember ob n = Some (Attribute n t)" "checkArg v t = None"
  shows "setAttribute depth r n v w = (Inr (), put_value r n v w)"
proof -
  have "heap (put_value r n v w) r = Some (ob\<lparr>attr_values := (attr_values ob)(n \<mapsto> v)\<rparr>)"
    using assms(1) by (simp add: put_value_def)
  moreover have "listeners_of (ob\<lparr>attr_values := f\<rparr>) ev = listeners_of ob ev" for f ev
    by (simp add: listeners_of_def)
  ultimately show ?thesis
    using assms by (simp add: setAttribute_def set_attribute_with_def with_object_def op_defs emit_with_def
        unlinked_listeners)
qed

lemma set_all_unlinked:
  assumes "heap w r = Some ob" "unlinked_object ob"
    and "\<forall>(n, v) \<in> set nvs. \<exists>t. getMember ob n = Some (Attribute n t) \<and> checkArg v t = None"
  shows "\<exists>w'. forE nvs (\<lambda>(n, v). setAttribute depth r n v) w = (Inr (), w') \<and>
    heap w' = (heap w)(r \<mapsto> with_values ob nvs)"
  using assms
proof (induction nvs arbitrary: w ob)
  case Nil
  then show ?case by (auto simp: op_defs with_values_def)
next
  case (Cons nv nvs)
  obtain n v where nv: "nv = (n, v)" by (cases nv)
  then obtain t where t: "getMember ob n = Some (Attribute n t)" "checkArg v t = None"
    using Cons.prems(3) by auto
  let ?ob = "ob\<lparr>attr_values := (attr_values ob)(n \<mapsto> v)\<rparr>"
  have h: "heap (put_value r n v w) r = Some ?ob" using Cons.prems(1) by (simp add: put_value_def)
  have u: "unlinked_object ?ob" using Cons.prems(2) by (simp add: unlinked_object_def)
  have "\<forall>(n, v) \<in> set nvs. \<exists>t. getMember ?ob n = Some (Attribute n t) \<and> checkArg v t = None"
    using Cons.prems(3) by auto
  from Cons.IH[OF h u this] obtain w' where
    "forE nvs (\<lambda>(n, v). setAttribute depth r n v) (put_value r n v w) = (Inr (), w')"
    "heap w' = (heap (put_value r n v w))(r \<mapsto> with_values ?ob nvs)" by blast
  moreover have "with_values ?ob nvs = with_values ob (nv # nvs)" by (simp add: with_values_def nv)
  ultimately show ?case
    using nv set_unlinked[OF Cons.prems(1,2) t] Cons.prems(1)
    by (auto simp: seqE_def bindE_def put_value_def)
qed

lemma foldl_values:
  assumes "distinct ns" "length vs = length ns" "i < length ns"
  shows "foldl (\<lambda>f (n, v). f(n \<mapsto> v)) f0 (zip ns vs) (ns ! i) = Some (vs ! i)"
  using assms
proof (induction ns vs arbitrary: i f0 rule: list_induct2')
  case (4 n ns v vs)
  have *: "foldl (\<lambda>f (n, v). f(n \<mapsto> v)) g (zip ns vs) m = g m" if "m \<notin> set ns" for g m
    using that by (induction ns vs arbitrary: g rule: list_induct2') auto
  show ?case
  proof (cases i)
    case 0
    with 4 *[of n "f0(n \<mapsto> v)"] show ?thesis by (simp del: fun_upd_apply) simp
  next
    case (Suc j)
    with 4 show ?thesis by simp
  qed
qed auto

lemma attribute_names_distinct: "wf_class c \<Longrightarrow> distinct (attribute_names (members c))"
  by (auto simp: wf_class_def attribute_names_def distinct_map intro: inj_on_subset)

text \<open>
  What a process announces as the nick of a component, the watcher of another process
  restores on its copy: after \<open>nickChanged\<close> every attribute of the copy is the announced value, as
  a string, and the copy would announce the same nick.
\<close>

theorem nick_roundtrip:
  assumes nick: "makeNick ob = Inr nick" and typed: "object_typed ob"
    and cl: "wf_class (obj_class ob)" "obj_class copy = obj_class ob" "obj_id copy = obj_id ob"
    and bars: "CHR ''|'' \<notin> set (obj_id ob)"
      "\<forall>n \<in> set (attribute_names (members (obj_class ob))). transportable (attr_value ob n)"
    and watched: "watchers w wid = Some wt" "jget (wt_objects wt) (obj_id ob) = Some r"
      "heap w r = Some copy" "unlinked_object copy"
  shows "\<exists>w' copy'. nickChanged depth wid oldNick nick w = (Inr (), w') \<and> heap w' = (heap w)(r \<mapsto> copy') \<and>
    (\<forall>n \<in> set (attribute_names (members (obj_class ob))). attr_value copy' n = VStr (to_str (attr_value ob n))) \<and>
    makeNick copy' = Inr nick"
proof -
  let ?ns = "attribute_names (members (obj_class ob))"
  let ?ps = "map (\<lambda>n. to_str (attr_value ob n)) ?ns"
  let ?nvs = "zip ?ns (map VStr ?ps)"
  have n: "nick = obj_id ob @ concat (map ((#) CHR ''|'') ?ps)"
    using nick makeNick_wf[OF cl(1)] by (simp add: comp_def)
  have "split_on CHR ''|'' nick = obj_id ob # ?ps"
    unfolding n by (rule split_nick) (use bars in \<open>auto simp: transportable_def\<close>)
  then have sp: "nick_id nick = obj_id ob" "nick_attrs nick = ?ps" by (simp_all add: nick_id_def nick_attrs_def)
  have ok: "\<forall>(n, v) \<in> set ?nvs. \<exists>t. getMember copy n = Some (Attribute n t) \<and> checkArg v t = None"
  proof (clarsimp simp: set_zip)
    fix i assume i: "i < length ?ns"
    then obtain t where t: "find_member (members (obj_class ob)) (?ns ! i) = Some (Attribute (?ns ! i) t)"
      using wf_class_member[OF cl(1)] nth_mem by metis
    then obtain v where v: "object_attribute ob (?ns ! i) = Inr v" "checkArg v t = None"
      using object_typed_attribute[OF typed] by (metis getMember_def)
    have "v = attr_value ob (?ns ! i)" using v(1) object_attribute_wf[OF cl(1)] i by simp
    with v(2) bars(2) i have "checkArg (VStr (to_str (attr_value ob (?ns ! i)))) t = None"
      by (intro transported_accepted) auto
    with t cl(2) show "\<exists>t. getMember copy (?ns ! i) = Some (Attribute (?ns ! i) t) \<and>
        checkArg (VStr (to_str (attr_value ob (?ns ! i)))) t = None" by (auto simp: getMember_def)
  qed
  from set_all_unlinked[OF watched(3,4) ok, of depth] obtain w' where
    w': "forE ?nvs (\<lambda>(n, v). setAttribute depth r n v) w = (Inr (), w')"
      "heap w' = (heap w)(r \<mapsto> with_values copy ?nvs)" by blast
  have run: "nickChanged depth wid oldNick nick w = (Inr (), w')"
    using watched w'(1) cl(2) attribute_updates_zip[of ?ps "members (obj_class ob)"]
    by (simp add: nickChanged_def watched_def with_watcher_def sp setAttributes_def with_object_def)
  have vals: "\<forall>n \<in> set ?ns. attr_value (with_values copy ?nvs) n = VStr (to_str (attr_value ob n))"
    using foldl_values[OF attribute_names_distinct[OF cl(1)], of "map VStr ?ps"]
    by (auto simp: in_set_conv_nth with_values_def plugin_value_def)
  have "makeNick (with_values copy ?nvs) = Inr nick"
  proof -
    have c: "obj_class (with_values copy ?nvs) = obj_class ob" "obj_id (with_values copy ?nvs) = obj_id ob"
      using cl by (simp_all add: with_values_def)
    have m: "map (\<lambda>n. CHR ''|'' # to_str (attr_value (with_values copy ?nvs) n)) ?ns =
        map (\<lambda>n. CHR ''|'' # to_str (attr_value ob n)) ?ns"
      by (rule map_cong[OF refl]) (use vals in auto)
    have "makeNick (with_values copy ?nvs) = Inr (obj_id ob @
        concat (map (\<lambda>n. CHR ''|'' # to_str (attr_value (with_values copy ?nvs) n)) ?ns))"
      using makeNick_wf[of "with_values copy ?nvs"] cl(1) by (simp only: c)
    then show ?thesis using makeNick_wf[OF cl(1)] nick by (simp only: m)
  qed
  with run w'(2) vals show ?thesis by blast
qed


text \<open>A copy of the sample light in a second process, watched by watcher 7.\<close>

definition lamp_object :: nobject where
  "lamp_object = plugin_object ''lamp'' Light 3 ((initial_values Light)(''output'' \<mapsto> v_on))"

definition lamp_copy :: nobject where
  "lamp_copy = \<lparr>obj_id = ''lamp'', obj_class = light_class, attr_values = init_values (members light_class),
     listeners = [(EvAction, RemoteListener 7 [''#mylife-home-core''])]\<rparr>"

definition watching_net :: world where
  "watching_net = (empty_world ''node-2'')\<lparr>heap := [5 \<mapsto> lamp_copy], fresh := 8, watcher := Some 7,
     watchers := [7 \<mapsto> \<lparr>wt_client = 7, wt_channels = [(''#mylife-home-core'', 1)],
       wt_objects = [(''lamp'', 5)], wt_online = True\<rparr>]\<rparr>"

lemmas lamp_defs = lamp_object_def lamp_copy_def watching_net_def plugin_object_def plugin_class_defs net_builders

lemma lamp_object_facts:
  "makeNick lamp_object = Inr ''lamp|on''" "object_typed lamp_object" "wf_class (obj_class lamp_object)"
  "obj_class lamp_copy = obj_class lamp_object" "obj_id lamp_copy = obj_id lamp_object"
  "CHR ''|'' \<notin> set (obj_id lamp_object)" "unlinked_object lamp_copy"
  "\<forall>n \<in> set (attribute_names (members (obj_class lamp_object))). transportable (attr_value lamp_object n)"
proof -
  show "makeNick lamp_object = Inr ''lamp|on''"
    by (simp add: lamp_object_def makeNick_plugin plugin_nick_def plugin_value_def plugin_class_defs net_builders)
  show "object_typed lamp_object"
    by (auto simp: object_typed_def getMember_def lamp_defs checkArg_enum_iff split: if_splits)
qed (simp_all add: lamp_defs wf_class_def unlinked_object_def transportable_def plugin_value_def)

theorem nick_roundtrip_witness:
  "\<exists>w' copy'. nickChanged 3 7 ''lamp|off'' ''lamp|on'' watching_net = (Inr (), w') \<and>
    heap w' = (heap watching_net)(5 \<mapsto> copy') \<and>
    (\<forall>n \<in> set (attribute_names (members (obj_class lamp_object))).
       attr_value copy' n = VStr (to_str (attr_value lamp_object n))) \<and>
    makeNick copy' = Inr ''lamp|on''"
proof -
  have w: "watchers watching_net 7 = Some \<lparr>wt_client = 7, wt_channels = [(''#mylife-home-core'', 1)],
       wt_objects = [(''lamp'', 5)], wt_online = True\<rparr>" by (simp add: watching_net_def)
  show ?thesis
    by (rule nick_roundtrip[OF lamp_object_facts(1-6,8) w _ _ lamp_object_facts(7)])
      (simp_all add: watching_net_def lamp_object_def plugin_object_def)
qed

subsection \<open>Commands and messages\<close>

lemma command_text:
  "foldl (\<lambda>m a. m @ CHR '' '' # to_str a) s args = s @ concat (map (\<lambda>a. CHR '' '' # to_str a) args)"
  by (induction args arbitrary: s) simp_all

lemma split_command:
  assumes "CHR '' '' \<notin> set s" "\<forall>p \<in> set ps. CHR '' '' \<notin> set p"
  shows "split_on CHR '' '' (s @ concat (map ((#) CHR '' '') ps)) = s # ps"
  using assms
proof (induction ps arbitrary: s)
  case Nil
  then show ?case by (simp add: split_on_no_sep)
next
  case (Cons p ps)
  then show ?case using split_on_append[of "CHR '' ''" s] by simp
qed

text \<open>
  C17: An action executed on the copy of a remote component is said on its channel, and when this
  message reaches the component it executes the same action with the same arguments as
  strings.
\<close>

theorem remote_command_roundtrip:
  assumes watched: "watchers w wid = Some wt" "wt_online wt" "heap w r = Some copy"
    and target: "heap w2 (ct_object ct) = Some ob" "obj_id ob = obj_id copy" "take 1 ch = ''#''"
    and clean: "CHR '' '' \<notin> set (obj_id ob)" "CHR ''|'' \<notin> set (obj_id ob)" "CHR '' '' \<notin> set name"
      "\<forall>a \<in> set args. CHR '' '' \<notin> set (to_str a)"
  shows "\<exists>msg. remote_execute wid (ch # chs) r name args w =
      (Inr (), w\<lparr>irc_log := irc_log w @ [IrcSay (wt_client wt) ch msg]\<rparr>) \<and>
    message depth ct snd_nick ch msg w2 =
      catch_notice (ct_link ct) snd_nick (executeAction depth (ct_object ct) name (map (\<lambda>a. VStr (to_str a)) args)) w2"
proof -
  let ?ps = "name # map to_str args"
  define msg where "msg = obj_id ob @ concat (map ((#) CHR '' '') ?ps)"
  have "foldl (\<lambda>m a. m @ '' '' @ to_str a) (obj_id copy @ '' '' @ name) args = msg"
    using target(2) by (simp add: command_text msg_def comp_def)
  then have send: "remote_execute wid (ch # chs) r name args w =
      (Inr (), w\<lparr>irc_log := irc_log w @ [IrcSay (wt_client wt) ch msg]\<rparr>)"
    using watched by (simp add: remote_execute_def with_object_def watcher_send_def log_irc_def modifyE_def)
  have "split_on CHR '' '' msg = obj_id ob # ?ps"
    unfolding msg_def by (rule split_command) (use clean in auto)
  moreover have "isMyNick ob (obj_id ob)" using clean(2) by (simp add: isMyNick_def split_on_no_sep)
  ultimately have "message_args ob ch msg = Some ?ps"
    using target(3) by (simp add: message_args_def Let_def)
  then have "message depth ct snd_nick ch msg w2 =
      catch_notice (ct_link ct) snd_nick (executeAction depth (ct_object ct) name (map (\<lambda>a. VStr (to_str a)) args)) w2"
    using target(1) by (simp add: message_def with_object_def comp_def)
  with send show ?thesis by blast
qed

theorem remote_command_roundtrip_witness:
  "\<exists>msg. remote_execute 7 [''#mylife-home-core''] 5 ''input'' [v_on] watching_net =
      (Inr (), watching_net\<lparr>irc_log := irc_log watching_net @ [IrcSay 7 ''#mylife-home-core'' msg]\<rparr>) \<and>
    message 3 (plugin_publication (sample_pt Light) 2) ''node-2'' ''#mylife-home-core'' msg sample_net =
      catch_notice 3 ''node-2'' (executeAction 3 2 ''input'' [v_on]) sample_net"
proof -
  have w: "watchers watching_net 7 = Some \<lparr>wt_client = 7, wt_channels = [(''#mylife-home-core'', 1)],
       wt_objects = [(''lamp'', 5)], wt_online = True\<rparr>" "heap watching_net 5 = Some lamp_copy"
    by (simp_all add: watching_net_def)
  have c: "heap sample_net (ct_object (plugin_publication (sample_pt Light) 2)) =
      Some (plugin_object ''lamp'' Light 3 (initial_values Light))"
    by (simp add: plugin_publication_def sample_net_heap)
  have "wt_online \<lparr>wt_client = 7, wt_channels = [(''#mylife-home-core'', 1)],
       wt_objects = [(''lamp'', 5)], wt_online = True\<rparr>" by simp
  from remote_command_roundtrip[OF w(1) this w(2) c, of "''#mylife-home-core''" "''input''" "[v_on]" "[]" 3 "''node-2''"]
  show ?thesis by (simp add: lamp_copy_def plugin_object_def plugin_publication_def)
qed




subsection \<open>The channels of the watcher\<close>












end
