(* ===== verification/UiStructure.thy ===== *)
theory UiStructure
  imports NetProps
begin

section \<open>The structure of the user interface\<close>

text \<open>
  \<open>mylife-home-ui/structure.js\<close>: the server of the interface reads the interface description, the
  plugins and their types from the core, keeps what is meant for the interface and fills in the
  attribute indexes by which the browser finds a value in a nick.

  JSON strings that may be absent are strings here, the empty string standing for absence (the
  code only tests whether they are truthy); \<open>attributeIndex\<close> is \<open>VUndefined\<close> until it is filled.
\<close>

text \<open>An entry of a display's map: with a \<open>value\<close> field it is an enumeration value, otherwise a range.\<close>

datatype map_item = MapEnum string string | MapRange int int string

record ui_display =
  dsp_component :: string
  dsp_attribute :: string
  dsp_attributeIndex :: jsval
  dsp_map :: "map_item list"
  dsp_defaultImage :: string

datatype ui_action = ActWindow string bool | ActComponent string string | ActNone

record ui_command =
  cmd_id :: string
  cmd_display :: ui_display
  cmd_primary :: ui_action
  cmd_secondary :: ui_action

record ui_context_item =
  ctx_id :: string
  ctx_component :: string
  ctx_attribute :: string
  ctx_attributeIndex :: jsval

record ui_text =
  txt_id :: string
  txt_context :: "ui_context_item list"   \<comment> \<open>empty when the field is absent\<close>

record ui_window =
  win_id :: string
  win_background :: string
  win_commands :: "ui_command list"
  win_texts :: "ui_text list"

record ui_data =
  ui_windows :: "ui_window list"
  ui_resources :: "(string \<times> string) list"   \<comment> \<open>\<open>id\<close> and \<open>data\<close>\<close>
  ui_defaultWindow :: string

definition keep_ui_types :: "plugin_type list \<Rightarrow> plugin_type list" where
  "keep_ui_types types = arrayKeepIf types pt_ui"

definition keep_ui_plugins :: "plugin_type list \<Rightarrow> plugin_config list \<Rightarrow> plugin_config list" where
  "keep_ui_plugins types plugins = arrayKeepIf plugins (\<lambda>p. list_ex (\<lambda>t. pc_type p = pt_id t) types)"

definition getComponentPlugin :: "plugin_config list \<Rightarrow> string \<Rightarrow> plugin_config option" where
  "getComponentPlugin plugins componentId = arrayFind plugins (\<lambda>p. componentId = pc_id p)"

definition getPluginType :: "plugin_type list \<Rightarrow> plugin_config \<Rightarrow> plugin_type option" where
  "getPluginType types p = arrayFind types (\<lambda>t. pc_type p = pt_id t)"

text \<open>The loop of \<open>getAttributeIndex\<close>: the members before the name that are attributes are counted.\<close>

fun attribute_index_from :: "nat \<Rightarrow> member list \<Rightarrow> string \<Rightarrow> nat option" where
  "attribute_index_from k [] name = None"
| "attribute_index_from k (m # ms) name =
     (if mname m = name then Some k
      else attribute_index_from (if is_attribute m then Suc k else k) ms name)"

definition getAttributeIndex :: "plugin_type list \<Rightarrow> plugin_config list \<Rightarrow> string \<Rightarrow> string \<Rightarrow> jsval" where
  "getAttributeIndex types plugins componentId attributeName =
     (case getComponentPlugin plugins componentId of
        None \<Rightarrow> VNull
      | Some p \<Rightarrow>
          (case getPluginType types p of
             None \<Rightarrow> VNull
           | Some t \<Rightarrow>
               (case attribute_index_from 0 (members (pt_class t)) attributeName of
                  None \<Rightarrow> VNull | Some k \<Rightarrow> VNum (int k))))"

definition fill_display :: "(string \<Rightarrow> string \<Rightarrow> jsval) \<Rightarrow> ui_display \<Rightarrow> ui_display" where
  "fill_display index d =
     (if dsp_component d \<noteq> [] \<and> dsp_attribute d \<noteq> []
      then d\<lparr>dsp_attributeIndex := index (dsp_component d) (dsp_attribute d)\<rparr> else d)"

definition fill_text :: "(string \<Rightarrow> string \<Rightarrow> jsval) \<Rightarrow> ui_text \<Rightarrow> ui_text" where
  "fill_text index t = t\<lparr>txt_context := map (\<lambda>i. i\<lparr>ctx_attributeIndex :=
     index (ctx_component i) (ctx_attribute i)\<rparr>) (txt_context t)\<rparr>"

definition fill_window :: "(string \<Rightarrow> string \<Rightarrow> jsval) \<Rightarrow> ui_window \<Rightarrow> ui_window" where
  "fill_window index w = w\<lparr>
     win_commands := map (\<lambda>c. c\<lparr>cmd_display := fill_display index (cmd_display c)\<rparr>) (win_commands w),
     win_texts := map (fill_text index) (win_texts w)\<rparr>"

definition structure_get :: "ui_data \<Rightarrow> plugin_config list \<Rightarrow> plugin_type list \<Rightarrow> ui_data" where
  "structure_get ui plugins types =
     (let ts = keep_ui_types types;
          ps = keep_ui_plugins ts plugins
      in ui\<lparr>ui_windows := map (fill_window (getAttributeIndex ts ps)) (ui_windows ui)\<rparr>)"

subsection \<open>The index of an attribute is its place in the nick\<close>

lemma attribute_index_shift:
  "attribute_index_from k ms name = map_option ((+) k) (attribute_index_from 0 ms name)"
proof (induction ms arbitrary: k)
  case (Cons m ms)
  show ?case
    using Cons[of "Suc k"] Cons[of k] Cons[of "Suc 0"]
    by (cases "attribute_index_from 0 ms name") auto
qed simp

lemma attribute_index_place:
  assumes "distinct (map mname ms)" "name \<in> set (attribute_names ms)"
  shows "\<exists>k. attribute_index_from 0 ms name = Some k \<and> k < length (attribute_names ms) \<and>
    attribute_names ms ! k = name"
  using assms
proof (induction ms)
  case (Cons m ms)
  show ?case
  proof (cases m)
    case (Attribute n t)
    show ?thesis
    proof (cases "n = name")
      case True
      with Attribute show ?thesis by simp
    next
      case False
      with Cons Attribute obtain k where "attribute_index_from 0 ms name = Some k"
          "k < length (attribute_names ms)" "attribute_names ms ! k = name" by auto
      with False Attribute attribute_index_shift[of "Suc 0" ms name] show ?thesis by simp
    qed
  next
    case (Action n ts)
    have "attribute_names ms = map mname (filter is_attribute ms)" by (simp add: attribute_names_def)
    then have "name \<in> mname ` set ms" using Cons.prems(2) Action by auto
    then have "n \<noteq> name" using Cons.prems(1) Action by auto
    with Cons Action show ?thesis by simp
  qed
qed simp

end
