(* ===== verification/UiNet.thy ===== *)
theory UiNet
  imports UiStructure
begin

section \<open>The gateway and the network table of the browser\<close>

text \<open>
  \<open>mylife-home-ui/gateway.js\<close> forwards the events of an irc client to the browser over a socket and
  the browser's actions to the interface channel; \<open>public/app/net.js\<close> keeps the table of the
  components that are online, with the attribute values of their last nick.
\<close>

datatype socket_msg = SPartAll | SPart string | SJoin string | SChanged string string | SDisconnect

text \<open>
  The events the gateway handles are those of the core's watcher and \<open>close\<close>. The \<open>names\<close> list is
  enumerated by property name: the nicks of an object, the indexes of an array.
\<close>

datatype gateway_event = IrcEvent irc_event | IrcClose

fun names_keys :: "names_arg \<Rightarrow> string list" where
  "names_keys (NamesObject users) = users"
| "names_keys (NamesArray users) = map show_nat [0..<length users]"

fun gateway_msgs :: "gateway_event \<Rightarrow> socket_msg list" where
  "gateway_msgs IrcClose = [SPartAll]"
| "gateway_msgs (IrcEvent (JoinEvent channel who)) = [SJoin who]"
| "gateway_msgs (IrcEvent (PartEvent channel who)) = [SPart who]"
| "gateway_msgs (IrcEvent (KickEvent channel who)) = [SPart who]"
| "gateway_msgs (IrcEvent (KillEvent who)) = [SPart who]"
| "gateway_msgs (IrcEvent (QuitEvent who)) = [SPart who]"
| "gateway_msgs (IrcEvent (NickEvent oldnick newnick)) = [SChanged oldnick newnick]"
| "gateway_msgs (IrcEvent (NamesEvent channel users)) = map SJoin (names_keys users)"
| "gateway_msgs (IrcEvent RegisteredEvent) = []"
| "gateway_msgs (IrcEvent ConnectionEndEvent) = []"

text \<open>The message \<open>{target, message}\<close> of the browser becomes a line on the interface channel.\<close>

definition gateway_say :: "nat \<Rightarrow> string \<Rightarrow> string \<Rightarrow> string \<Rightarrow> irc_call" where
  "gateway_say client channel target msg = IrcSay client channel (target @ '' '' @ msg)"

record client_net =
  cn_net :: "string list dict"     \<comment> \<open>id to attribute values\<close>
  cn_connected :: bool

type_synonym 'a netop = "(client_net, 'a) op"

definition net_partall :: "unit netop" where
  "net_partall = modifyE (\<lambda>c. c\<lparr>cn_net := foldl (\<lambda>d k. jdel k d) (cn_net c) (jkeys (cn_net c))\<rparr>)"

definition net_join :: "string \<Rightarrow> string list \<Rightarrow> unit netop" where
  "net_join i attrs = modifyE (\<lambda>c. c\<lparr>cn_net := jset i attrs (cn_net c), cn_connected := True\<rparr>)"

definition net_part :: "string \<Rightarrow> unit netop" where
  "net_part i = modifyE (\<lambda>c. c\<lparr>cn_net := jdel i (cn_net c)\<rparr>)"

definition net_changed :: "string \<Rightarrow> string list \<Rightarrow> unit netop" where
  "net_changed i attrs c =
     (case jget (cn_net c) i of
        None \<Rightarrow> (Inl TypeErr, c)
      | Some old \<Rightarrow> (Inr (), c\<lparr>cn_net := jset i attrs (cn_net c)\<rparr>))"

definition set_disconnected :: "unit netop" where
  "set_disconnected = modifyE (\<lambda>c. c\<lparr>cn_connected := False\<rparr>)"

fun net_receive :: "socket_msg \<Rightarrow> unit netop" where
  "net_receive SDisconnect = seqE net_partall set_disconnected"
| "net_receive SPartAll = seqE net_partall set_disconnected"
| "net_receive (SPart nick) = net_part (nick_id nick)"
| "net_receive (SJoin nick) = net_join (nick_id nick) (nick_attrs nick)"
| "net_receive (SChanged oldnick newnick) = net_changed (nick_id newnick) (nick_attrs newnick)"

text \<open>
  Socket messages arrive one by one; an exception in a handler ends that handler only.
\<close>

primrec net_run :: "socket_msg list \<Rightarrow> client_net \<Rightarrow> client_net" where
  "net_run [] c = c"
| "net_run (m # ms) c = net_run ms (snd (net_receive m c))"

text \<open>
  \<open>componentAttribute\<close>: comparing the length with a null index compares it with 0, with an undefined
  one it is false; reading \<open>attrs[null]\<close> gives undefined.
\<close>

definition componentAttribute :: "client_net \<Rightarrow> string \<Rightarrow> jsval \<Rightarrow> jsval" where
  "componentAttribute c componentId attributeIndex =
     (case jget (cn_net c) componentId of
        None \<Rightarrow> VNull
      | Some attrs \<Rightarrow>
          (case attributeIndex of
             VNum k \<Rightarrow> (if int (length attrs) \<le> k then VNull
                        else if k < 0 then VUndefined else VStr (attrs ! nat k))
           | VNull \<Rightarrow> (if attrs = [] then VNull else VUndefined)
           | _ \<Rightarrow> VUndefined))"

definition empty_net :: client_net where
  "empty_net = \<lparr>cn_net = [], cn_connected = False\<rparr>"

subsection \<open>Lemmas\<close>

lemma jdel_absent [simp]: "jdel k [] = []"
  by (simp add: AList.delete_eq)

lemma partall_empties: "foldl (\<lambda>d k. jdel k d) d (jkeys d) = []"
proof -
  have *: "foldl (\<lambda>d k. jdel k d) d ks = filter (\<lambda>(k, v). k \<notin> set ks) d" for d :: "'a dict" and ks
  proof (induction ks arbitrary: d)
    case (Cons k ks)
    have "jdel k d = filter (\<lambda>(j, v). j \<noteq> k) d" by (auto simp: AList.delete_eq intro!: filter_cong)
    then have "foldl (\<lambda>d k. jdel k d) d (k # ks) = filter (\<lambda>(j, v). j \<notin> set ks) (filter (\<lambda>(j, v). j \<noteq> k) d)"
      using Cons.IH by simp
    also have "\<dots> = filter (\<lambda>(j, v). j \<notin> set (k # ks)) d"
      unfolding filter_filter by (rule filter_cong) auto
    finally show ?case .
  qed simp
  show ?thesis unfolding * by (auto simp: filter_empty_conv rev_image_eqI)
qed

lemma net_receive_partall:
  "net_receive SPartAll c = (Inr (), empty_net)" "net_receive SDisconnect c = (Inr (), empty_net)"
  by (simp_all add: net_partall_def set_disconnected_def op_defs partall_empties empty_net_def)

end
