(* ===== verification/UiHelper.thy ===== *)
theory UiHelper
  imports UiNet
begin

section \<open>Displays, actions and input of the browser interface\<close>

text \<open>
  \<open>public/app/uihelper.js\<close>, \<open>controllers.js\<close> and the dialogs and the click directive of \<open>tools.js\<close>.
  Angular's \<open>$timeout\<close> and \<open>$modal\<close> are third party: a timer is a due time with a flag telling
  whether it is still armed, a dialog ends closed or dismissed.
\<close>

subsection \<open>Displays\<close>

definition findResource :: "ui_data \<Rightarrow> string \<Rightarrow> string option" where
  "findResource st i = map_option snd (arrayFind (ui_resources st) (\<lambda>r. fst r = i))"

fun item_image :: "map_item \<Rightarrow> string" where
  "item_image (MapEnum v img) = img"
| "item_image (MapRange lo hi img) = img"

text \<open>
  Does an entry match the value? Both sides of the comparison with an enumeration value are strings. A
  value that is not a number compares false with both bounds.
\<close>

fun item_matches :: "string \<Rightarrow> map_item \<Rightarrow> bool" where
  "item_matches value (MapEnum v img) = (v = value)"
| "item_matches value (MapRange lo hi img) =
     (case parse_int value of None \<Rightarrow> False | Some n \<Rightarrow> lo \<le> n \<and> n \<le> hi)"

fun map_image :: "string \<Rightarrow> map_item list \<Rightarrow> string option" where
  "map_image value [] = None"
| "map_image value (item # items) =
     (if item_matches value item then Some (item_image item) else map_image value items)"

text \<open>A value is used when it is truthy; the strings of a nick are the only truthy values.\<close>

definition command_image :: "ui_data \<Rightarrow> client_net \<Rightarrow> ui_display \<Rightarrow> string option" where
  "command_image st c d =
     (if dsp_component d \<noteq> [] \<and> dsp_attribute d \<noteq> [] \<and> dsp_map d \<noteq> []
      then (case componentAttribute c (dsp_component d) (dsp_attributeIndex d) of
              VStr value \<Rightarrow>
                (if value = [] then findResource st (dsp_defaultImage d)
                 else (case map_image value (dsp_map d) of
                         Some img \<Rightarrow> findResource st img
                       | None \<Rightarrow> findResource st (dsp_defaultImage d)))
            | _ \<Rightarrow> findResource st (dsp_defaultImage d))
      else findResource st (dsp_defaultImage d))"

definition text_context :: "client_net \<Rightarrow> ui_text \<Rightarrow> jsval dict" where
  "text_context c t = foldl (\<lambda>ctx i. jset (ctx_id i)
     (componentAttribute c (ctx_component i) (ctx_attributeIndex i)) ctx) [] (txt_context t)"

subsection \<open>Actions\<close>

datatype ui_effect = ShowPopup string | ShowWindow string | SendAction string string

definition run_ui_action :: "ui_action \<Rightarrow> ui_effect list" where
  "run_ui_action a =
     (case a of
        ActWindow w popup \<Rightarrow> (if popup then [ShowPopup w] else [ShowWindow (''/'' @ w)])
      | ActComponent i act \<Rightarrow> [SendAction i act]
      | ActNone \<Rightarrow> [])"

text \<open>The window controller looks the window up and builds what it shows.\<close>

record window_view =
  vw_image :: "string option"
  vw_commands :: "(string \<times> string option) list"   \<comment> \<open>\<open>window:command\<close> and its image\<close>
  vw_texts :: "(string \<times> jsval dict) list"

definition window_view :: "ui_data \<Rightarrow> client_net \<Rightarrow> string \<Rightarrow> js_error + window_view" where
  "window_view st c windowId =
     (case arrayFind (ui_windows st) (\<lambda>w. win_id w = windowId) of
        None \<Rightarrow> Inl TypeErr
      | Some w \<Rightarrow> Inr \<lparr>
          vw_image = findResource st (win_background w),
          vw_commands = arraySelect (win_commands w)
            (\<lambda>sc. (win_id w @ '':'' @ cmd_id sc, command_image st c (cmd_display sc))),
          vw_texts = arraySelect (win_texts w) (\<lambda>t. (win_id w @ '':'' @ txt_id t, text_context c t))\<rparr>)"

subsection \<open>Short and long presses\<close>

text \<open>
  \<open>inputManager\<close>: presses shorter than half a second are collected as \<open>s\<close>, longer ones as \<open>l\<close>,
  and 300 ms after the last release the word is executed. \<open>im_executed\<close> records the words whose
  function was looked up, in order; the table \<open>config\<close> only decides what runs for a word.
\<close>

record input_manager =
  im_lastDown :: "nat option"
  im_stack :: string
  im_endWait :: "nat option"     \<comment> \<open>due time of the last timer made\<close>
  im_armed :: bool               \<comment> \<open>it was neither cancelled nor run\<close>
  im_executed :: "string list"

datatype input_event = InputDown nat | InputUp nat | InputTime nat

definition new_input :: input_manager where
  "new_input = \<lparr>im_lastDown = None, im_stack = [], im_endWait = None, im_armed = False, im_executed = []\<rparr>"

definition cancel_wait :: "input_manager \<Rightarrow> input_manager" where
  "cancel_wait s = (if im_endWait s \<noteq> None then s\<lparr>im_armed := False\<rparr> else s)"

definition input_down :: "nat \<Rightarrow> input_manager \<Rightarrow> input_manager" where
  "input_down now s = (cancel_wait s)\<lparr>im_lastDown := Some now\<rparr>"

definition input_up :: "nat \<Rightarrow> input_manager \<Rightarrow> input_manager" where
  "input_up now s =
     (let s1 = cancel_wait s
      in case im_lastDown s1 of
           None \<Rightarrow> s1\<lparr>im_stack := []\<rparr>
         | Some down_ts \<Rightarrow>
             s1\<lparr>im_lastDown := None,
                im_stack := im_stack s1 @ (if now - down_ts < 500 then ''s'' else ''l''),
                im_endWait := Some (now + 300), im_armed := True\<rparr>)"

definition input_timer :: "nat \<Rightarrow> input_manager \<Rightarrow> input_manager" where
  "input_timer now s =
     (case im_endWait s of
        None \<Rightarrow> s
      | Some due \<Rightarrow>
          if im_armed s \<and> due \<le> now
          then s\<lparr>im_executed := im_executed s @ [im_stack s], im_stack := [], im_endWait := None,
                 im_armed := False\<rparr>
          else s)"

text \<open>Before an event of the mouse at a time, a timer that is due by then has run.\<close>

fun input_step :: "input_manager \<Rightarrow> input_event \<Rightarrow> input_manager" where
  "input_step s (InputDown now) = input_down now (input_timer now s)"
| "input_step s (InputUp now) = input_up now (input_timer now s)"
| "input_step s (InputTime now) = input_timer now s"

text \<open>The directive \<open>inputHandler\<close>: a device that knows touch events binds these, the others bind the mouse.\<close>

datatype dom_event = TouchStart | TouchEnd | MouseDown | MouseUp

fun inputHandler :: "bool \<Rightarrow> dom_event \<Rightarrow> nat \<Rightarrow> input_manager \<Rightarrow> input_manager" where
  "inputHandler isTouchDevice TouchStart now s = (if isTouchDevice then input_step s (InputDown now) else s)"
| "inputHandler isTouchDevice TouchEnd now s = (if isTouchDevice then input_step s (InputUp now) else s)"
| "inputHandler isTouchDevice MouseDown now s = (if isTouchDevice then s else input_step s (InputDown now))"
| "inputHandler isTouchDevice MouseUp now s = (if isTouchDevice then s else input_step s (InputUp now))"

subsection \<open>Dialogs and single clicks\<close>

datatype dialog_result = DialogClosed | DialogDismissed

datatype callback = CallbackOk | CallbackCancel

text \<open>The callbacks a dialog calls, given those the caller supplied.\<close>

definition call_if :: "callback set \<Rightarrow> callback \<Rightarrow> callback list" where
  "call_if supplied cb = (if cb \<in> supplied then [cb] else [])"

fun dialogConfirm :: "callback set \<Rightarrow> dialog_result \<Rightarrow> callback list" where
  "dialogConfirm params DialogClosed = call_if params CallbackOk"
| "dialogConfirm params DialogDismissed = call_if params CallbackOk"

fun dialogAlert :: "callback set \<Rightarrow> dialog_result \<Rightarrow> callback list" where
  "dialogAlert params DialogClosed = call_if params CallbackOk"
| "dialogAlert params DialogDismissed = call_if params CallbackCancel"

fun dialogPrompt :: "callback set \<Rightarrow> dialog_result \<Rightarrow> callback list" where
  "dialogPrompt params DialogClosed = call_if params CallbackOk"
| "dialogPrompt params DialogDismissed = call_if params CallbackCancel"

text \<open>
  The \<open>sglclick\<close> directive: a click starts a timer of 300 ms whose function runs the handler; a second
  click before that clears it.
\<close>

record click_state =
  ck_clicks :: nat
  ck_timer :: "nat option"    \<comment> \<open>due time of the armed timer\<close>
  ck_runs :: nat              \<comment> \<open>how often the handler ran\<close>

definition click_timer :: "nat \<Rightarrow> click_state \<Rightarrow> click_state" where
  "click_timer now s =
     (case ck_timer s of
        None \<Rightarrow> s
      | Some due \<Rightarrow> if due \<le> now then s\<lparr>ck_runs := Suc (ck_runs s), ck_clicks := 0, ck_timer := None\<rparr> else s)"

definition click :: "nat \<Rightarrow> click_state \<Rightarrow> click_state" where
  "click now s0 =
     (let s = click_timer now s0; n = Suc (ck_clicks s)
      in if n = 1 then s\<lparr>ck_clicks := n, ck_timer := Some (now + 300)\<rparr>
         else s\<lparr>ck_timer := None, ck_clicks := 0\<rparr>)"

definition clicks_at :: "nat list \<Rightarrow> click_state" where
  "clicks_at ts = foldl (\<lambda>s t. click t s) \<lparr>ck_clicks = 0, ck_timer = None, ck_runs = 0\<rparr> ts"

end
