(* ===== verification/UiProps.thy ===== *)
theory UiProps
  imports UiHelper
begin

section \<open>Properties of the user interface\<close>

text \<open>
  The interface reads the values that the core announces and its actions reach the core; the table of the
  browser, the choice of an image and the words of the input manager are related to simple
  specifications.
\<close>

subsection \<open>Values and actions, end to end\<close>

lemma nick_parts:
  assumes "makeNick ob = Inr nick" "wf_class (obj_class ob)" "CHR ''|'' \<notin> set (obj_id ob)"
    "\<forall>n \<in> set (attribute_names (members (obj_class ob))). CHR ''|'' \<notin> set (to_str (attr_value ob n))"
  shows "nick_id nick = obj_id ob"
    "nick_attrs nick = map (\<lambda>n. to_str (attr_value ob n)) (attribute_names (members (obj_class ob)))"
proof -
  let ?ps = "map (\<lambda>n. to_str (attr_value ob n)) (attribute_names (members (obj_class ob)))"
  have n: "nick = obj_id ob @ concat (map ((#) CHR ''|'') ?ps)"
    using assms(1) makeNick_wf[OF assms(2)] by (simp add: comp_def)
  have "split_on CHR ''|'' nick = obj_id ob # ?ps"
    unfolding n by (rule split_nick) (use assms in auto)
  then show "nick_id nick = obj_id ob" "nick_attrs nick = ?ps"
    by (simp_all add: nick_id_def nick_attrs_def)
qed

text \<open>
  Once the browser has received the nick of a component, by a join or a change, looking an attribute up
  with the index that the interface server computed from the plugin's class gives exactly the value
  the core announced for this attribute.
\<close>

lemma received_value:
  assumes nick: "makeNick ob = Inr nick" "wf_class (obj_class ob)" "CHR ''|'' \<notin> set (obj_id ob)"
    "\<forall>n \<in> set (attribute_names (members (obj_class ob))). CHR ''|'' \<notin> set (to_str (attr_value ob n))"
    and found: "getComponentPlugin ps (obj_id ob) = Some p" "getPluginType ts p = Some t"
      "pt_class t = obj_class ob" "a \<in> set (attribute_names (members (obj_class ob)))"
    and received: "msg = SJoin nick \<or> msg = SChanged oldnick nick \<and> jget (cn_net c) (obj_id ob) \<noteq> None"
  shows "componentAttribute (snd (net_receive msg c)) (obj_id ob) (getAttributeIndex ts ps (obj_id ob) a) =
    VStr (to_str (attr_value ob a))"
proof -
  let ?ns = "attribute_names (members (obj_class ob))"
  note parts = nick_parts[OF nick]
  obtain k where k: "attribute_index_from 0 (members (obj_class ob)) a = Some k" "k < length ?ns" "?ns ! k = a"
    using attribute_index_place[of "members (obj_class ob)" a] nick(2) found(4) by (auto simp: wf_class_def)
  have "jget (cn_net (snd (net_receive msg c))) (obj_id ob) = Some (map (\<lambda>n. to_str (attr_value ob n)) ?ns)"
    using received by (auto simp: parts net_join_def net_changed_def op_defs)
  moreover have "getAttributeIndex ts ps (obj_id ob) a = VNum (int k)"
    using found k by (simp add: getAttributeIndex_def)
  ultimately show ?thesis using k by (simp add: componentAttribute_def)
qed

lemma received_value_sample:
  "componentAttribute (snd (net_receive (SChanged ''lamp|off'' ''lamp|on'') \<lparr>cn_net = [(''lamp'', [''off''])], cn_connected = True\<rparr>))
     (obj_id lamp_object)
     (getAttributeIndex [sample_pt Light] [sample_plugin ''lamp'' ''sample''] (obj_id lamp_object) ''output'') =
   VStr (to_str (attr_value lamp_object ''output''))"
proof (rule received_value[OF lamp_object_facts(1,3,6)])
  show "\<forall>n \<in> set (attribute_names (members (obj_class lamp_object))). CHR ''|'' \<notin> set (to_str (attr_value lamp_object n))"
    using lamp_object_facts(8) by (simp add: transportable_def)
  show "getPluginType [sample_pt Light] (sample_plugin ''lamp'' ''sample'') = Some (sample_pt Light)"
    by (simp add: getPluginType_def sample_plugin_def sample_pt_def make_plugin_type_def)
qed (simp_all add: getComponentPlugin_def sample_plugin_def sample_pt_def make_plugin_type_def lamp_defs)

text \<open>
  C21: An action chosen in the browser reaches its component: the line the gateway says on the interface
  channel makes the component execute the action without arguments, and no other component reacts.
\<close>

theorem ui_action_reaches_component:
  assumes act: "run_ui_action (ActComponent i name) = [SendAction target command]"
    and say: "gateway_say client channel target command = IrcSay client channel line" "take 1 channel = ''#''"
    and clean: "CHR '' '' \<notin> set i" "CHR ''|'' \<notin> set i" "CHR '' '' \<notin> set name"
    and ob: "heap w (ct_object ct) = Some ob"
  shows "message depth ct sender channel line w =
    (if obj_id ob = i then catch_notice (ct_link ct) sender (executeAction depth (ct_object ct) name []) w
     else (Inr (), w))"
proof -
  have "target = i" "command = name" using act by (simp_all add: run_ui_action_def)
  then have "line = i @ concat (map ((#) CHR '' '') [name])" using say(1) by (simp add: gateway_say_def)
  then have "split_on CHR '' '' line = [i, name]"
    using split_command[of i "[name]"] clean by simp
  moreover have "isMyNick ob i \<longleftrightarrow> obj_id ob = i" using clean(2) by (auto simp: isMyNick_def split_on_no_sep)
  ultimately show ?thesis
    using say(2) ob by (simp add: message_def with_object_def message_args_def Let_def ret_def)
qed

theorem ui_action_reaches_component_witness:
  "message 3 (plugin_publication (sample_pt Light) 2) ''ui-1'' ''#mylife-home-ui'' ''lamp input'' sample_net =
     catch_notice 3 ''ui-1'' (executeAction 3 2 ''input'' []) sample_net"
  using ui_action_reaches_component[of "''lamp''" "''input''" "''lamp''" "''input''" 9 "''#mylife-home-ui''"
      "''lamp input''" sample_net "plugin_publication (sample_pt Light) 2" _ 3 "''ui-1''"]
  by (simp add: run_ui_action_def gateway_say_def plugin_publication_def sample_net_heap plugin_object_def)

subsection \<open>The table of the browser\<close>






text \<open>A change of nick of a component the browser does not know throws in the handler.\<close>

lemma unknown_change_throws:
  "jget (cn_net c) (nick_id newnick) = None \<Longrightarrow> net_receive (SChanged oldnick newnick) c = (Inl TypeErr, c)"
  by (simp add: net_changed_def)

subsection \<open>Displays\<close>

lemma map_image_find: "map_image v items = map_option item_image (arrayFind items (item_matches v))"
  by (induction items) auto

text \<open>
  A display shows the image of the first entry of its map that matches the announced value, and its
  default image when the component is offline, the value is empty or no entry matches.
\<close>

theorem display_shows_first_match:
  assumes "dsp_component d \<noteq> []" "dsp_attribute d \<noteq> []" "dsp_map d \<noteq> []"
  shows "command_image st c d = findResource st
    (case componentAttribute c (dsp_component d) (dsp_attributeIndex d) of
       VStr v \<Rightarrow> (case find (item_matches v) (dsp_map d) of
                   Some item \<Rightarrow> if v = [] then dsp_defaultImage d else item_image item
                 | None \<Rightarrow> dsp_defaultImage d)
     | _ \<Rightarrow> dsp_defaultImage d)"
proof -
  have "arrayFind xs p = find p xs" for xs and p :: "map_item \<Rightarrow> bool"
    by (induction xs) auto
  with assms show ?thesis
    by (auto simp: command_image_def map_image_find split: jsval.split option.split)
qed

definition lamp_display :: ui_display where
  "lamp_display = \<lparr>dsp_component = ''lamp'', dsp_attribute = ''output'', dsp_attributeIndex = VNum 0,
     dsp_map = [MapEnum ''on'' ''lamp-on'', MapEnum ''off'' ''lamp-off''], dsp_defaultImage = ''lamp-off''\<rparr>"

definition lamp_ui :: ui_data where
  "lamp_ui = \<lparr>ui_windows = [], ui_resources = [(''lamp-on'', ''data:1''), (''lamp-off'', ''data:0'')], ui_defaultWindow = ''main''\<rparr>"

theorem display_shows_first_match_witness:
  "command_image lamp_ui (snd (net_receive (SJoin ''lamp|on'') empty_net)) lamp_display = Some ''data:1''"
  by (subst display_shows_first_match)
    (simp_all add: lamp_display_def lamp_ui_def findResource_def componentAttribute_def nick_id_def
      nick_attrs_def net_join_def op_defs empty_net_def)

subsection \<open>Words of presses\<close>

text \<open>Presses as pairs of the pause before the press and its duration, from a time on.\<close>

fun press_events :: "nat \<Rightarrow> (nat \<times> nat) list \<Rightarrow> input_event list" where
  "press_events t [] = [InputTime (t + 300)]"
| "press_events t ((gap, dur) # ps) =
     InputDown (t + gap) # InputUp (t + gap + dur) # press_events (t + gap + dur) ps"

definition letter :: "nat \<Rightarrow> string" where
  "letter dur = (if dur < 500 then ''s'' else ''l'')"

fun press_words :: "string \<Rightarrow> (nat \<times> nat) list \<Rightarrow> string list" where
  "press_words cur [] = [cur]"
| "press_words cur ((gap, dur) # ps) =
     (if gap < 300 then press_words (cur @ letter dur) ps else cur # press_words (letter dur) ps)"

lemma press_words_run:
  "im_executed (foldl input_step
     \<lparr>im_lastDown = None, im_stack = cur, im_endWait = Some (t + 300), im_armed = True, im_executed = done_words\<rparr>
     (press_events t ps)) = done_words @ press_words cur ps"
proof (induction ps arbitrary: t cur done_words)
  case Nil
  then show ?case by (simp add: input_timer_def)
next
  case (Cons p ps)
  obtain gap dur where p: "p = (gap, dur)" by (cases p)
  show ?case
    using Cons.IH[of "cur @ letter dur" "t + gap + dur" done_words]
      Cons.IH[of "letter dur" "t + gap + dur" "done_words @ [cur]"]
    by (auto simp: p input_timer_def input_down_def input_up_def cancel_wait_def Let_def letter_def)
qed

text \<open>
  The input manager executes exactly the words of the presses: short and long presses are
  collected while the pauses stay under 300 ms, and a longer pause ends the word, whatever the durations
  of the presses.
\<close>

theorem input_executes_words:
  "im_executed (foldl input_step new_input
     (InputDown t # InputUp (t + dur) # press_events (t + dur) ps)) = press_words (letter dur) ps"
  using press_words_run[of "letter dur" "t + dur" "[]" ps]
  by (simp add: new_input_def input_down_def input_up_def input_timer_def cancel_wait_def Let_def letter_def)

text \<open>A single press, by finger or by mouse, executes its letter 300 ms later; a device with a touch screen does not hear its mouse.\<close>

lemma single_press:
  "im_executed (input_timer (t + dur + 300) (inputHandler touch (if touch then TouchEnd else MouseUp) (t + dur)
     (inputHandler touch (if touch then TouchStart else MouseDown) t new_input))) = [letter dur]"
  by (simp add: new_input_def input_down_def input_up_def input_timer_def cancel_wait_def Let_def letter_def)

lemma touch_screen_ignores_mouse:
  "fold (\<lambda>(ev, now). inputHandler True ev now) (map (\<lambda>(down, now). (if down then MouseDown else MouseUp, now)) evs) s = s"
  by (induction evs) auto

subsection \<open>Confirmation\<close>

text \<open>Dismissing a confirmation runs the same callback as accepting it.\<close>

lemma confirm_dismissed_confirms: "dialogConfirm params DialogDismissed = dialogConfirm params DialogClosed"
  by simp

end
