(* ===== verification/Merge.thy ===== *)
theory Merge
  imports UiProps
begin

section \<open>Merging a design into the running core\<close>

text \<open>
  \<open>mylife-home-core-designer/componentManager.js\<close>: the difference between the running
  configuration and an edited design, and its application by requests to the core's REST interface. The
  package \<open>deep-equal\<close> is third party: the comparison is the parameter \<open>deq\<close> of the operations. Links carry
  the id that \<open>GET /api/links\<close> reports.
\<close>

type_synonym api_link = "string \<times> link_config"

record design_data =
  dd_plugins :: "plugin_config list"
  dd_hardware :: "hw_config list"
  dd_links :: "api_link list"

record merge_data =
  md_destroy :: design_data
  md_create :: design_data

text \<open>\<open>deepEquals\<close> on the three kinds of items.\<close>

record item_equality =
  eq_plugin :: "plugin_config \<Rightarrow> plugin_config \<Rightarrow> bool"
  eq_hardware :: "hw_config \<Rightarrow> hw_config \<Rightarrow> bool"
  eq_link :: "api_link \<Rightarrow> api_link \<Rightarrow> bool"

definition structural :: item_equality where
  "structural = \<lparr>eq_plugin = (=), eq_hardware = (=), eq_link = (=)\<rparr>"

fun findById :: "('a \<Rightarrow> string) \<Rightarrow> 'a list \<Rightarrow> string \<Rightarrow> 'a option" where
  "findById ident [] i = None"
| "findById ident (x # xs) i = (if ident x = i then Some x else findById ident xs i)"

fun deepExists :: "('a \<Rightarrow> 'a \<Rightarrow> bool) \<Rightarrow> 'a list \<Rightarrow> 'a \<Rightarrow> bool" where
  "deepExists deq [] item = False"
| "deepExists deq (x # xs) item = (if deq x item then True else deepExists deq xs item)"

fun deepWithout :: "('a \<Rightarrow> 'a \<Rightarrow> bool) \<Rightarrow> 'a list \<Rightarrow> 'a list \<Rightarrow> 'a list" where
  "deepWithout deq [] without = []"
| "deepWithout deq (x # xs) without =
     (if \<not> deepExists deq without x then x # deepWithout deq xs without else deepWithout deq xs without)"

definition mergeData :: "('a \<Rightarrow> 'a \<Rightarrow> bool) \<Rightarrow> 'a list \<Rightarrow> 'a list \<Rightarrow> 'a list \<times> 'a list" where
  "mergeData deq oldArray newArray = (deepWithout deq oldArray newArray, deepWithout deq newArray oldArray)"

text \<open>
  One round of the loop over the old links, with the arrays \<open>mergedLinks.destroy\<close> and \<open>create\<close>
  as they grow. The four tests are those of the source: the last two repeat the first two.
\<close>

definition recreate_step :: "plugin_config list \<Rightarrow> hw_config list \<Rightarrow> api_link \<Rightarrow>
    api_link list \<times> api_link list \<Rightarrow> api_link list \<times> api_link list" where
  "recreate_step pdestroy hdestroy link st =
     (let (destroy, create) = st;
          recreated = (destroy @ [link], create @ [link])
      in if findById fst destroy (fst link) \<noteq> None then st
         else if findById hc_id hdestroy (sourceComponent (snd link)) \<noteq> None then recreated
         else if findById pc_id pdestroy (destinationComponent (snd link)) \<noteq> None then recreated
         else if findById hc_id hdestroy (sourceComponent (snd link)) \<noteq> None then recreated
         else if findById pc_id pdestroy (destinationComponent (snd link)) \<noteq> None then recreated
         else st)"

definition doMerge :: "item_equality \<Rightarrow> design_data \<Rightarrow> design_data \<Rightarrow> merge_data" where
  "doMerge deq oldData newData =
     (let (pdestroy, pcreate) = mergeData (eq_plugin deq) (dd_plugins oldData) (dd_plugins newData);
          (hdestroy, hcreate) = mergeData (eq_hardware deq) (dd_hardware oldData) (dd_hardware newData);
          (ldestroy, lcreate) = fold (recreate_step pdestroy hdestroy) (dd_links oldData)
             (mergeData (eq_link deq) (dd_links oldData) (dd_links newData))
      in \<lparr>md_destroy = \<lparr>dd_plugins = pdestroy, dd_hardware = hdestroy, dd_links = ldestroy\<rparr>,
          md_create = \<lparr>dd_plugins = pcreate, dd_hardware = hcreate, dd_links = lcreate\<rparr>\<rparr>)"

subsection \<open>Application\<close>

text \<open>
  The tasks are kept in an object, so a task replaces an earlier one with the same key. The request
  of a task is what the core receives (\<open>encodeURIComponent\<close> and express' decoding of the path
  cancel out).
\<close>

definition destroyArray :: "('a \<Rightarrow> string) \<Rightarrow> ('a \<Rightarrow> request) \<Rightarrow> 'a list \<Rightarrow> request dict \<Rightarrow> request dict" where
  "destroyArray ident req items tasks = foldl (\<lambda>m x. jset (''destroy:'' @ ident x) (req x) m) tasks items"

definition createArray :: "('a \<Rightarrow> string) \<Rightarrow> ('a \<Rightarrow> request) \<Rightarrow> 'a list \<Rightarrow> request dict \<Rightarrow> request dict" where
  "createArray ident req items tasks = foldl (\<lambda>m x. jset (''create:'' @ ident x) (req x) m) tasks items"

definition apply_tasks :: "merge_data \<Rightarrow> request dict" where
  "apply_tasks md =
     createArray fst (\<lambda>l. PostLink (snd l)) (dd_links (md_create md))
       (createArray hc_id PostHardware (dd_hardware (md_create md))
         (createArray pc_id PostPlugin (dd_plugins (md_create md))
           (destroyArray hc_id (\<lambda>h. DeleteHardware (hc_id h)) (dd_hardware (md_destroy md))
             (destroyArray pc_id (\<lambda>p. DeletePlugin (pc_id p)) (dd_plugins (md_destroy md))
               (destroyArray fst (\<lambda>l. DeleteLink (fst l)) (dd_links (md_destroy md)) [])))))"

text \<open>
  The package \<open>request\<close> is third party as well: a \<open>transport\<close> brings a request to the core and gives an error of the
  connection or the core's response. \<open>direct\<close> is a connection without errors.
\<close>

type_synonym transport = "request \<Rightarrow> core \<Rightarrow> (js_error + response) \<times> core"

definition direct :: "nat \<Rightarrow> (string \<Rightarrow> js_error + plugin_kind) \<Rightarrow> (string \<Rightarrow> string) \<Rightarrow> transport" where
  "direct depth require icon q c = (case handle depth require icon q c of (r, c') \<Rightarrow> (Inr r, c'))"

text \<open>What is passed to the callback of a task: an error of the connection, or a response with status 500.\<close>

fun fetchCallback :: "js_error + response \<Rightarrow> js_error option" where
  "fetchCallback (Inl e) = Some e"
| "fetchCallback (Inr (RError e)) = Some e"
| "fetchCallback (Inr r) = None"

text \<open>\<open>async.series\<close> runs the tasks in order and stops at the first error.\<close>

fun run_tasks :: "transport \<Rightarrow> request list \<Rightarrow> core \<Rightarrow> js_error option \<times> core" where
  "run_tasks send [] c = (None, c)"
| "run_tasks send (q # qs) c =
     (case send q c of
        (r, c') \<Rightarrow> (case fetchCallback r of Some e \<Rightarrow> (Some e, c') | None \<Rightarrow> run_tasks send qs c'))"

definition apply_merge :: "transport \<Rightarrow> merge_data \<Rightarrow> core \<Rightarrow> js_error option \<times> core" where
  "apply_merge send md c = run_tasks send (map snd (apply_tasks md)) c"

subsection \<open>Lemmas\<close>

lemma findById_None: "findById ident xs i = None \<longleftrightarrow> i \<notin> ident ` set xs"
  by (induction xs) auto

lemma deepExists_iff: "deepExists deq xs y \<longleftrightarrow> (\<exists>x \<in> set xs. deq x y)"
  by (induction xs) auto

lemma deepWithout_filter: "deepWithout deq xs ys = filter (\<lambda>x. \<not> deepExists deq ys x) xs"
  by (induction xs) auto

lemma deepWithout_structural: "set (deepWithout (=) xs ys) = set xs - set ys"
  by (auto simp: deepWithout_filter deepExists_iff)

lemma recreate_step_eq:
  "recreate_step pd hwd l (ds, cs) =
     (if fst l \<notin> fst ` set ds \<and> (sourceComponent (snd l) \<in> hc_id ` set hwd \<or> destinationComponent (snd l) \<in> pc_id ` set pd)
      then (ds @ [l], cs @ [l]) else (ds, cs))"
  by (auto simp: recreate_step_def Let_def findById_None simp del: not_None_eq)

text \<open>The links that are recreated: each is put in both arrays.\<close>

definition recreated :: "plugin_config list \<Rightarrow> hw_config list \<Rightarrow> api_link list \<Rightarrow> api_link \<Rightarrow> bool" where
  "recreated pd hwd destroy l \<longleftrightarrow> fst l \<notin> fst ` set destroy \<and>
     (sourceComponent (snd l) \<in> hc_id ` set hwd \<or> destinationComponent (snd l) \<in> pc_id ` set pd)"

lemma recreate_fold_filter:
  assumes "distinct (map fst ls)"
  shows "fold (recreate_step pd hwd) ls (destroy, create) =
    (destroy @ filter (recreated pd hwd destroy) ls, create @ filter (recreated pd hwd destroy) ls)"
  using assms
proof (induction ls arbitrary: destroy create)
  case (Cons l ls)
  have eq: "filter (recreated pd hwd (destroy @ [l])) ls = filter (recreated pd hwd destroy) ls"
    using Cons.prems by (intro filter_cong) (auto simp: recreated_def image_iff)
  show ?case
  proof (cases "recreated pd hwd destroy l")
    case True
    then have "recreate_step pd hwd l (destroy, create) = (destroy @ [l], create @ [l])"
      by (simp add: recreate_step_eq recreated_def)
    then show ?thesis using Cons.IH[of "destroy @ [l]" "create @ [l]"] Cons.prems True eq by simp
  next
    case False
    then have "recreate_step pd hwd l (destroy, create) = (destroy, create)"
      by (simp add: recreate_step_eq recreated_def)
    then show ?thesis using Cons.IH[of destroy create] Cons.prems False by simp
  qed
qed simp

text \<open>Without distinct ids.\<close>

lemma recreate_fold:
  "\<exists>rs. fold (recreate_step pd hwd) ls (destroy, create) = (destroy @ rs, create @ rs) \<and> set rs \<subseteq> set ls \<and>
     (\<forall>l \<in> set ls. (sourceComponent (snd l) \<in> hc_id ` set hwd \<or> destinationComponent (snd l) \<in> pc_id ` set pd) \<longrightarrow>
        fst l \<in> fst ` set (destroy @ rs)) \<and>
     (\<forall>l \<in> set rs. fst l \<notin> fst ` set destroy)"
proof (induction ls arbitrary: destroy create)
  case (Cons l ls)
  show ?case
  proof (cases "fst l \<notin> fst ` set destroy \<and>
      (sourceComponent (snd l) \<in> hc_id ` set hwd \<or> destinationComponent (snd l) \<in> pc_id ` set pd)")
    case True
    then have "recreate_step pd hwd l (destroy, create) = (destroy @ [l], create @ [l])"
      by (auto simp: recreate_step_eq)
    moreover obtain rs where "fold (recreate_step pd hwd) ls (destroy @ [l], create @ [l]) =
        ((destroy @ [l]) @ rs, (create @ [l]) @ rs)" "set rs \<subseteq> set ls"
      "\<forall>l' \<in> set ls. (sourceComponent (snd l') \<in> hc_id ` set hwd \<or> destinationComponent (snd l') \<in> pc_id ` set pd) \<longrightarrow>
        fst l' \<in> fst ` set ((destroy @ [l]) @ rs)"
      "\<forall>l' \<in> set rs. fst l' \<notin> fst ` set (destroy @ [l])"
      using Cons.IH[of "destroy @ [l]" "create @ [l]"] by blast
    ultimately show ?thesis using True by (intro exI[of _ "l # rs"]) auto
  next
    case False
    then have "recreate_step pd hwd l (destroy, create) = (destroy, create)"
      by (auto simp: recreate_step_eq)
    moreover obtain rs where "fold (recreate_step pd hwd) ls (destroy, create) = (destroy @ rs, create @ rs)"
      "set rs \<subseteq> set ls"
      "\<forall>l' \<in> set ls. (sourceComponent (snd l') \<in> hc_id ` set hwd \<or> destinationComponent (snd l') \<in> pc_id ` set pd) \<longrightarrow>
        fst l' \<in> fst ` set (destroy @ rs)"
      "\<forall>l' \<in> set rs. fst l' \<notin> fst ` set destroy"
      using Cons.IH[of destroy create] by blast
    ultimately show ?thesis using False by (intro exI[of _ rs]) auto
  qed
qed simp

end
