(* ===== verification/MergeProps.thy ===== *)
theory MergeProps
  imports Merge CoreProps
begin

section \<open>Properties of the merge\<close>

text \<open>
  The difference computed by \<open>doMerge\<close> leads from the old design to the new one; which links it
  recreates; the order of the requests that apply it; and the case the source misses.
\<close>

lemma doMerge_parts:
  fixes old_d new_d
  defines "md \<equiv> doMerge structural old_d new_d"
  shows "dd_plugins (md_destroy md) = deepWithout (=) (dd_plugins old_d) (dd_plugins new_d)"
    "dd_plugins (md_create md) = deepWithout (=) (dd_plugins new_d) (dd_plugins old_d)"
    "dd_hardware (md_destroy md) = deepWithout (=) (dd_hardware old_d) (dd_hardware new_d)"
    "dd_hardware (md_create md) = deepWithout (=) (dd_hardware new_d) (dd_hardware old_d)"
    "(dd_links (md_destroy md), dd_links (md_create md)) =
       fold (recreate_step (deepWithout (=) (dd_plugins old_d) (dd_plugins new_d))
                           (deepWithout (=) (dd_hardware old_d) (dd_hardware new_d))) (dd_links old_d)
         (deepWithout (=) (dd_links old_d) (dd_links new_d), deepWithout (=) (dd_links new_d) (dd_links old_d))"
  by (simp_all add: md_def doMerge_def mergeData_def structural_def case_prod_beta Let_def)

lemma doMerge_links:
  fixes old_d new_d
  defines "md \<equiv> doMerge structural old_d new_d"
  obtains rs where
    "dd_links (md_destroy md) = deepWithout (=) (dd_links old_d) (dd_links new_d) @ rs"
    "dd_links (md_create md) = deepWithout (=) (dd_links new_d) (dd_links old_d) @ rs"
    "set rs \<subseteq> set (dd_links old_d) \<inter> set (dd_links new_d)"
    "\<forall>l \<in> set (dd_links old_d). (sourceComponent (snd l) \<in> hc_id ` set (dd_hardware (md_destroy md)) \<or>
        destinationComponent (snd l) \<in> pc_id ` set (dd_plugins (md_destroy md))) \<longrightarrow>
        fst l \<in> fst ` set (dd_links (md_destroy md))"
proof -
  let ?pd = "deepWithout (=) (dd_plugins old_d) (dd_plugins new_d)"
  let ?hwd = "deepWithout (=) (dd_hardware old_d) (dd_hardware new_d)"
  let ?ld = "deepWithout (=) (dd_links old_d) (dd_links new_d)"
  obtain rs where rs: "fold (recreate_step ?pd ?hwd) (dd_links old_d) (?ld, deepWithout (=) (dd_links new_d) (dd_links old_d))
      = (?ld @ rs, deepWithout (=) (dd_links new_d) (dd_links old_d) @ rs)" "set rs \<subseteq> set (dd_links old_d)"
      "\<forall>l \<in> set (dd_links old_d). (sourceComponent (snd l) \<in> hc_id ` set ?hwd \<or>
         destinationComponent (snd l) \<in> pc_id ` set ?pd) \<longrightarrow> fst l \<in> fst ` set (?ld @ rs)"
      "\<forall>l \<in> set rs. fst l \<notin> fst ` set ?ld"
    using recreate_fold[of ?pd ?hwd "dd_links old_d" ?ld] by blast
  have l: "dd_links (md_destroy md) = ?ld @ rs" "dd_links (md_create md) = deepWithout (=) (dd_links new_d) (dd_links old_d) @ rs"
    using doMerge_parts(5)[of old_d new_d] rs(1) by (simp_all add: md_def)
  moreover have "set rs \<subseteq> set (dd_links old_d) \<inter> set (dd_links new_d)"
    using rs(2,4) by (auto simp: deepWithout_structural)
  ultimately show thesis using rs(3) doMerge_parts(1,3)[of old_d new_d] by (intro that[of rs]) (simp_all add: md_def)
qed


text \<open>
  C27: Every running link whose source is a changed hardware component or whose destination is a changed
  plugin is destroyed before them, and when it is also in the edited design it is created again.
\<close>

theorem merge_recreates_links:
  assumes "l \<in> set (dd_links old_d)"
    and "sourceComponent (snd l) \<in> hc_id ` set (dd_hardware (md_destroy (doMerge structural old_d new_d))) \<or>
      destinationComponent (snd l) \<in> pc_id ` set (dd_plugins (md_destroy (doMerge structural old_d new_d)))"
    and "inj_on fst (set (dd_links old_d))"
  shows "l \<in> set (dd_links (md_destroy (doMerge structural old_d new_d))) \<and>
    (l \<in> set (dd_links new_d) \<longrightarrow> l \<in> set (dd_links (md_create (doMerge structural old_d new_d))))"
proof -
  let ?md = "doMerge structural old_d new_d"
  obtain rs where rs: "dd_links (md_destroy ?md) = deepWithout (=) (dd_links old_d) (dd_links new_d) @ rs"
    "dd_links (md_create ?md) = deepWithout (=) (dd_links new_d) (dd_links old_d) @ rs"
    "set rs \<subseteq> set (dd_links old_d) \<inter> set (dd_links new_d)"
    "\<forall>l \<in> set (dd_links old_d). (sourceComponent (snd l) \<in> hc_id ` set (dd_hardware (md_destroy ?md)) \<or>
        destinationComponent (snd l) \<in> pc_id ` set (dd_plugins (md_destroy ?md))) \<longrightarrow>
        fst l \<in> fst ` set (dd_links (md_destroy ?md))"
    by (rule doMerge_links)
  then obtain l' where l': "l' \<in> set (dd_links (md_destroy ?md))" "fst l' = fst l"
    using assms(1,2) by fastforce
  then have "l' \<in> set (dd_links old_d)" using rs(1,3) by (auto simp: deepWithout_structural)
  with l' assms(1,3) have "l' = l" by (auto dest: inj_onD)
  with l'(1) have "l \<in> set (dd_links (md_destroy ?md))" by simp
  moreover from this rs(1) have "l \<in> set (dd_links new_d) \<Longrightarrow> l \<in> set rs" by (auto simp: deepWithout_structural)
  ultimately show ?thesis using rs(2) by auto
qed

definition sample_design :: design_data where
  "sample_design = \<lparr>dd_plugins = map snd (ps_plugins sample_data), dd_hardware = map snd (ps_hardware sample_data),
     dd_links = ps_links sample_data\<rparr>"

text \<open>The designer moved the relay, and in another edit the button.\<close>

definition moved :: "string \<Rightarrow> design_data \<Rightarrow> design_data" where
  "moved i d = d\<lparr>dd_plugins := map (\<lambda>p. if pc_id p = i then p\<lparr>pc_designer := Some (50, 60)\<rparr> else p) (dd_plugins d)\<rparr>"

theorem merge_recreates_links_witness:
  "(makeId link_btn, link_btn) \<in> set (dd_links (md_destroy (doMerge structural sample_design (moved ''relay'' sample_design)))) \<and>
   (makeId link_btn, link_btn) \<in> set (dd_links (md_create (doMerge structural sample_design (moved ''relay'' sample_design))))"
proof -
  have "(makeId link_btn, link_btn) \<in> set (dd_links (moved ''relay'' sample_design))" by code_simp
  moreover have "(makeId link_btn, link_btn) \<in> set (dd_links (md_destroy (doMerge structural sample_design (moved ''relay'' sample_design)))) \<and>
     ((makeId link_btn, link_btn) \<in> set (dd_links (moved ''relay'' sample_design)) \<longrightarrow>
      (makeId link_btn, link_btn) \<in> set (dd_links (md_create (doMerge structural sample_design (moved ''relay'' sample_design)))))"
    by (rule merge_recreates_links) (code_simp, code_simp, code_simp)
  ultimately show ?thesis by blast
qed

subsection \<open>The order of the requests\<close>

lemma jset_fold_new:
  assumes "distinct (map key xs)" "\<forall>x \<in> set xs. key x \<notin> set (jkeys m)"
  shows "foldl (\<lambda>m x. jset (key x) (f x) m) m xs = m @ map (\<lambda>x. (key x, f x)) xs"
  using assms
proof (induction xs arbitrary: m)
  case (Cons a xs)
  then have "jset (key a) (f a) m = m @ [(key a, f a)]" by (simp add: jset_new)
  moreover have "\<forall>x \<in> set xs. key x \<notin> set (jkeys (m @ [(key a, f a)]))" using Cons.prems by (fastforce simp: image_iff)
  ultimately show ?case using Cons.IH[of "m @ [(key a, f a)]"] Cons.prems(1) by simp
qed simp

lemma distinct_prefixed: "distinct (map f xs) \<Longrightarrow> distinct (map (\<lambda>x. (p :: string) @ f x) xs)"
  by (induction xs) auto

lemma destroyArray_new:
  assumes "distinct (map ident xs)" "\<forall>x \<in> set xs. ''destroy:'' @ ident x \<notin> set (jkeys m)"
  shows "destroyArray ident req xs m = m @ map (\<lambda>x. (''destroy:'' @ ident x, req x)) xs"
  unfolding destroyArray_def using assms by (rule jset_fold_new[OF distinct_prefixed])

lemma createArray_new:
  assumes "distinct (map ident xs)" "\<forall>x \<in> set xs. ''create:'' @ ident x \<notin> set (jkeys m)"
  shows "createArray ident req xs m = m @ map (\<lambda>x. (''create:'' @ ident x, req x)) xs"
  unfolding createArray_def using assms by (rule jset_fold_new[OF distinct_prefixed])

lemma distinct_three:
  assumes "distinct (as @ bs @ cs)"
  shows "distinct as" "distinct bs" "distinct cs" "set bs \<inter> set as = {}" "set cs \<inter> set as = {}" "set cs \<inter> set bs = {}"
  using assms by auto

lemma fresh_prefixed:
  fixes p :: string
  shows "(\<forall>x \<in> set xs. p @ ident x \<notin> set (jkeys (m @ map (\<lambda>y. (p @ f y, r y)) ys))) \<longleftrightarrow>
    (\<forall>x \<in> set xs. p @ ident x \<notin> set (jkeys m)) \<and> ident ` set xs \<inter> f ` set ys = {}"
  by auto

lemma fresh_other:
  "(\<forall>x \<in> set xs. ''create:'' @ ident x \<notin> set (jkeys (m @ map (\<lambda>y. (''destroy:'' @ f y, r y)) ys))) \<longleftrightarrow>
    (\<forall>x \<in> set xs. ''create:'' @ ident x \<notin> set (jkeys m))"
  by auto

lemma fresh_nil: "(\<forall>x \<in> set xs. p @ ident x \<notin> set (jkeys [])) \<longleftrightarrow> True"
  by simp

text \<open>
  When the ids of what is destroyed are pairwise different, and those of what is created too, no
  task replaces another: the core receives the deletions of links, plugins and hardware and then the
  creations of plugins, hardware and links, each item once and in this order.
\<close>

lemma apply_sends_tasks:
  assumes "distinct (map fst (dd_links (md_destroy md)) @ map pc_id (dd_plugins (md_destroy md)) @ map hc_id (dd_hardware (md_destroy md)))"
    and "distinct (map pc_id (dd_plugins (md_create md)) @ map hc_id (dd_hardware (md_create md)) @ map fst (dd_links (md_create md)))"
  shows "map snd (apply_tasks md) =
    map (\<lambda>l. DeleteLink (fst l)) (dd_links (md_destroy md)) @
    map (\<lambda>p. DeletePlugin (pc_id p)) (dd_plugins (md_destroy md)) @
    map (\<lambda>h. DeleteHardware (hc_id h)) (dd_hardware (md_destroy md)) @
    map PostPlugin (dd_plugins (md_create md)) @ map PostHardware (dd_hardware (md_create md)) @
    map (\<lambda>l. PostLink (snd l)) (dd_links (md_create md))"
proof -
  let ?D = "md_destroy md" and ?C = "md_create md"
  let ?t1 = "[] @ map (\<lambda>l. (''destroy:'' @ fst l, DeleteLink (fst l))) (dd_links ?D)"
  let ?t2 = "?t1 @ map (\<lambda>p. (''destroy:'' @ pc_id p, DeletePlugin (pc_id p))) (dd_plugins ?D)"
  let ?t3 = "?t2 @ map (\<lambda>h. (''destroy:'' @ hc_id h, DeleteHardware (hc_id h))) (dd_hardware ?D)"
  let ?t4 = "?t3 @ map (\<lambda>p. (''create:'' @ pc_id p, PostPlugin p)) (dd_plugins ?C)"
  let ?t5 = "?t4 @ map (\<lambda>h. (''create:'' @ hc_id h, PostHardware h)) (dd_hardware ?C)"
  note d = distinct_three[OF assms(1)] and c = distinct_three[OF assms(2)]
  note fresh = fresh_prefixed fresh_other fresh_nil d(4-6)[unfolded set_map] c(4-6)[unfolded set_map] simp_thms
  have 1: "destroyArray fst (\<lambda>l. DeleteLink (fst l)) (dd_links ?D) [] = ?t1"
    using d(1) by (rule destroyArray_new) (simp only: fresh)
  have 2: "destroyArray pc_id (\<lambda>p. DeletePlugin (pc_id p)) (dd_plugins ?D) ?t1 = ?t2"
    using d(2) by (rule destroyArray_new) (simp only: fresh)
  have 3: "destroyArray hc_id (\<lambda>h. DeleteHardware (hc_id h)) (dd_hardware ?D) ?t2 = ?t3"
    using d(3) by (rule destroyArray_new) (simp only: fresh)
  have 4: "createArray pc_id PostPlugin (dd_plugins ?C) ?t3 = ?t4"
    using c(1) by (rule createArray_new) (simp only: fresh)
  have 5: "createArray hc_id PostHardware (dd_hardware ?C) ?t4 = ?t5"
    using c(2) by (rule createArray_new) (simp only: fresh)
  have 6: "createArray fst (\<lambda>l. PostLink (snd l)) (dd_links ?C) ?t5 =
      ?t5 @ map (\<lambda>l. (''create:'' @ fst l, PostLink (snd l))) (dd_links ?C)"
    using c(3) by (rule createArray_new) (simp only: fresh)
  show ?thesis unfolding apply_tasks_def 1 2 3 4 5 6 by (simp add: comp_def)
qed

lemma apply_sends_tasks_sample:
  "map snd (apply_tasks (doMerge structural sample_design (moved ''lamp'' sample_design))) =
    [DeleteLink (makeId link_lamp), DeletePlugin ''lamp'', PostPlugin ((sample_plugin ''lamp'' ''light'')\<lparr>pc_designer := Some (50, 60)\<rparr>),
     PostLink link_lamp]"
proof -
  let ?md = "doMerge structural sample_design (moved ''lamp'' sample_design)"
  have p: "dd_links (md_destroy ?md) = [(makeId link_lamp, link_lamp)]" "dd_plugins (md_destroy ?md) = [sample_plugin ''lamp'' ''light'']"
    "dd_hardware (md_destroy ?md) = []" "dd_plugins (md_create ?md) = [(sample_plugin ''lamp'' ''light'')\<lparr>pc_designer := Some (50, 60)\<rparr>]"
    "dd_hardware (md_create ?md) = []" "dd_links (md_create ?md) = [(makeId link_lamp, link_lamp)]"
    by code_simp+
  show ?thesis
    by (subst apply_sends_tasks) (simp_all add: p sample_plugin_def makeId_def link_lamp_def sample_link_def)
qed

subsection \<open>The missed case\<close>

text \<open>
  C28: A changed plugin that is only the source of an unchanged link breaks the merge: the link is not
  destroyed, so while it exists the core refuses the deletion of the plugin.
\<close>

theorem merge_misses_source_plugin:
  assumes "l \<in> set (dd_links old_d)" "l \<in> set (dd_links new_d)" "inj_on fst (set (dd_links old_d))"
    and "sourceComponent (snd l) = pc_id p" "p \<in> set (dd_plugins (md_destroy (doMerge structural old_d new_d)))"
    and "pc_id p \<notin> hc_id ` set (dd_hardware (md_destroy (doMerge structural old_d new_d)))"
    and "destinationComponent (snd l) \<notin> pc_id ` set (dd_plugins (md_destroy (doMerge structural old_d new_d)))"
    and "(lid, li) \<in> set (links c)" "li_config li = snd l"
  shows "l \<notin> set (dd_links (md_destroy (doMerge structural old_d new_d))) \<and>
    (\<exists>lid'. handle depth require icon (DeletePlugin (pc_id p)) c = (RError (UsedInLink (pc_id p) lid'), c))"
proof -
  let ?pd = "deepWithout (=) (dd_plugins old_d) (dd_plugins new_d)"
  let ?hwd = "deepWithout (=) (dd_hardware old_d) (dd_hardware new_d)"
  have parts: "dd_plugins (md_destroy (doMerge structural old_d new_d)) = ?pd"
    "dd_hardware (md_destroy (doMerge structural old_d new_d)) = ?hwd"
    by (simp_all add: doMerge_parts)
  have keep: "l \<notin> set (fst (fold (recreate_step ?pd ?hwd) ls (ds, cs)))" if "l \<notin> set ds" "set ls \<subseteq> set (dd_links old_d)" for ls ds cs
    using that
  proof (induction ls arbitrary: ds cs)
    case (Cons x ls)
    obtain ds' cs' where st: "recreate_step ?pd ?hwd x (ds, cs) = (ds', cs')" by force
    have "x = l \<Longrightarrow> recreate_step ?pd ?hwd x (ds, cs) = (ds, cs)"
      using assms(4,6,7) by (auto simp: recreate_step_eq parts)
    then have "l \<notin> set ds'" using st Cons.prems(1)
      by (cases "x = l") (auto simp: recreate_step_eq split: if_splits)
    with Cons.IH[of ds' cs'] Cons.prems(2) st show ?case by simp
  qed simp
  have "l \<notin> set (deepWithout (=) (dd_links old_d) (dd_links new_d))"
    using assms(2) by (simp add: deepWithout_structural)
  then have "l \<notin> set (dd_links (md_destroy (doMerge structural old_d new_d)))"
    using keep[of "deepWithout (=) (dd_links old_d) (dd_links new_d)" "dd_links old_d"
        "deepWithout (=) (dd_links new_d) (dd_links old_d)"] doMerge_parts(5)[of old_d new_d]
    by (metis fst_conv order_refl)
  moreover have "uses_component (pc_id p) (li_config li)" using assms(4,9) by (simp add: uses_component_def)
  then obtain lid' where "checkLink (pc_id p) c = (Inl (UsedInLink (pc_id p) lid'), c)"
    using removal_refused[OF assms(8)] by blast
  ultimately show ?thesis by (auto simp: respond_def removePlugin_def seqE_def bindE_def)
qed

theorem merge_misses_source_plugin_witness:
  "(makeId link_btn, link_btn) \<notin> set (dd_links (md_destroy (doMerge structural sample_design (moved ''btn'' sample_design)))) \<and>
   (\<exists>lid'. handle 20 repo_require sample_icon (DeletePlugin (pc_id (sample_plugin ''btn'' ''button''))) sample_core =
     (RError (UsedInLink (pc_id (sample_plugin ''btn'' ''button'')) lid'), sample_core))"
proof -
  have "(makeId link_btn, link_btn) \<in> set (dmap li_config (links sample_core))"
    unfolding sample_loaded by code_simp
  then obtain li where "(makeId link_btn, li) \<in> set (links sample_core)" "li_config li = snd (makeId link_btn, link_btn)"
    unfolding set_dmap by auto
  note li = this
  show ?thesis
  proof (rule merge_misses_source_plugin[OF _ _ _ _ _ _ _ li])
    show "(makeId link_btn, link_btn) \<in> set (dd_links sample_design)" by code_simp
    show "(makeId link_btn, link_btn) \<in> set (dd_links (moved ''btn'' sample_design))" by code_simp
    show "inj_on fst (set (dd_links sample_design))" by code_simp
    show "sourceComponent (snd (makeId link_btn, link_btn)) = pc_id (sample_plugin ''btn'' ''button'')" by code_simp
    show "sample_plugin ''btn'' ''button'' \<in> set (dd_plugins (md_destroy (doMerge structural sample_design (moved ''btn'' sample_design))))"
      by code_simp
    show "pc_id (sample_plugin ''btn'' ''button'') \<notin>
        hc_id ` set (dd_hardware (md_destroy (doMerge structural sample_design (moved ''btn'' sample_design))))" by code_simp
    show "destinationComponent (snd (makeId link_btn, link_btn)) \<notin>
        pc_id ` set (dd_plugins (md_destroy (doMerge structural sample_design (moved ''btn'' sample_design))))" by code_simp
  qed
qed

end
