(* ===== verification/Schema.thy ===== *)
theory Schema
  imports Merge
begin

section \<open>The design editor\<close>

text \<open>
  The component page of \<open>mylife-home-core-designer\<close>: \<open>component/dataAccess.js\<close> (loading, saving,
  hardware import), \<open>component/schemaHelper.js\<close>, the part of \<open>component/plumbHelper.js\<close> that decides
  about links and \<open>component/designer.js\<close>. The events of jsPlumb, jQuery and the dialogs are the arguments of the
  operations; what is drawn is in \<open>Canvas\<close>, what is asked of the server in \<open>DesignSession\<close>.

  An object of the arrays has an identity, the field \<open>_ref\<close>: the code finds and removes objects by
  identity, and two components may have the same id. The selected component is kept as a copy of
  the object; the operations that change an object change the copy too.
\<close>

record ed_plugin =
  ep_ref :: nat
  ep_config :: plugin_config
  ep_type :: "plugin_type option"     \<comment> \<open>\<open>internal().type\<close>, undefined when the type is unknown\<close>

record ed_hardware =
  eh_ref :: nat
  eh_config :: hw_config

record ed_link =
  el_ref :: nat
  el_id :: string
  el_config :: link_config

datatype ed_component = EPlugin ed_plugin | EHardware ed_hardware

record editor =
  ed_types :: "plugin_type list"
  ed_plugins :: "ed_plugin list"
  ed_hardware :: "ed_hardware list"
  ed_links :: "ed_link list"
  ed_selected :: "ed_component option"
  ed_zoom :: int            \<comment> \<open>\<open>ui.schemaZoom\<close> in hundredths, to which the code rounds it\<close>
  ed_next :: nat            \<comment> \<open>the next object identity\<close>
  ed_last_id :: nat         \<comment> \<open>\<open>last_id\<close> of \<open>idGenerator.js\<close>\<close>

type_synonym 'a edop = "(editor, 'a) op"

subsection \<open>Titles\<close>

text \<open>\<open>formatType\<close>; the text of an object with neither values nor bounds is not modelled.\<close>

fun join_values :: "string list \<Rightarrow> string" where
  "join_values [] = ''''"
| "join_values [v] = v"
| "join_values (v # w # vs) = v @ '','' @ join_values (w # vs)"

fun formatType :: "net_type \<Rightarrow> string" where
  "formatType (TEnum vs) = ''['' @ join_values vs @ '']''"
| "formatType (TRange lo hi) = ''('' @ show_int lo @ '';'' @ show_int hi @ '')''"
| "formatType (TOther tag) = ''(undefined;undefined)''"

definition newline :: string where
  "newline = [CHR 0x0A]"

fun formatArguments :: "nat \<Rightarrow> net_type list \<Rightarrow> string" where
  "formatArguments i [] = ''''"
| "formatArguments i (t # ts) =
     newline @ ''Argument #'' @ show_nat i @ '': '' @ formatType t @ formatArguments (Suc i) ts"

fun memberTitle :: "member \<Rightarrow> string" where
  "memberTitle (Attribute n t) = ''Attribut: '' @ n @ newline @ ''Type: '' @ formatType t"
| "memberTitle (Action n ts) = ''Action: '' @ n @ formatArguments 0 ts"

definition toolboxTitle :: "plugin_type \<Rightarrow> string" where
  "toolboxTitle t = (if pt_ui t then pt_displayName t @ '' (ui)'' else pt_displayName t)"

subsection \<open>Components\<close>

definition findType :: "editor \<Rightarrow> string \<Rightarrow> plugin_type option" where
  "findType d i = arrayFind (ed_types d) (\<lambda>t. pt_id t = i)"

text \<open>\<open>array.splice(array.indexOf(item), 1)\<close>: the object goes, if it is in the array.\<close>

fun removeByRef :: "('a \<Rightarrow> nat) \<Rightarrow> nat \<Rightarrow> 'a list \<Rightarrow> 'a list" where
  "removeByRef ref r [] = []"
| "removeByRef ref r (x # xs) = (if ref x = r then xs else x # removeByRef ref r xs)"

definition idGenerator :: "nat edop" where
  "idGenerator d = (Inr (Suc (ed_last_id d)), d\<lparr>ed_last_id := Suc (ed_last_id d)\<rparr>)"

definition new_object :: "nat edop" where
  "new_object d = (Inr (ed_next d), d\<lparr>ed_next := Suc (ed_next d)\<rparr>)"

definition createPlugin :: "string \<Rightarrow> int \<Rightarrow> int \<Rightarrow> unit edop" where
  "createPlugin typeId x y d =
     (case findType d typeId of
        None \<Rightarrow> (Inl TypeErr, d)
      | Some t \<Rightarrow>
          bindE idGenerator (\<lambda>n.
            bindE new_object (\<lambda>r.
              (let config = \<lparr>pc_id = ''new_plugin_'' @ show_nat n, pc_type = pt_id t,
                     pc_parameters = foldl (\<lambda>m a. jset a VNull m) [] (pt_arguments t),
                     pc_designer = Some (x, y)\<rparr>
               in modifyE (\<lambda>d. d\<lparr>ed_plugins := ed_plugins d @ [\<lparr>ep_ref = r, ep_config = config, ep_type = Some t\<rparr>]\<rparr>)))) d)"

fun component_id :: "ed_component \<Rightarrow> string" where
  "component_id (EPlugin p) = pc_id (ep_config p)"
| "component_id (EHardware h) = hc_id (eh_config h)"

definition touches :: "string \<Rightarrow> ed_link \<Rightarrow> bool" where
  "touches i l \<longleftrightarrow> sourceComponent (el_config l) = i \<or> destinationComponent (el_config l) = i"

definition findLinksFromComponent :: "editor \<Rightarrow> string \<Rightarrow> ed_link list" where
  "findLinksFromComponent d i = filter (touches i) (ed_links d)"

definition deleteComponent :: "ed_component \<Rightarrow> editor \<Rightarrow> editor" where
  "deleteComponent cmp d =
     (let d = d\<lparr>ed_links := foldl (\<lambda>ls l. removeByRef el_ref (el_ref l) ls) (ed_links d)
                   (findLinksFromComponent d (component_id cmp))\<rparr>
      in case cmp of
           EPlugin p \<Rightarrow>
             (if ep_type p \<noteq> None then d\<lparr>ed_plugins := removeByRef ep_ref (ep_ref p) (ed_plugins d)\<rparr>
              else d\<lparr>ed_hardware := removeByRef eh_ref (ep_ref p) (ed_hardware d)\<rparr>)
         | EHardware h \<Rightarrow> d\<lparr>ed_hardware := removeByRef eh_ref (eh_ref h) (ed_hardware d)\<rparr>)"

subsection \<open>Types and members\<close>

text \<open>The loop over the values, which have the same length when it is reached.\<close>

fun values_equal :: "string list \<Rightarrow> string list \<Rightarrow> bool" where
  "values_equal (v # vs) (w # ws) = (if v \<noteq> w then False else values_equal vs ws)"
| "values_equal _ _ = True"

fun typeEquals :: "net_type \<Rightarrow> net_type \<Rightarrow> bool" where
  "typeEquals (TRange lo hi) (TRange lo' hi') = (lo = lo' \<and> hi = hi')"
| "typeEquals (TEnum vs) (TEnum ws) = (if length vs \<noteq> length ws then False else values_equal vs ws)"
| "typeEquals _ _ = False"

definition plugin_member_class :: "editor \<Rightarrow> string \<Rightarrow> js_error + net_class option" where
  "plugin_member_class d compId =
     (case arrayFind (ed_plugins d) (\<lambda>p. pc_id (ep_config p) = compId) of
        None \<Rightarrow> Inr None
      | Some p \<Rightarrow> (case ep_type p of None \<Rightarrow> Inl TypeErr | Some t \<Rightarrow> Inr (Some (pt_class t))))"

definition component_class :: "editor \<Rightarrow> string \<Rightarrow> js_error + net_class option" where
  "component_class d compId =
     (case arrayFind (ed_hardware d) (\<lambda>h. hc_id (eh_config h) = compId) of
        None \<Rightarrow> plugin_member_class d compId
      | Some h \<Rightarrow> (case hc_class (eh_config h) of None \<Rightarrow> plugin_member_class d compId | Some c \<Rightarrow> Inr (Some c)))"

definition schema_getMember :: "editor \<Rightarrow> string \<Rightarrow> string \<Rightarrow> js_error + member option" where
  "schema_getMember d compId memberId =
     (case component_class d compId of
        Inl e \<Rightarrow> Inl e
      | Inr None \<Rightarrow> Inr None
      | Inr (Some c) \<Rightarrow> Inr (find_member (members c) memberId))"

text \<open>
  \<open>checkLinkTypes\<close> on what \<open>getMember\<close> gave: \<open>arguments\<close> of undefined and of an attribute, and \<open>type\<close> of
  undefined and of an action's missing type, are TypeErrors.
\<close>

fun checkLinkTypes :: "member option \<Rightarrow> member option \<Rightarrow> js_error + bool" where
  "checkLinkTypes src None = Inl TypeErr"
| "checkLinkTypes src (Some (Attribute n t)) = Inl TypeErr"
| "checkLinkTypes src (Some (Action n [])) = Inr True"
| "checkLinkTypes (Some (Attribute a s)) (Some (Action n [t])) = Inr (typeEquals t s)"
| "checkLinkTypes src (Some (Action n [t])) = Inl TypeErr"
| "checkLinkTypes src (Some (Action n (t # u # ts))) = Inr False"

subsection \<open>Links\<close>

definition getSourceId :: "link_config \<Rightarrow> string" where
  "getSourceId l = ''attribute:'' @ sourceComponent l @ '':'' @ sourceAttribute l"

definition getTargetId :: "link_config \<Rightarrow> string" where
  "getTargetId l = ''action:'' @ destinationComponent l @ '':'' @ destinationAction l"

definition findConnection :: "editor \<Rightarrow> string \<Rightarrow> string \<Rightarrow> ed_link option" where
  "findConnection d s t =
     arrayFind (ed_links d) (\<lambda>l. s = getSourceId (el_config l) \<and> t = getTargetId (el_config l))"

text \<open>
  An element of \<open>id.split(':')\<close>. The template renders ids with three parts; a missing one is undefined, written
  as the text it gives when it is concatenated.
\<close>

definition id_part :: "nat \<Rightarrow> string \<Rightarrow> string" where
  "id_part i s = (let parts = split_on (CHR '':'') s in if i < length parts then parts ! i else ''undefined'')"

definition createLink :: "string \<Rightarrow> string \<Rightarrow> unit edop" where
  "createLink s t =
     (let config = \<lparr>sourceComponent = id_part 1 s, sourceAttribute = id_part 2 s,
            destinationComponent = id_part 1 t, destinationAction = id_part 2 t\<rparr>;
          i = sourceComponent config @ ''|'' @ sourceAttribute config @ ''|'' @
              destinationComponent config @ ''|'' @ destinationAction config
      in bindE new_object (\<lambda>r.
           modifyE (\<lambda>d. d\<lparr>ed_links := ed_links d @ [\<lparr>el_ref = r, el_id = i, el_config = config\<rparr>]\<rparr>)))"

definition getMemberFromId :: "editor \<Rightarrow> string \<Rightarrow> js_error + member option" where
  "getMemberFromId d i = schema_getMember d (id_part 1 i) (id_part 2 i)"

definition plumbCheckLinkTypes :: "editor \<Rightarrow> string \<Rightarrow> string \<Rightarrow> js_error + bool" where
  "plumbCheckLinkTypes d s t =
     (case getMemberFromId d s of Inl e \<Rightarrow> Inl e
      | Inr src \<Rightarrow> (case getMemberFromId d t of Inl e \<Rightarrow> Inl e | Inr dst \<Rightarrow> checkLinkTypes src dst))"

datatype connection_alert = AlreadyExists | IncompatibleTypes

text \<open>The result is the alert shown, if any. \<open>by_user\<close> is whether jsPlumb passes an original event.\<close>

definition onConnectionCreated :: "bool \<Rightarrow> string \<Rightarrow> string \<Rightarrow> connection_alert option edop" where
  "onConnectionCreated by_user s t d =
     (if \<not> by_user then (Inr None, d)
      else if findConnection d s t \<noteq> None then (Inr (Some AlreadyExists), d)
      else (case plumbCheckLinkTypes d s t of
              Inl e \<Rightarrow> (Inl e, d)
            | Inr False \<Rightarrow> (Inr (Some IncompatibleTypes), d)
            | Inr True \<Rightarrow> seqE (createLink s t) (ret None) d))"

definition onConnectionDblClick :: "ed_link \<Rightarrow> editor \<Rightarrow> editor" where
  "onConnectionDblClick l d = d\<lparr>ed_links := removeByRef el_ref (el_ref l) (ed_links d)\<rparr>"

subsection \<open>Loading and saving\<close>

definition checkDesignerData :: "(int \<times> int) option \<Rightarrow> (int \<times> int) option" where
  "checkDesignerData z = (case z of None \<Rightarrow> Some (0, 0) | Some p \<Rightarrow> Some p)"

definition attachTypeToPlugin :: "plugin_type list \<Rightarrow> nat \<Rightarrow> plugin_config \<Rightarrow> ed_plugin" where
  "attachTypeToPlugin ts r p = \<lparr>ep_ref = r, ep_config = p\<lparr>pc_designer := checkDesignerData (pc_designer p)\<rparr>,
     ep_type = arrayFind ts (\<lambda>t. pt_id t = pc_type p)\<rparr>"

text \<open>The data parsed from the answer of the server: new objects, then completed.\<close>

definition prepareData :: "plugin_type list \<Rightarrow> design_data \<Rightarrow> editor \<Rightarrow> editor" where
  "prepareData ts dd d =
     (let a = ed_next d; b = a + length (dd_plugins dd); c = b + length (dd_hardware dd); e = c + length (dd_links dd)
      in d\<lparr>ed_types := ts,
           ed_plugins := map2 (attachTypeToPlugin ts) [a..<b] (dd_plugins dd),
           ed_hardware := map2 (\<lambda>r h. \<lparr>eh_ref = r, eh_config = h\<lparr>hc_designer := checkDesignerData (hc_designer h)\<rparr>\<rparr>)
             [b..<c] (dd_hardware dd),
           ed_links := map2 (\<lambda>r l. \<lparr>el_ref = r, el_id = fst l, el_config = snd l\<rparr>) [c..<e] (dd_links dd),
           ed_next := e\<rparr>)"

text \<open>\<open>applyData\<close> after \<open>load\<close>.\<close>

definition reload :: "plugin_type list \<Rightarrow> design_data \<Rightarrow> editor \<Rightarrow> editor" where
  "reload ts dd d = (prepareData ts dd d)\<lparr>ed_selected := None\<rparr>"

text \<open>The clone that \<open>save\<close> posts to \<open>component/merge\<close>.\<close>

definition send_data :: "editor \<Rightarrow> design_data" where
  "send_data d = \<lparr>dd_plugins = map ep_config (ed_plugins d), dd_hardware = map eh_config (ed_hardware d),
     dd_links = map (\<lambda>l. (el_id l, el_config l)) (ed_links d)\<rparr>"

datatype link_failure = MemberMissing | TypesChanged

text \<open>One round of \<open>recreateLinks.forEach\<close>, with the entries pushed to \<open>failedLinks\<close> as the result.\<close>

definition recreateLink :: "ed_link \<Rightarrow> (ed_link \<times> link_failure) list edop" where
  "recreateLink l d =
     (case schema_getMember d (sourceComponent (el_config l)) (sourceAttribute (el_config l)) of
        Inl e \<Rightarrow> (Inl e, d)
      | Inr src \<Rightarrow>
          (case schema_getMember d (destinationComponent (el_config l)) (destinationAction (el_config l)) of
             Inl e \<Rightarrow> (Inl e, d)
           | Inr dst \<Rightarrow>
               (if src = None \<or> dst = None then (Inr [(l, MemberMissing)], d)
                else (case checkLinkTypes src dst of
                        Inl e \<Rightarrow> (Inl e, d)
                      | Inr False \<Rightarrow> (Inr [(l, TypesChanged)], d)
                      | Inr True \<Rightarrow>
                          bindE new_object (\<lambda>r.
                            seqE (modifyE (\<lambda>d. d\<lparr>ed_links := ed_links d @ [l\<lparr>el_ref := r\<rparr>]\<rparr>)) (ret [])) d))))"

primrec collect :: "'a list \<Rightarrow> ('a \<Rightarrow> 'b list edop) \<Rightarrow> 'b list edop" where
  "collect [] f = ret []"
| "collect (x # xs) f = bindE (f x) (\<lambda>ys. bindE (collect xs f) (\<lambda>zs. ret (ys @ zs)))"

definition findItem :: "editor \<Rightarrow> string \<Rightarrow> ed_hardware option" where
  "findItem d i = arrayFind (ed_hardware d) (\<lambda>h. hc_id (eh_config h) = i)"

definition push_hardware :: "hw_config \<Rightarrow> unit edop" where
  "push_hardware item = bindE new_object (\<lambda>r.
     modifyE (\<lambda>d. d\<lparr>ed_hardware := ed_hardware d @
       [\<lparr>eh_ref = r, eh_config = item\<lparr>hc_designer := checkDesignerData (hc_designer item)\<rparr>\<rparr>]\<rparr>))"

definition loadItem :: "hw_config \<Rightarrow> (ed_link \<times> link_failure) list edop" where
  "loadItem item d =
     (case findItem d (hc_id item) of
        None \<Rightarrow> seqE (push_hardware item) (ret []) d
      | Some old \<Rightarrow>
          (let ls = findLinksFromComponent d (hc_id (eh_config old))
           in seqE (modifyE (deleteComponent (EHardware old)))
                (seqE (push_hardware (item\<lparr>hc_designer := hc_designer (eh_config old)\<rparr>))
                  (collect ls recreateLink)) d))"

definition loadHardware :: "hw_config list \<Rightarrow> (ed_link \<times> link_failure) list edop" where
  "loadHardware items = collect items loadItem"

subsection \<open>The page\<close>

definition selectedComponentDelete :: "unit edop" where
  "selectedComponentDelete d =
     (case ed_selected d of
        None \<Rightarrow> (Inl TypeErr, d)
      | Some cmp \<Rightarrow> (Inr (), (deleteComponent cmp d)\<lparr>ed_selected := None\<rparr>))"

definition select_component :: "ed_component \<Rightarrow> editor \<Rightarrow> editor" where
  "select_component cmp d = d\<lparr>ed_selected := Some cmp\<rparr>"

text \<open>Changing an object: in its array and in the selection.\<close>

definition update_plugin :: "nat \<Rightarrow> (plugin_config \<Rightarrow> plugin_config) \<Rightarrow> editor \<Rightarrow> editor" where
  "update_plugin r f d =
     (let g = (\<lambda>p. if ep_ref p = r then p\<lparr>ep_config := f (ep_config p)\<rparr> else p)
      in d\<lparr>ed_plugins := map g (ed_plugins d),
           ed_selected := (case ed_selected d of Some (EPlugin p) \<Rightarrow> Some (EPlugin (g p)) | sel \<Rightarrow> sel)\<rparr>)"

definition update_hardware :: "nat \<Rightarrow> (hw_config \<Rightarrow> hw_config) \<Rightarrow> editor \<Rightarrow> editor" where
  "update_hardware r f d =
     (let g = (\<lambda>h. if eh_ref h = r then h\<lparr>eh_config := f (eh_config h)\<rparr> else h)
      in d\<lparr>ed_hardware := map g (ed_hardware d),
           ed_selected := (case ed_selected d of Some (EHardware h) \<Rightarrow> Some (EHardware (g h)) | sel \<Rightarrow> sel)\<rparr>)"

text \<open>The drag handler of \<open>schemaItem\<close>, and the input bound to \<open>ui.selectedComponent.id\<close>, which the page shows for plugins.\<close>

fun drag :: "ed_component \<Rightarrow> int \<Rightarrow> int \<Rightarrow> editor \<Rightarrow> editor" where
  "drag (EPlugin p) x y d = update_plugin (ep_ref p) (\<lambda>c. c\<lparr>pc_designer := Some (x, y)\<rparr>) d"
| "drag (EHardware h) x y d = update_hardware (eh_ref h) (\<lambda>c. c\<lparr>hc_designer := Some (x, y)\<rparr>) d"

definition rename_selected :: "string \<Rightarrow> editor \<Rightarrow> editor" where
  "rename_selected i d =
     (case ed_selected d of
        Some (EPlugin p) \<Rightarrow> if ep_type p \<noteq> None then update_plugin (ep_ref p) (\<lambda>c. c\<lparr>pc_id := i\<rparr>) d else d
      | _ \<Rightarrow> d)"

definition zoomOut :: "editor \<Rightarrow> editor" where
  "zoomOut d = (if ed_zoom d \<le> 15 then d else d\<lparr>ed_zoom := ed_zoom d - 10\<rparr>)"

definition zoomIn :: "editor \<Rightarrow> editor" where
  "zoomIn d = (if ed_zoom d \<ge> 195 then d else d\<lparr>ed_zoom := ed_zoom d + 10\<rparr>)"

definition new_page :: editor where
  "new_page = \<lparr>ed_types = [], ed_plugins = [], ed_hardware = [], ed_links = [], ed_selected = None,
     ed_zoom = 100, ed_next = 0, ed_last_id = 0\<rparr>"

end
