(* ===== verification/SchemaLaws.thy ===== *)
theory SchemaLaws
  imports Schema
begin

section \<open>Laws of the design editor\<close>

text \<open>
  What the editor's tests accept, how lookups react to changes of the arrays, and the invariant of
  the page: object identities, the selection and the links.
\<close>

subsection \<open>Types\<close>

lemma values_equal_iff: "length vs = length ws \<Longrightarrow> values_equal vs ws \<longleftrightarrow> vs = ws"
  by (induction vs ws rule: values_equal.induct) auto

lemma typeEquals_iff: "typeEquals s t \<longleftrightarrow> s = t \<and> (\<forall>tag. t \<noteq> TOther tag)"
  by (induction s t rule: typeEquals.induct) (auto simp: values_equal_iff)

lemma checkLinkTypes_True:
  "checkLinkTypes src dst = Inr True \<longleftrightarrow>
     (\<exists>n. dst = Some (Action n [])) \<or>
     (\<exists>a t n. src = Some (Attribute a t) \<and> dst = Some (Action n [t]) \<and> (\<forall>tag. t \<noteq> TOther tag))"
  by (induction src dst rule: checkLinkTypes.induct) (auto simp: typeEquals_iff)

subsection \<open>Removal by identity\<close>

lemma removeByRef_filter: "distinct (map ref xs) \<Longrightarrow> removeByRef ref r xs = filter (\<lambda>x. ref x \<noteq> r) xs"
proof (induction xs)
  case (Cons x xs)
  then show ?case by (cases "ref x = r") (auto simp: image_iff intro!: filter_True[symmetric])
qed simp

lemma set_removeByRef: "set (removeByRef ref r xs) \<subseteq> set xs"
  by (induction xs) auto

lemma removeByRef_absent: "r \<notin> ref ` set xs \<Longrightarrow> removeByRef ref r xs = xs"
  by (induction xs) auto

lemma removeByRefs_filter:
  "distinct (map ref xs) \<Longrightarrow>
     foldl (\<lambda>zs y. removeByRef ref (ref y) zs) xs ys = filter (\<lambda>x. ref x \<notin> ref ` set ys) xs"
  by (induction ys arbitrary: xs)
    (auto simp: removeByRef_filter distinct_map_filter intro!: filter_cong)

lemma arrayFind_append: "arrayFind (xs @ ys) P = (case arrayFind xs P of None \<Rightarrow> arrayFind ys P | Some x \<Rightarrow> Some x)"
  by (induction xs) auto

lemma arrayFind_filter: "\<forall>x \<in> set xs. P x \<longrightarrow> Q x \<Longrightarrow> arrayFind (filter Q xs) P = arrayFind xs P"
  by (induction xs) auto

lemma arrayFind_unique:
  "distinct (map f xs) \<Longrightarrow> x \<in> set xs \<Longrightarrow> arrayFind xs (\<lambda>y. f y = f x) = Some x"
  by (induction xs) (auto simp: image_iff)

subsection \<open>Members\<close>

abbreviation plugin_ids :: "editor \<Rightarrow> string list" where
  "plugin_ids d \<equiv> map (\<lambda>p. pc_id (ep_config p)) (ed_plugins d)"

abbreviation hardware_ids :: "editor \<Rightarrow> string list" where
  "hardware_ids d \<equiv> map (\<lambda>h. hc_id (eh_config h)) (ed_hardware d)"

lemma getMember_cong:
  assumes "component_class d c = component_class d' c"
  shows "schema_getMember d c m = schema_getMember d' c m"
  using assms by (simp add: schema_getMember_def)

lemma component_class_cong:
  assumes "arrayFind (ed_plugins d') (\<lambda>p. pc_id (ep_config p) = c) = arrayFind (ed_plugins d) (\<lambda>p. pc_id (ep_config p) = c)"
    and "arrayFind (ed_hardware d') (\<lambda>h. hc_id (eh_config h) = c) = arrayFind (ed_hardware d) (\<lambda>h. hc_id (eh_config h) = c)"
  shows "component_class d' c = component_class d c"
  unfolding component_class_def plugin_member_class_def assms by (rule refl)

lemma component_class_frame:
  "ed_plugins d' = ed_plugins d \<Longrightarrow> ed_hardware d' = ed_hardware d \<Longrightarrow> component_class d' c = component_class d c"
  by (rule component_class_cong) simp_all

lemma plugin_member_class_frame:
  "ed_plugins d' = ed_plugins d \<Longrightarrow> plugin_member_class d' c = plugin_member_class d c"
  by (simp add: plugin_member_class_def)

lemma component_class_updates [simp]:
  "component_class (d\<lparr>ed_next := n\<rparr>) c = component_class d c"
  "component_class (d\<lparr>ed_last_id := n\<rparr>) c = component_class d c"
  "component_class (d\<lparr>ed_links := ls\<rparr>) c = component_class d c"
  "component_class (d\<lparr>ed_selected := sel\<rparr>) c = component_class d c"
  "component_class (d\<lparr>ed_zoom := z\<rparr>) c = component_class d c"
  by (rule component_class_cong; simp)+

lemma getMember_updates [simp]:
  "schema_getMember (d\<lparr>ed_next := n\<rparr>) c m = schema_getMember d c m"
  "schema_getMember (d\<lparr>ed_last_id := n\<rparr>) c m = schema_getMember d c m"
  "schema_getMember (d\<lparr>ed_links := ls\<rparr>) c m = schema_getMember d c m"
  "schema_getMember (d\<lparr>ed_selected := sel\<rparr>) c m = schema_getMember d c m"
  "schema_getMember (d\<lparr>ed_zoom := z\<rparr>) c m = schema_getMember d c m"
  by (simp_all add: schema_getMember_def)

lemma getMember_push_plugin:
  assumes "schema_getMember d c m = Inr (Some x)"
  shows "schema_getMember (d\<lparr>ed_plugins := ed_plugins d @ [p]\<rparr>) c m = Inr (Some x)"
  using assms
  by (auto simp: schema_getMember_def component_class_def plugin_member_class_def arrayFind_append
      split: option.splits sum.splits)

lemma getMember_push_hardware:
  assumes "schema_getMember d c m = Inr (Some x)" "hc_id (eh_config h) \<notin> set (plugin_ids d)"
  shows "schema_getMember (d\<lparr>ed_hardware := ed_hardware d @ [h]\<rparr>) c m = Inr (Some x)"
proof (cases "arrayFind (ed_hardware d) (\<lambda>h. hc_id (eh_config h) = c)")
  case None
  then have "plugin_member_class d c \<noteq> Inr None"
    using assms(1) by (auto simp: schema_getMember_def component_class_def)
  then have "c \<noteq> hc_id (eh_config h)"
    using assms(2) arrayFind_None[of "ed_plugins d" "\<lambda>p. pc_id (ep_config p) = c"]
    by (auto simp: plugin_member_class_def image_iff)
  with None assms(1) show ?thesis
    by (auto simp: schema_getMember_def component_class_def plugin_member_class_def arrayFind_append)
next
  case (Some g)
  with assms(1) show ?thesis
    using plugin_member_class_frame[of "d\<lparr>ed_hardware := ed_hardware d @ [h]\<rparr>" d c]
    by (cases "hc_class (eh_config g)") (simp_all add: schema_getMember_def component_class_def arrayFind_append)
qed

lemma component_class_filter:
  assumes "\<forall>p \<in> set (ed_plugins d). pc_id (ep_config p) = c \<longrightarrow> P p"
    and "\<forall>h \<in> set (ed_hardware d). hc_id (eh_config h) = c \<longrightarrow> Q h"
  shows "component_class (d\<lparr>ed_plugins := filter P (ed_plugins d), ed_hardware := filter Q (ed_hardware d)\<rparr>) c = component_class d c"
  using assms by (intro component_class_cong) (simp_all add: arrayFind_filter)

lemma component_class_map:
  assumes "\<And>p. pc_id (ep_config (f p)) = pc_id (ep_config p) \<and> ep_type (f p) = ep_type p"
    and "\<And>h. hc_id (eh_config (g h)) = hc_id (eh_config h) \<and> hc_class (eh_config (g h)) = hc_class (eh_config h)"
  shows "component_class (d\<lparr>ed_plugins := map f (ed_plugins d), ed_hardware := map g (ed_hardware d)\<rparr>) c = component_class d c"
proof -
  let ?d = "d\<lparr>ed_plugins := map f (ed_plugins d), ed_hardware := map g (ed_hardware d)\<rparr>"
  have "plugin_member_class ?d c = plugin_member_class d c"
    using assms(1) by (simp add: plugin_member_class_def arrayFind_map comp_def option.case_eq_if option.map_sel)
  then show ?thesis
    using assms(2) by (simp add: component_class_def arrayFind_map comp_def option.case_eq_if option.map_sel)
qed

subsection \<open>The invariant\<close>

text \<open>A link is valid when its id is the core's id for it and its ends are members of compatible types.\<close>

definition link_ok :: "editor \<Rightarrow> ed_link \<Rightarrow> bool" where
  "link_ok d l \<longleftrightarrow> el_id l = makeId (el_config l) \<and>
     (\<exists>src dst. schema_getMember d (sourceComponent (el_config l)) (sourceAttribute (el_config l)) = Inr (Some src) \<and>
        schema_getMember d (destinationComponent (el_config l)) (destinationAction (el_config l)) = Inr (Some dst) \<and>
        checkLinkTypes (Some src) (Some dst) = Inr True)"

definition links_ok :: "editor \<Rightarrow> bool" where
  "links_ok d \<longleftrightarrow> (\<forall>l \<in> set (ed_links d). link_ok d l) \<and> distinct (map el_config (ed_links d))"

definition refs_ok :: "editor \<Rightarrow> bool" where
  "refs_ok d \<longleftrightarrow> distinct (map ep_ref (ed_plugins d) @ map eh_ref (ed_hardware d) @ map el_ref (ed_links d)) \<and>
     (\<forall>r \<in> set (map ep_ref (ed_plugins d) @ map eh_ref (ed_hardware d) @ map el_ref (ed_links d)). r < ed_next d)"

lemma fresh_ref:
  fixes n :: nat
  assumes "distinct (as @ bs @ cs)" "\<forall>r \<in> set (as @ bs @ cs). r < n"
  shows "distinct ((as @ [n]) @ bs @ cs) \<and> (\<forall>r \<in> set ((as @ [n]) @ bs @ cs). r < Suc n)"
    "distinct (as @ (bs @ [n]) @ cs) \<and> (\<forall>r \<in> set (as @ (bs @ [n]) @ cs). r < Suc n)"
    "distinct (as @ bs @ (cs @ [n])) \<and> (\<forall>r \<in> set (as @ bs @ (cs @ [n])). r < Suc n)"
  using assms by (auto simp: less_Suc_eq)

lemma refs_ok_push:
  assumes "refs_ok d"
  shows "ep_ref p = ed_next d \<Longrightarrow> refs_ok (d\<lparr>ed_next := Suc (ed_next d), ed_plugins := ed_plugins d @ [p]\<rparr>)"
    "eh_ref h = ed_next d \<Longrightarrow> refs_ok (d\<lparr>ed_next := Suc (ed_next d), ed_hardware := ed_hardware d @ [h]\<rparr>)"
    "el_ref l = ed_next d \<Longrightarrow> refs_ok (d\<lparr>ed_next := Suc (ed_next d), ed_links := ed_links d @ [l]\<rparr>)"
proof -
  have r: "distinct (map ep_ref (ed_plugins d) @ map eh_ref (ed_hardware d) @ map el_ref (ed_links d))"
    "\<forall>r \<in> set (map ep_ref (ed_plugins d) @ map eh_ref (ed_hardware d) @ map el_ref (ed_links d)). r < ed_next d"
    using assms by (simp_all add: refs_ok_def)
  show "ep_ref p = ed_next d \<Longrightarrow> refs_ok (d\<lparr>ed_next := Suc (ed_next d), ed_plugins := ed_plugins d @ [p]\<rparr>)"
    using fresh_ref(1)[OF r] by (simp add: refs_ok_def)
  show "eh_ref h = ed_next d \<Longrightarrow> refs_ok (d\<lparr>ed_next := Suc (ed_next d), ed_hardware := ed_hardware d @ [h]\<rparr>)"
    using fresh_ref(2)[OF r] by (simp add: refs_ok_def)
  show "el_ref l = ed_next d \<Longrightarrow> refs_ok (d\<lparr>ed_next := Suc (ed_next d), ed_links := ed_links d @ [l]\<rparr>)"
    using fresh_ref(3)[OF r] by (simp add: refs_ok_def)
qed

lemma refs_ok_filter:
  assumes "refs_ok d"
  shows "refs_ok (d\<lparr>ed_plugins := filter P (ed_plugins d), ed_hardware := filter Q (ed_hardware d), ed_links := filter R (ed_links d)\<rparr>)"
proof -
  have "distinct (as' @ bs' @ cs') \<and> (\<forall>r \<in> set (as' @ bs' @ cs'). r < n)"
    if "distinct (as @ bs @ cs)" "\<forall>r \<in> set (as @ bs @ cs). r < n" "distinct as'" "distinct bs'" "distinct cs'"
      "set as' \<subseteq> set as" "set bs' \<subseteq> set bs" "set cs' \<subseteq> set cs" for as bs cs as' bs' cs' and n :: nat
    using that by auto
  from this[of "map ep_ref (ed_plugins d)" "map eh_ref (ed_hardware d)" "map el_ref (ed_links d)" "ed_next d"
      "map ep_ref (filter P (ed_plugins d))" "map eh_ref (filter Q (ed_hardware d))" "map el_ref (filter R (ed_links d))"]
  show ?thesis using assms by (simp add: refs_ok_def distinct_map_filter image_mono)
qed

text \<open>
  The selected object: one in the arrays with its identity is it; it is not another kind of object.
  It may have left the arrays.
\<close>

definition selection_ok :: "editor \<Rightarrow> bool" where
  "selection_ok d \<longleftrightarrow>
     (case ed_selected d of
        None \<Rightarrow> True
      | Some (EPlugin p) \<Rightarrow> ep_ref p < ed_next d \<and> ep_ref p \<notin> eh_ref ` set (ed_hardware d) \<and>
          (\<forall>q \<in> set (ed_plugins d). ep_ref q = ep_ref p \<longrightarrow> pc_id (ep_config q) = pc_id (ep_config p))
      | Some (EHardware h) \<Rightarrow> eh_ref h < ed_next d \<and>
          (\<forall>g \<in> set (ed_hardware d). eh_ref g = eh_ref h \<longrightarrow> hc_id (eh_config g) = hc_id (eh_config h)))"

lemma selection_ok_mono:
  assumes "selection_ok d" "ed_selected d' = ed_selected d" "ed_next d \<le> ed_next d'"
    and p: "\<And>q. q \<in> set (ed_plugins d') \<Longrightarrow> q \<in> set (ed_plugins d) \<or> ep_ref q = ed_next d"
    and h: "\<And>g. g \<in> set (ed_hardware d') \<Longrightarrow> g \<in> set (ed_hardware d) \<or> eh_ref g = ed_next d"
  shows "selection_ok d'"
proof (cases "ed_selected d")
  case None
  with assms(2) show ?thesis by (simp add: selection_ok_def)
next
  case (Some cmp)
  show ?thesis
  proof (cases cmp)
    case (EPlugin x)
    with Some assms(1) have x: "ep_ref x < ed_next d" "ep_ref x \<notin> eh_ref ` set (ed_hardware d)"
      "\<forall>q \<in> set (ed_plugins d). ep_ref q = ep_ref x \<longrightarrow> pc_id (ep_config q) = pc_id (ep_config x)"
      by (simp_all add: selection_ok_def)
    have "ep_ref x \<notin> eh_ref ` set (ed_hardware d')" using x(1,2) h by fastforce
    moreover have "\<forall>q \<in> set (ed_plugins d'). ep_ref q = ep_ref x \<longrightarrow> pc_id (ep_config q) = pc_id (ep_config x)"
      using x(1,3) p by fastforce
    ultimately show ?thesis using x(1) assms(2,3) Some EPlugin by (simp add: selection_ok_def)
  next
    case (EHardware x)
    with Some assms(1) have x: "eh_ref x < ed_next d"
      "\<forall>q \<in> set (ed_hardware d). eh_ref q = eh_ref x \<longrightarrow> hc_id (eh_config q) = hc_id (eh_config x)"
      by (simp_all add: selection_ok_def)
    have "\<forall>q \<in> set (ed_hardware d'). eh_ref q = eh_ref x \<longrightarrow> hc_id (eh_config q) = hc_id (eh_config x)"
      using x h by fastforce
    then show ?thesis using x(1) assms(2,3) Some EHardware by (simp add: selection_ok_def)
  qed
qed

definition editor_ok :: "editor \<Rightarrow> bool" where
  "editor_ok d \<longleftrightarrow> refs_ok d \<and> selection_ok d \<and> links_ok d"

lemma editor_okI: "refs_ok d \<Longrightarrow> selection_ok d \<Longrightarrow> links_ok d \<Longrightarrow> editor_ok d"
  by (simp add: editor_ok_def)

lemma link_ok_mono:
  assumes "link_ok d l" "\<And>c m x. c \<in> {sourceComponent (el_config l), destinationComponent (el_config l)} \<Longrightarrow>
    schema_getMember d c m = Inr (Some x) \<Longrightarrow> schema_getMember d' c m = Inr (Some x)"
  shows "link_ok d' l"
  using assms unfolding link_ok_def by blast

lemma links_ok_mono:
  assumes "links_ok d" "ed_links d' = ed_links d"
    "\<And>c m x. schema_getMember d c m = Inr (Some x) \<Longrightarrow> schema_getMember d' c m = Inr (Some x)"
  shows "links_ok d'"
proof -
  have "link_ok d' l" if "link_ok d l" for l
    using that assms(3) by (rule link_ok_mono)
  with assms(1,2) show ?thesis by (simp add: links_ok_def)
qed

lemma link_ok_ref: "link_ok d (l\<lparr>el_ref := r\<rparr>) \<longleftrightarrow> link_ok d l"
  by (simp add: link_ok_def)

lemma push_link_ok:
  assumes "editor_ok d" "link_ok d l" "el_config l \<notin> el_config ` set (ed_links d)"
  shows "editor_ok (d\<lparr>ed_next := Suc (ed_next d), ed_links := ed_links d @ [l\<lparr>el_ref := ed_next d\<rparr>]\<rparr>)"
    (is "editor_ok ?d'")
proof (rule editor_okI)
  show "refs_ok ?d'" using assms(1) refs_ok_push(3)[of d "l\<lparr>el_ref := ed_next d\<rparr>"] by (simp add: editor_ok_def)
  show "selection_ok ?d'" by (rule selection_ok_mono[of d]) (use assms in \<open>auto simp: editor_ok_def\<close>)
  have "link_ok ?d' x" if "link_ok d x" for x
    using that by (rule link_ok_mono) simp
  then show "links_ok ?d'" using assms by (auto simp: editor_ok_def links_ok_def link_ok_ref)
qed

lemma push_plugin_ok:
  assumes "editor_ok d" "ep_ref p = ed_next d"
  shows "editor_ok (d\<lparr>ed_next := Suc (ed_next d), ed_plugins := ed_plugins d @ [p]\<rparr>)" (is "editor_ok ?d'")
proof (rule editor_okI)
  show "refs_ok ?d'" using assms refs_ok_push(1)[of d p] by (simp add: editor_ok_def)
  show "selection_ok ?d'" by (rule selection_ok_mono[of d]) (use assms in \<open>auto simp: editor_ok_def\<close>)
  let ?d1 = "d\<lparr>ed_next := Suc (ed_next d)\<rparr>"
  have "links_ok d" using assms(1) by (simp add: editor_ok_def)
  then show "links_ok ?d'"
    by (rule links_ok_mono) (use getMember_push_plugin[of ?d1 _ _ _ p] in simp_all)
qed

lemma push_hardware_ok:
  assumes "editor_ok d" "eh_ref h = ed_next d" "hc_id (eh_config h) \<notin> set (plugin_ids d)"
  shows "editor_ok (d\<lparr>ed_next := Suc (ed_next d), ed_hardware := ed_hardware d @ [h]\<rparr>)" (is "editor_ok ?d'")
proof (rule editor_okI)
  show "refs_ok ?d'" using assms refs_ok_push(2)[of d h] by (simp add: editor_ok_def)
  show "selection_ok ?d'" by (rule selection_ok_mono[of d]) (use assms in \<open>auto simp: editor_ok_def\<close>)
  let ?d1 = "d\<lparr>ed_next := Suc (ed_next d)\<rparr>"
  have "links_ok d" using assms(1) by (simp add: editor_ok_def)
  then show "links_ok ?d'"
    by (rule links_ok_mono) (use getMember_push_hardware[of ?d1 _ _ _ h] assms(3) in simp_all)
qed

text \<open>Removing one object of each array keeps the invariant when its links go too.\<close>

lemma remove_ok:
  assumes "editor_ok d"
    and "\<forall>p \<in> set (ed_plugins d). \<not> P p \<longrightarrow> pc_id (ep_config p) = i"
    and "\<forall>h \<in> set (ed_hardware d). \<not> Q h \<longrightarrow> hc_id (eh_config h) = i"
    and "\<forall>l \<in> set (ed_links d). R l \<longrightarrow> \<not> touches i l"
  shows "editor_ok (d\<lparr>ed_plugins := filter P (ed_plugins d), ed_hardware := filter Q (ed_hardware d),
    ed_links := filter R (ed_links d)\<rparr>)" (is "editor_ok ?d'")
proof (rule editor_okI)
  show "refs_ok ?d'" using assms(1) by (simp add: editor_ok_def refs_ok_filter)
  show "selection_ok ?d'" by (rule selection_ok_mono[of d]) (use assms in \<open>auto simp: editor_ok_def\<close>)
  have cls: "component_class ?d' c = component_class d c" if "c \<noteq> i" for c
  proof -
    have "component_class (d\<lparr>ed_plugins := filter P (ed_plugins d), ed_hardware := filter Q (ed_hardware d)\<rparr>) c = component_class d c"
      using assms(2,3) that by (intro component_class_filter) blast+
    then show ?thesis using component_class_frame[of ?d' "d\<lparr>ed_plugins := filter P (ed_plugins d), ed_hardware := filter Q (ed_hardware d)\<rparr>" c] by simp
  qed
  have "link_ok ?d' l" if "l \<in> set (ed_links d)" "R l" for l
  proof (rule link_ok_mono)
    show "link_ok d l" using assms(1) that(1) by (simp add: editor_ok_def links_ok_def)
    have "\<not> touches i l" using assms(4) that by blast
    then show "schema_getMember ?d' c m = Inr (Some x)"
      if "c \<in> {sourceComponent (el_config l), destinationComponent (el_config l)}" "schema_getMember d c m = Inr (Some x)" for c m x
      using that getMember_cong[OF cls] by (auto simp: touches_def)
  qed
  then show "links_ok ?d'" using assms(1) by (auto simp: editor_ok_def links_ok_def distinct_map_filter)
qed

end
