(* ===== verification/SchemaSteps.thy ===== *)
theory SchemaSteps
  imports SchemaLaws
begin

section \<open>The operations of the design editor keep its invariant\<close>

text \<open>One lemma per operation, then the step relation of the page and its reachable states.\<close>

subsection \<open>Deletion\<close>

fun removes_plugin :: "ed_component \<Rightarrow> ed_plugin \<Rightarrow> bool" where
  "removes_plugin (EPlugin q) p \<longleftrightarrow> ep_type q \<noteq> None \<and> ep_ref p = ep_ref q"
| "removes_plugin (EHardware g) p \<longleftrightarrow> False"

fun removes_hardware :: "ed_component \<Rightarrow> ed_hardware \<Rightarrow> bool" where
  "removes_hardware (EPlugin q) h \<longleftrightarrow> ep_type q = None \<and> eh_ref h = ep_ref q"
| "removes_hardware (EHardware g) h \<longleftrightarrow> eh_ref h = eh_ref g"

lemma refs_ok_distinct:
  assumes "refs_ok d"
  shows "distinct (map ep_ref (ed_plugins d))" "distinct (map eh_ref (ed_hardware d))" "distinct (map el_ref (ed_links d))"
  using assms by (simp_all add: refs_ok_def)

lemma same_object: "distinct (map f xs) \<Longrightarrow> x \<in> set xs \<Longrightarrow> y \<in> set xs \<Longrightarrow> f x = f y \<Longrightarrow> x = y"
  by (meson distinct_map inj_onD)

lemma deleteComponent_filter:
  assumes "refs_ok d"
  shows "deleteComponent cmp d =
    d\<lparr>ed_plugins := filter (\<lambda>p. \<not> removes_plugin cmp p) (ed_plugins d),
      ed_hardware := filter (\<lambda>h. \<not> removes_hardware cmp h) (ed_hardware d),
      ed_links := filter (\<lambda>l. \<not> touches (component_id cmp) l) (ed_links d)\<rparr>"
proof -
  have links: "foldl (\<lambda>ls l. removeByRef el_ref (el_ref l) ls) (ed_links d) (findLinksFromComponent d (component_id cmp)) =
      filter (\<lambda>l. \<not> touches (component_id cmp) l) (ed_links d)"
    unfolding removeByRefs_filter[OF refs_ok_distinct(3)[OF assms]] findLinksFromComponent_def
    by (rule filter_cong) (auto dest: same_object[OF refs_ok_distinct(3)[OF assms]])
  show ?thesis
  proof (cases cmp)
    case (EPlugin x)
    with links show ?thesis
      by (cases "ep_type x") (simp_all add: deleteComponent_def Let_def removeByRef_filter[OF refs_ok_distinct(1)[OF assms]]
        removeByRef_filter[OF refs_ok_distinct(2)[OF assms]])
  next
    case (EHardware x)
    with links show ?thesis
      by (simp add: deleteComponent_def Let_def removeByRef_filter[OF refs_ok_distinct(2)[OF assms]])
  qed
qed

text \<open>A component that is in the arrays, or selected.\<close>

definition known_component :: "editor \<Rightarrow> ed_component \<Rightarrow> bool" where
  "known_component d cmp \<longleftrightarrow> selection_ok (d\<lparr>ed_selected := Some cmp\<rparr>)"

lemma known_component_simps:
  "known_component d (EPlugin p) \<longleftrightarrow> ep_ref p < ed_next d \<and> (\<forall>h \<in> set (ed_hardware d). eh_ref h \<noteq> ep_ref p) \<and>
     (\<forall>q \<in> set (ed_plugins d). ep_ref q = ep_ref p \<longrightarrow> pc_id (ep_config q) = pc_id (ep_config p))"
  "known_component d (EHardware h) \<longleftrightarrow> eh_ref h < ed_next d \<and>
     (\<forall>g \<in> set (ed_hardware d). eh_ref g = eh_ref h \<longrightarrow> hc_id (eh_config g) = hc_id (eh_config h))"
  by (auto simp: known_component_def selection_ok_def) (metis image_eqI)

lemma known_selected: "selection_ok d \<Longrightarrow> ed_selected d = Some cmp \<Longrightarrow> known_component d cmp"
  by (cases cmp) (simp_all add: known_component_def selection_ok_def)

lemma refs_apart:
  assumes "refs_ok d" "p \<in> set (ed_plugins d)" "h \<in> set (ed_hardware d)"
  shows "ep_ref p \<noteq> eh_ref h"
proof -
  have "ep_ref ` set (ed_plugins d) \<inter> eh_ref ` set (ed_hardware d) = {}"
    using assms(1) by (auto simp: refs_ok_def)
  with assms(2,3) show ?thesis by blast
qed

lemma refs_bound:
  assumes "refs_ok d"
  shows "p \<in> set (ed_plugins d) \<Longrightarrow> ep_ref p < ed_next d" "h \<in> set (ed_hardware d) \<Longrightarrow> eh_ref h < ed_next d"
    "l \<in> set (ed_links d) \<Longrightarrow> el_ref l < ed_next d"
  using assms by (simp_all add: refs_ok_def)

lemma known_in_arrays:
  assumes "refs_ok d"
  shows "p \<in> set (ed_plugins d) \<Longrightarrow> known_component d (EPlugin p)" "h \<in> set (ed_hardware d) \<Longrightarrow> known_component d (EHardware h)"
  using refs_apart[OF assms] refs_bound[OF assms]
    same_object[OF refs_ok_distinct(1)[OF assms]] same_object[OF refs_ok_distinct(2)[OF assms]]
  unfolding known_component_simps by metis+

lemma deleteComponent_ok:
  assumes "editor_ok d" "known_component d cmp"
  shows "editor_ok (deleteComponent cmp d)"
proof -
  have r: "refs_ok d" using assms(1) by (simp add: editor_ok_def)
  show ?thesis
    unfolding deleteComponent_filter[OF r]
  proof (rule remove_ok[where i = "component_id cmp"])
    show "editor_ok d" by fact
    show "\<forall>p \<in> set (ed_plugins d). \<not> \<not> removes_plugin cmp p \<longrightarrow> pc_id (ep_config p) = component_id cmp"
      using assms(2) by (cases cmp) (auto simp: known_component_def selection_ok_def)
    show "\<forall>h \<in> set (ed_hardware d). \<not> \<not> removes_hardware cmp h \<longrightarrow> hc_id (eh_config h) = component_id cmp"
      using assms(2) by (cases cmp) (simp_all add: known_component_simps)
  qed simp
qed

lemma frame_updates [simp]:
  "refs_ok (d\<lparr>ed_selected := sel\<rparr>) = refs_ok d" "links_ok (d\<lparr>ed_selected := sel\<rparr>) = links_ok d"
  "refs_ok (d\<lparr>ed_zoom := z\<rparr>) = refs_ok d" "links_ok (d\<lparr>ed_zoom := z\<rparr>) = links_ok d"
  "refs_ok (d\<lparr>ed_last_id := n\<rparr>) = refs_ok d" "links_ok (d\<lparr>ed_last_id := n\<rparr>) = links_ok d"
  by (simp_all add: refs_ok_def links_ok_def link_ok_def)

lemma selected_ok: "editor_ok d \<Longrightarrow> known_component d cmp \<Longrightarrow> editor_ok (select_component cmp d)"
  by (simp add: editor_ok_def select_component_def known_component_def)

lemma deselected_ok: "editor_ok d \<Longrightarrow> editor_ok (d\<lparr>ed_selected := None\<rparr>)"
  by (simp add: editor_ok_def selection_ok_def)

lemma zoomed_ok: "editor_ok d \<Longrightarrow> editor_ok (d\<lparr>ed_zoom := z\<rparr>)"
  unfolding editor_ok_def by (auto intro: selection_ok_mono[of d])

lemma counted_ok: "editor_ok d \<Longrightarrow> editor_ok (d\<lparr>ed_last_id := n\<rparr>)"
  unfolding editor_ok_def by (auto intro: selection_ok_mono[of d])

lemma selectedComponentDelete_ok: "editor_ok d \<Longrightarrow> editor_ok (snd (selectedComponentDelete d))"
proof (cases "ed_selected d")
  case (Some cmp)
  assume ok: "editor_ok d"
  then have "known_component d cmp" using Some by (simp add: editor_ok_def known_selected)
  with ok Some show ?thesis by (simp add: selectedComponentDelete_def deselected_ok deleteComponent_ok)
qed (simp add: selectedComponentDelete_def)

lemma zoom_ok: "editor_ok d \<Longrightarrow> editor_ok (zoomIn d)" "editor_ok d \<Longrightarrow> editor_ok (zoomOut d)"
  by (simp_all add: zoomIn_def zoomOut_def zoomed_ok)

subsection \<open>New plugins and links\<close>

lemma createPlugin_ok: "editor_ok d \<Longrightarrow> editor_ok (snd (createPlugin i x y d))"
proof (cases "findType d i")
  case (Some t)
  assume "editor_ok d"
  then have "editor_ok (d\<lparr>ed_last_id := Suc (ed_last_id d)\<rparr>)" by (rule counted_ok)
  from push_plugin_ok[OF this] Some show ?thesis
    by (simp add: createPlugin_def idGenerator_def new_object_def op_defs Let_def)
qed (simp add: createPlugin_def)

text \<open>An id of a member as the template renders it; component and member names have no colon.\<close>

definition element_id :: "string \<Rightarrow> string \<Rightarrow> string \<Rightarrow> string" where
  "element_id kind c m = kind @ '':'' @ c @ '':'' @ m"

abbreviation plain :: "string \<Rightarrow> bool" where
  "plain s \<equiv> CHR '':'' \<notin> set s"

lemma split_element_id:
  assumes "plain kind" "plain c" "plain m"
  shows "split_on (CHR '':'') (element_id kind c m) = [kind, c, m]"
  using assms split_join_on[of "[kind, c, m]" "CHR '':''"] by (simp add: element_id_def)

lemma id_part_element_id:
  assumes "plain kind" "plain c" "plain m"
  shows "id_part (Suc 0) (element_id kind c m) = c" "id_part 1 (element_id kind c m) = c" "id_part 2 (element_id kind c m) = m"
  using split_element_id[OF assms] by (simp_all add: id_part_def)

lemma element_ids:
  "getSourceId l = element_id ''attribute'' (sourceComponent l) (sourceAttribute l)"
  "getTargetId l = element_id ''action'' (destinationComponent l) (destinationAction l)"
  by (simp_all add: getSourceId_def getTargetId_def element_id_def)

text \<open>The attribute (or action) elements on the page: those of the members that \<open>getMember\<close> finds.\<close>

definition shown_attribute :: "editor \<Rightarrow> string \<Rightarrow> string \<Rightarrow> bool" where
  "shown_attribute d c a \<longleftrightarrow> plain c \<and> plain a \<and> (\<exists>t. schema_getMember d c a = Inr (Some (Attribute a t)))"

definition shown_action :: "editor \<Rightarrow> string \<Rightarrow> string \<Rightarrow> bool" where
  "shown_action d c a \<longleftrightarrow> plain c \<and> plain a \<and> (\<exists>ts. schema_getMember d c a = Inr (Some (Action a ts)))"

abbreviation link_between :: "string \<Rightarrow> string \<Rightarrow> string \<Rightarrow> string \<Rightarrow> link_config" where
  "link_between sc sa dc da \<equiv>
     \<lparr>sourceComponent = sc, sourceAttribute = sa, destinationComponent = dc, destinationAction = da\<rparr>"

lemma findConnection_None:
  assumes "plain sc" "plain sa" "plain dc" "plain da"
    and "findConnection d (element_id ''attribute'' sc sa) (element_id ''action'' dc da) = None"
  shows "link_between sc sa dc da \<notin> el_config ` set (ed_links d)"
  using assms(5) by (auto simp: findConnection_def arrayFind_None element_ids) (metis link_config.select_convs)

lemma onConnectionCreated_result:
  assumes "shown_attribute d sc sa" "shown_action d dc da"
  shows "onConnectionCreated True (element_id ''attribute'' sc sa) (element_id ''action'' dc da) d =
    (if findConnection d (element_id ''attribute'' sc sa) (element_id ''action'' dc da) \<noteq> None then (Inr (Some AlreadyExists), d)
     else case plumbCheckLinkTypes d (element_id ''attribute'' sc sa) (element_id ''action'' dc da) of
         Inl e \<Rightarrow> (Inl e, d)
       | Inr False \<Rightarrow> (Inr (Some IncompatibleTypes), d)
       | Inr True \<Rightarrow> (Inr None, d\<lparr>ed_next := Suc (ed_next d), ed_links := ed_links d @
            [\<lparr>el_ref = ed_next d, el_id = makeId (link_between sc sa dc da), el_config = link_between sc sa dc da\<rparr>]\<rparr>))"
  using assms
  by (auto simp: onConnectionCreated_def createLink_def shown_attribute_def shown_action_def id_part_element_id
      new_object_def op_defs Let_def makeId_def split: sum.split bool.split)

lemma plumbCheckLinkTypes_shown:
  assumes "shown_attribute d sc sa" "shown_action d dc da"
  shows "\<exists>t ts. schema_getMember d sc sa = Inr (Some (Attribute sa t)) \<and> schema_getMember d dc da = Inr (Some (Action da ts)) \<and>
    plumbCheckLinkTypes d (element_id ''attribute'' sc sa) (element_id ''action'' dc da) =
      checkLinkTypes (Some (Attribute sa t)) (Some (Action da ts))"
  using assms by (auto simp: shown_attribute_def shown_action_def plumbCheckLinkTypes_def getMemberFromId_def id_part_element_id)

lemma onConnectionCreated_ok:
  assumes "editor_ok d" "shown_attribute d sc sa" "shown_action d dc da"
  shows "editor_ok (snd (onConnectionCreated True (element_id ''attribute'' sc sa) (element_id ''action'' dc da) d))"
proof -
  let ?l = "\<lparr>el_ref = 0, el_id = makeId (link_between sc sa dc da), el_config = link_between sc sa dc da\<rparr>"
  obtain t ts where m: "schema_getMember d sc sa = Inr (Some (Attribute sa t))" "schema_getMember d dc da = Inr (Some (Action da ts))"
    "plumbCheckLinkTypes d (element_id ''attribute'' sc sa) (element_id ''action'' dc da) =
      checkLinkTypes (Some (Attribute sa t)) (Some (Action da ts))"
    using plumbCheckLinkTypes_shown[OF assms(2,3)] by blast
  have "editor_ok (d\<lparr>ed_next := Suc (ed_next d), ed_links := ed_links d @ [?l\<lparr>el_ref := ed_next d\<rparr>]\<rparr>)"
    if "findConnection d (element_id ''attribute'' sc sa) (element_id ''action'' dc da) = None"
      "checkLinkTypes (Some (Attribute sa t)) (Some (Action da ts)) = Inr True"
  proof (rule push_link_ok)
    show "editor_ok d" by fact
    show "link_ok d ?l" using m that(2) by (simp add: link_ok_def)
    show "el_config ?l \<notin> el_config ` set (ed_links d)"
      using findConnection_None[OF _ _ _ _ that(1)] assms(2,3) by (simp add: shown_attribute_def shown_action_def)
  qed
  then show ?thesis
    using assms(1) by (auto simp: onConnectionCreated_result[OF assms(2,3)] m(3) split: sum.split bool.split)
qed

lemma dblclick_ok: "editor_ok d \<Longrightarrow> editor_ok (onConnectionDblClick l d)"
proof -
  assume ok: "editor_ok d"
  then have "distinct (map el_ref (ed_links d))" by (simp add: editor_ok_def refs_ok_def)
  then have "onConnectionDblClick l d = d\<lparr>ed_plugins := filter (\<lambda>_. True) (ed_plugins d),
      ed_hardware := filter (\<lambda>_. True) (ed_hardware d), ed_links := filter (\<lambda>x. el_ref x \<noteq> el_ref l) (ed_links d)\<rparr>"
    by (simp add: onConnectionDblClick_def removeByRef_filter)
  moreover have "selection_ok (d\<lparr>ed_links := filter (\<lambda>x. el_ref x \<noteq> el_ref l) (ed_links d)\<rparr>)"
    by (rule selection_ok_mono[of d]) (use ok in \<open>simp_all add: editor_ok_def\<close>)
  then have "editor_ok (d\<lparr>ed_links := filter (\<lambda>x. el_ref x \<noteq> el_ref l) (ed_links d)\<rparr>)"
    using ok refs_ok_filter[where d = d and P = "\<lambda>_. True" and Q = "\<lambda>_. True" and R = "\<lambda>x. el_ref x \<noteq> el_ref l"]
    by (simp add: editor_ok_def links_ok_def link_ok_def distinct_map_filter)
  ultimately show ?thesis by simp
qed

subsection \<open>Hardware import\<close>

text \<open>What every operation of the import keeps: the invariant and the plugins.\<close>

definition import_ok :: "ed_plugin list \<Rightarrow> editor \<Rightarrow> bool" where
  "import_ok ps d \<longleftrightarrow> editor_ok d \<and> ed_plugins d = ps"

lemma push_hardware_result:
  "push_hardware item d = (Inr (), d\<lparr>ed_next := Suc (ed_next d), ed_hardware := ed_hardware d @
     [\<lparr>eh_ref = ed_next d, eh_config = item\<lparr>hc_designer := checkDesignerData (hc_designer item)\<rparr>\<rparr>]\<rparr>)"
  by (simp add: push_hardware_def new_object_def op_defs)

lemma push_hardware_import_ok:
  assumes "import_ok ps d" "hc_id item \<notin> pc_id ` ep_config ` set ps"
  shows "import_ok ps (snd (push_hardware item d))"
  using assms push_hardware_ok[of d "\<lparr>eh_ref = ed_next d, eh_config = item\<lparr>hc_designer := checkDesignerData (hc_designer item)\<rparr>\<rparr>"]
  by (simp add: push_hardware_result import_ok_def image_image)

lemma recreateLink_result:
  "recreateLink l d =
     (case schema_getMember d (sourceComponent (el_config l)) (sourceAttribute (el_config l)) of
        Inl e \<Rightarrow> (Inl e, d)
      | Inr src \<Rightarrow>
          (case schema_getMember d (destinationComponent (el_config l)) (destinationAction (el_config l)) of
             Inl e \<Rightarrow> (Inl e, d)
           | Inr dst \<Rightarrow>
               if src = None \<or> dst = None then (Inr [(l, MemberMissing)], d)
               else case checkLinkTypes src dst of
                   Inl e \<Rightarrow> (Inl e, d)
                 | Inr False \<Rightarrow> (Inr [(l, TypesChanged)], d)
                 | Inr True \<Rightarrow> (Inr [], d\<lparr>ed_next := Suc (ed_next d), ed_links := ed_links d @ [l\<lparr>el_ref := ed_next d\<rparr>]\<rparr>)))"
  by (simp add: recreateLink_def new_object_def op_defs split: sum.split bool.split)

lemma recreateLink_cases:
  assumes "recreateLink l d = (r, d')"
  obtains (unchanged) "d' = d"
  | (pushed) src dst where "r = Inr []"
      "schema_getMember d (sourceComponent (el_config l)) (sourceAttribute (el_config l)) = Inr (Some src)"
      "schema_getMember d (destinationComponent (el_config l)) (destinationAction (el_config l)) = Inr (Some dst)"
      "checkLinkTypes (Some src) (Some dst) = Inr True"
      "d' = d\<lparr>ed_next := Suc (ed_next d), ed_links := ed_links d @ [l\<lparr>el_ref := ed_next d\<rparr>]\<rparr>"
  using assms unfolding recreateLink_result by (auto split: sum.splits if_splits bool.splits)

lemma collect_recreate_ok:
  assumes "import_ok ps d" "\<forall>l \<in> set ls. el_id l = makeId (el_config l)"
    "distinct (map el_config ls)" "el_config ` set ls \<inter> el_config ` set (ed_links d) = {}"
  shows "import_ok ps (snd (collect ls recreateLink d))"
  using assms
proof (induction ls arbitrary: d)
  case (Cons l ls)
  obtain r d1 where r: "recreateLink l d = (r, d1)" by (cases "recreateLink l d")
  have d1: "import_ok ps d1 \<and> el_config ` set ls \<inter> el_config ` set (ed_links d1) = {}"
    using r
  proof (cases rule: recreateLink_cases)
    case unchanged
    with Cons.prems show ?thesis by auto
  next
    case (pushed src dst)
    have "link_ok d l" using pushed(2-4) Cons.prems(2) by (simp add: link_ok_def)
    moreover have "el_config l \<notin> el_config ` set (ed_links d)" using Cons.prems(4) by auto
    ultimately have "editor_ok d1"
      using push_link_ok[of d l] Cons.prems(1) pushed(5) by (simp add: import_ok_def)
    then show ?thesis using Cons.prems pushed(5) by (auto simp: import_ok_def)
  qed
  have "snd (collect (l # ls) recreateLink d) = d1 \<or> snd (collect (l # ls) recreateLink d) = snd (collect ls recreateLink d1)"
    using r by (auto simp: op_defs split: sum.splits prod.splits)
  moreover have "import_ok ps (snd (collect ls recreateLink d1))" using Cons.IH[of d1] d1 Cons.prems by simp
  ultimately show ?case using d1 by metis
qed (simp add: op_defs)

lemma loadItem_ok:
  assumes "import_ok ps d" "hc_id item \<notin> pc_id ` ep_config ` set ps"
  shows "import_ok ps (snd (loadItem item d))"
proof (cases "findItem d (hc_id item)")
  case None
  then show ?thesis using push_hardware_import_ok[OF assms]
    by (simp add: loadItem_def op_defs push_hardware_result)
next
  case (Some old)
  then have old: "old \<in> set (ed_hardware d)" unfolding findItem_def by (auto dest: arrayFind_Some)
  have r: "refs_ok d" and l: "links_ok d" using assms(1) by (simp_all add: import_ok_def editor_ok_def)
  let ?d1 = "deleteComponent (EHardware old) d"
  have d1: "import_ok ps ?d1"
    using assms(1) deleteComponent_ok[OF _ known_in_arrays(2)[OF r old]] deleteComponent_filter[OF r, of "EHardware old"]
    by (simp add: import_ok_def)
  let ?item = "item\<lparr>hc_designer := hc_designer (eh_config old)\<rparr>"
  obtain d2 where d2: "push_hardware ?item ?d1 = (Inr (), d2)" by (simp add: push_hardware_result)
  have ok2: "import_ok ps d2" using push_hardware_import_ok[OF d1, of ?item] assms(2) d2 by simp
  let ?ls = "findLinksFromComponent d (hc_id (eh_config old))"
  have "ed_links d2 = filter (\<lambda>l. \<not> touches (hc_id (eh_config old)) l) (ed_links d)"
    using d2 deleteComponent_filter[OF r, of "EHardware old"] by (auto simp: push_hardware_result)
  then have "el_config ` set ?ls \<inter> el_config ` set (ed_links d2) = {}"
    by (auto simp: findLinksFromComponent_def touches_def)
  moreover have "\<forall>l \<in> set ?ls. el_id l = makeId (el_config l)" "distinct (map el_config ?ls)"
    using l by (auto simp: links_ok_def link_ok_def findLinksFromComponent_def distinct_map_filter)
  ultimately have "import_ok ps (snd (collect ?ls recreateLink d2))" by (intro collect_recreate_ok ok2)
  then show ?thesis using Some d2 by (simp add: loadItem_def Let_def op_defs)
qed

lemma collect_keeps:
  assumes "\<And>x d. x \<in> set xs \<Longrightarrow> P d \<Longrightarrow> P (snd (f x d))" "P d"
  shows "P (snd (collect xs f d))"
  using assms
proof (induction xs arbitrary: d)
  case (Cons x xs)
  obtain r d1 where r: "f x d = (r, d1)" by (cases "f x d")
  with Cons.prems have d1: "P d1" by (metis list.set_intros(1) snd_conv)
  have "snd (collect (x # xs) f d) = d1 \<or> snd (collect (x # xs) f d) = snd (collect xs f d1)"
    using r by (auto simp: op_defs split: sum.splits prod.splits)
  moreover have "P (snd (collect xs f d1))" using Cons.IH[of d1] Cons.prems(1) d1 by simp
  ultimately show ?case using d1 by metis
qed (simp add: op_defs)

lemma loadHardware_ok:
  assumes "editor_ok d" "\<forall>item \<in> set items. hc_id item \<notin> set (plugin_ids d)"
  shows "editor_ok (snd (loadHardware items d))"
proof -
  have "import_ok (ed_plugins d) (snd (collect items loadItem d))"
    by (rule collect_keeps) (use assms loadItem_ok in \<open>auto simp: import_ok_def image_image\<close>)
  then show ?thesis by (simp add: loadHardware_def import_ok_def)
qed

subsection \<open>Dragging\<close>

lemma update_ok:
  assumes "editor_ok d"
    and "\<And>p. pc_id (ep_config (f p)) = pc_id (ep_config p) \<and> ep_type (f p) = ep_type p \<and> ep_ref (f p) = ep_ref p"
    and "\<And>h. hc_id (eh_config (g h)) = hc_id (eh_config h) \<and> hc_class (eh_config (g h)) = hc_class (eh_config h) \<and> eh_ref (g h) = eh_ref h"
    and "sel = ed_selected d \<or> (\<exists>p. ed_selected d = Some (EPlugin p) \<and> sel = Some (EPlugin (f p))) \<or>
      (\<exists>h. ed_selected d = Some (EHardware h) \<and> sel = Some (EHardware (g h)))"
  shows "editor_ok (d\<lparr>ed_plugins := map f (ed_plugins d), ed_hardware := map g (ed_hardware d), ed_selected := sel\<rparr>)" (is "editor_ok ?d'")
proof (rule editor_okI)
  have refs: "ep_ref \<circ> f = ep_ref" "eh_ref \<circ> g = eh_ref"
    using assms(2,3) by (simp_all add: fun_eq_iff)
  show "refs_ok ?d'"
    using assms(1,2,3) by (simp add: editor_ok_def refs_ok_def refs image_image)
  have "selection_ok d" using assms(1) by (simp add: editor_ok_def)
  then show "selection_ok ?d'"
    using assms(2-4) by (auto simp: selection_ok_def image_image split: option.splits ed_component.splits)
  have "component_class ?d' c = component_class d c" for c
    using component_class_map[of f g d c] assms(2,3) by simp
  then have "link_ok ?d' l = link_ok d l" for l
    by (simp add: link_ok_def schema_getMember_def)
  then show "links_ok ?d'" using assms(1) by (simp add: editor_ok_def links_ok_def)
qed

lemma update_plugin_ok:
  assumes "editor_ok d" "\<And>c. pc_id (f c) = pc_id c"
  shows "editor_ok (update_plugin r f d)"
proof -
  let ?g = "\<lambda>p. if ep_ref p = r then p\<lparr>ep_config := f (ep_config p)\<rparr> else p"
  let ?sel = "case ed_selected d of Some (EPlugin p) \<Rightarrow> Some (EPlugin (?g p)) | sel \<Rightarrow> sel"
  have "?sel = ed_selected d \<or> (\<exists>p. ed_selected d = Some (EPlugin p) \<and> ?sel = Some (EPlugin (?g p)))"
    by (cases "ed_selected d"; cases "the (ed_selected d)") auto
  then have "editor_ok (d\<lparr>ed_plugins := map ?g (ed_plugins d), ed_hardware := map (\<lambda>h. h) (ed_hardware d), ed_selected := ?sel\<rparr>)"
    by (intro update_ok assms(1)) (use assms(2) in auto)
  then show ?thesis by (simp only: update_plugin_def Let_def list.map_ident) simp
qed

lemma update_hardware_ok:
  assumes "editor_ok d" "\<And>c. hc_id (f c) = hc_id c \<and> hc_class (f c) = hc_class c"
  shows "editor_ok (update_hardware r f d)"
proof -
  let ?g = "\<lambda>h. if eh_ref h = r then h\<lparr>eh_config := f (eh_config h)\<rparr> else h"
  let ?sel = "case ed_selected d of Some (EHardware h) \<Rightarrow> Some (EHardware (?g h)) | sel \<Rightarrow> sel"
  have "?sel = ed_selected d \<or> (\<exists>h. ed_selected d = Some (EHardware h) \<and> ?sel = Some (EHardware (?g h)))"
    by (cases "ed_selected d"; cases "the (ed_selected d)") auto
  then have "editor_ok (d\<lparr>ed_plugins := map (\<lambda>p. p) (ed_plugins d), ed_hardware := map ?g (ed_hardware d), ed_selected := ?sel\<rparr>)"
    by (intro update_ok assms(1)) (use assms(2) in auto)
  then show ?thesis by (simp only: update_hardware_def Let_def list.map_ident) simp
qed

lemma drag_ok: "editor_ok d \<Longrightarrow> editor_ok (drag cmp x y d)"
  by (cases cmp) (simp_all add: update_plugin_ok update_hardware_ok)

subsection \<open>The page\<close>

text \<open>
  What the user does, the renaming of a plugin excepted. Elements on the page are those of members; an
  import brings no component with the id of a plugin.
\<close>

inductive edit_step :: "editor \<Rightarrow> editor \<Rightarrow> bool" where
  create: "edit_step d (snd (createPlugin i x y d))"
| select_plugin: "p \<in> set (ed_plugins d) \<Longrightarrow> edit_step d (select_component (EPlugin p) d)"
| select_hardware: "h \<in> set (ed_hardware d) \<Longrightarrow> edit_step d (select_component (EHardware h) d)"
| delete: "edit_step d (snd (selectedComponentDelete d))"
| connect: "shown_attribute d sc sa \<Longrightarrow> shown_action d dc da \<Longrightarrow>
    edit_step d (snd (onConnectionCreated by_user (element_id ''attribute'' sc sa) (element_id ''action'' dc da) d))"
| dblclick: "edit_step d (onConnectionDblClick l d)"
| import_hardware: "\<forall>item \<in> set items. hc_id item \<notin> set (plugin_ids d) \<Longrightarrow> edit_step d (snd (loadHardware items d))"
| drag: "edit_step d (drag cmp x y d)"
| zoom_in: "edit_step d (zoomIn d)"
| zoom_out: "edit_step d (zoomOut d)"

lemma edit_step_ok: "edit_step d d' \<Longrightarrow> editor_ok d \<Longrightarrow> editor_ok d'"
proof (induction rule: edit_step.induct)
  case (select_plugin p d)
  then show ?case by (intro selected_ok known_in_arrays) (simp_all add: editor_ok_def)
next
  case (select_hardware h d)
  then show ?case by (intro selected_ok known_in_arrays) (simp_all add: editor_ok_def)
next
  case (connect d sc sa dc da by_user)
  then show ?case by (cases by_user) (simp_all add: onConnectionCreated_ok, simp add: onConnectionCreated_def)
qed (simp_all add: createPlugin_ok selectedComponentDelete_ok dblclick_ok loadHardware_ok drag_ok zoom_ok)

lemma edit_steps_ok: "edit_step\<^sup>*\<^sup>* d d' \<Longrightarrow> editor_ok d \<Longrightarrow> editor_ok d'"
  by (induction rule: rtranclp_induct) (auto dest: edit_step_ok)

subsection \<open>Orders of editors\<close>

text \<open>
  The contract of a relation between the editor before and after an operation: what it must allow for every edit to move
  along it. An operation that throws leaves what it has done, so each law is about both outcomes.
\<close>

locale page_order = state_order R for R :: "editor \<Rightarrow> editor \<Rightarrow> bool" +
  assumes created: "along R (createPlugin i x y)"
    and deleted: "R d (deleteComponent cmp d)"
    and linked: "along R (createLink s t)"
    and unlinked: "R d (onConnectionDblClick l d)"
    and pushed: "along R (push_hardware item)"
    and relinked: "along R (recreateLink l)"
    and adjusted: "ed_types d' = ed_types d \<Longrightarrow> map (pc_type \<circ> ep_config) (ed_plugins d') = map (pc_type \<circ> ep_config) (ed_plugins d) \<Longrightarrow>
      ed_links d' = ed_links d \<Longrightarrow> ed_next d' = ed_next d \<Longrightarrow> R d d'"
begin

lemma alongD: "along R m \<Longrightarrow> R d (snd (m d))"
  by (simp add: along_def)

lemma collected: "(\<And>x. along R (f x)) \<Longrightarrow> along R (collect xs f)"
  by (induction xs) (auto intro: along_rules)

lemma item_loaded: "along R (loadItem item)"
proof -
  let ?replace = "\<lambda>old ls. seqE (modifyE (deleteComponent (EHardware old)))
    (seqE (push_hardware (item\<lparr>hc_designer := hc_designer (eh_config old)\<rparr>)) (collect ls recreateLink))"
  have "along R (?replace old ls)" for old ls
    by (intro along_rules pushed collected relinked deleted)
  moreover have "along R (seqE (push_hardware item) (ret ([] :: (ed_link \<times> link_failure) list)))"
    by (intro along_rules pushed)
  ultimately show ?thesis
    unfolding along_def loadItem_def Let_def by (simp split: option.split)
qed

lemma connected: "along R (onConnectionCreated by_user s t)"
proof -
  have "along R (seqE (createLink s t) (ret (None :: connection_alert option)))"
    by (intro along_rules linked)
  then show ?thesis
    by (auto simp: onConnectionCreated_def R_refl along_def split: sum.split bool.split)
qed

lemma edit: "edit_step d d' \<Longrightarrow> R d d'"
proof (induction rule: edit_step.induct)
  case (delete d)
  have "R d' (d'\<lparr>ed_selected := None\<rparr>)" for d' by (rule adjusted) simp_all
  then show ?case
    by (auto simp: selectedComponentDelete_def R_refl split: option.split intro: R_trans[OF deleted])
next
  case (drag d cmp x y)
  have "R d (update_plugin r f d)" if "\<And>c. pc_type (f c) = pc_type c" for r f
    using that by (intro adjusted) (simp_all add: update_plugin_def Let_def comp_def)
  moreover have "R d (update_hardware r f d)" for r f
    by (intro adjusted) (simp_all add: update_hardware_def Let_def)
  ultimately show ?case by (cases cmp) simp_all
next
  case (import_hardware items d)
  show ?case unfolding loadHardware_def by (intro alongD collected item_loaded)
qed (auto intro: adjusted alongD created connected unlinked simp: select_component_def zoomIn_def zoomOut_def)

lemma edits: "edit_step\<^sup>*\<^sup>* d d' \<Longrightarrow> R d d'"
  by (induction rule: rtranclp_induct) (auto intro: R_refl R_trans edit)

end

end
