(* ===== verification/SchemaProps.thy ===== *)
theory SchemaProps
  imports SchemaSteps MergeProps
begin

section \<open>Properties of the design editor\<close>

text \<open>
  What the editor guarantees of the design it posts, what its link test means in the core, and the
  effects of deletion, import, loading and saving.
\<close>

lemma map_map2_fst:
  assumes "length ns = length xs" "\<And>n x. g (f n x) = n"
  shows "map g (map2 f ns xs) = ns"
  using assms by (induction ns xs rule: list_induct2) auto

lemma map_map2_snd:
  assumes "length ns = length xs" "\<And>n x. g (f n x) = h x"
  shows "map g (map2 f ns xs) = map h xs"
  using assms by (induction ns xs rule: list_induct2) auto

lemma reload_fields:
  "ed_plugins (reload ts dd d) = map2 (attachTypeToPlugin ts) [ed_next d..<ed_next d + length (dd_plugins dd)] (dd_plugins dd)"
  "ed_hardware (reload ts dd d) = map2 (\<lambda>r h. \<lparr>eh_ref = r, eh_config = h\<lparr>hc_designer := checkDesignerData (hc_designer h)\<rparr>\<rparr>)
     [ed_next d + length (dd_plugins dd)..<ed_next d + length (dd_plugins dd) + length (dd_hardware dd)] (dd_hardware dd)"
  "ed_links (reload ts dd d) = map2 (\<lambda>r l. \<lparr>el_ref = r, el_id = fst l, el_config = snd l\<rparr>)
     [ed_next d + length (dd_plugins dd) + length (dd_hardware dd)..<
      ed_next d + length (dd_plugins dd) + length (dd_hardware dd) + length (dd_links dd)] (dd_links dd)"
  "ed_next (reload ts dd d) = ed_next d + length (dd_plugins dd) + length (dd_hardware dd) + length (dd_links dd)"
  "ed_selected (reload ts dd d) = None"
  by (simp_all add: reload_def prepareData_def Let_def)

lemma reload_refs: "refs_ok (reload ts dd d)"
proof -
  let ?d = "reload ts dd d"
  have "map ep_ref (ed_plugins ?d) = [ed_next d..<ed_next d + length (dd_plugins dd)]"
    unfolding reload_fields by (rule map_map2_fst) (simp_all add: attachTypeToPlugin_def)
  moreover have "map eh_ref (ed_hardware ?d) =
      [ed_next d + length (dd_plugins dd)..<ed_next d + length (dd_plugins dd) + length (dd_hardware dd)]"
    unfolding reload_fields by (rule map_map2_fst) simp_all
  moreover have "map el_ref (ed_links ?d) = [ed_next d + length (dd_plugins dd) + length (dd_hardware dd)..<
      ed_next d + length (dd_plugins dd) + length (dd_hardware dd) + length (dd_links dd)]"
    unfolding reload_fields by (rule map_map2_fst) simp_all
  ultimately show ?thesis unfolding refs_ok_def reload_fields(4) by auto
qed

lemma reload_links: "map el_config (ed_links (reload ts dd d)) = map snd (dd_links dd)"
  unfolding reload_fields by (rule map_map2_snd) simp_all

lemma reload_ok:
  assumes "\<forall>l \<in> set (ed_links (reload ts dd d)). link_ok (reload ts dd d) l" "distinct (map snd (dd_links dd))"
  shows "editor_ok (reload ts dd d)"
  using assms reload_refs[of ts dd d] reload_links[of ts dd d]
  by (simp add: editor_ok_def links_ok_def selection_ok_def reload_fields(5))

text \<open>The page after loading the sample installation.\<close>

lemma link_ok_code [code]:
  "link_ok d l \<longleftrightarrow> el_id l = makeId (el_config l) \<and>
     (case schema_getMember d (sourceComponent (el_config l)) (sourceAttribute (el_config l)) of
        Inr (Some src) \<Rightarrow>
          (case schema_getMember d (destinationComponent (el_config l)) (destinationAction (el_config l)) of
             Inr (Some dst) \<Rightarrow> checkLinkTypes (Some src) (Some dst) = Inr True
           | _ \<Rightarrow> False)
      | _ \<Rightarrow> False)"
  unfolding link_ok_def
  by (cases "schema_getMember d (sourceComponent (el_config l)) (sourceAttribute (el_config l))";
      cases "schema_getMember d (destinationComponent (el_config l)) (destinationAction (el_config l))")
    (auto split: option.splits)

definition sample_page :: editor where
  "sample_page = reload (map snd sample_types) sample_design new_page"

lemma sample_page_links: "\<forall>l \<in> set (ed_links sample_page). link_ok sample_page l"
  by code_simp

lemma sample_design_links: "distinct (map snd (dd_links sample_design))"
  by code_simp

lemma sample_page_ok: "editor_ok sample_page"
  using reload_ok[of "map snd sample_types" sample_design new_page] sample_page_links sample_design_links
  by (simp add: sample_page_def)



text \<open>
  C32: A link the editor accepts between an attribute and an action, at run time: with one argument the action
  accepts exactly the values the attribute accepts, so the link never fails on its argument; an
  action without arguments rejects every value, because \<open>links.js\<close> always passes one.
\<close>

theorem accepted_link_at_runtime:
  assumes "checkLinkTypes (Some (Attribute a t)) (Some (Action n ts)) = Inr True"
  shows "check_call [v] ts = (if ts = [] then Some InvalidArgumentsCount else checkArg v t)"
  using assms by (auto simp: checkLinkTypes_True check_call_def split: option.splits)

theorem accepted_link_at_runtime_witness:
  "check_call [VStr ''on''] [boolean_type] = (if [boolean_type] = [] then Some InvalidArgumentsCount else checkArg (VStr ''on'') boolean_type)
   \<and> check_call [VStr ''on''] [] = (if [] = ([] :: net_type list) then Some InvalidArgumentsCount else checkArg (VStr ''on'') boolean_type)"
  by (intro conjI accepted_link_at_runtime[of "''output''" _ "''input''"]) code_simp+

subsection \<open>Deletion and import\<close>

text \<open>
  Deleting the selected component removes that object and every link to or from its id, keeps
  everything else in order and clears the selection.
\<close>

theorem component_deletion:
  assumes "editor_ok d" "ed_selected d = Some cmp"
    and "(\<exists>p \<in> set (ed_plugins d). cmp = EPlugin p \<and> ep_type p \<noteq> None) \<or> (\<exists>h \<in> set (ed_hardware d). cmp = EHardware h)"
  shows "\<exists>d'. selectedComponentDelete d = (Inr (), d') \<and> ed_selected d' = None \<and>
    ed_plugins d' = filter (\<lambda>p. EPlugin p \<noteq> cmp) (ed_plugins d) \<and>
    ed_hardware d' = filter (\<lambda>h. EHardware h \<noteq> cmp) (ed_hardware d) \<and>
    ed_links d' = filter (\<lambda>l. sourceComponent (el_config l) \<noteq> component_id cmp \<and>
      destinationComponent (el_config l) \<noteq> component_id cmp) (ed_links d)"
proof -
  have r: "refs_ok d" using assms(1) by (simp add: editor_ok_def)
  note same = same_object[OF refs_ok_distinct(1)[OF r]] same_object[OF refs_ok_distinct(2)[OF r]]
  have "filter (\<lambda>p. \<not> removes_plugin cmp p) (ed_plugins d) = filter (\<lambda>p. EPlugin p \<noteq> cmp) (ed_plugins d)"
    by (rule filter_cong) (use assms(3) same(1) in \<open>auto dest: refs_apart[OF r]\<close>)
  moreover have "filter (\<lambda>h. \<not> removes_hardware cmp h) (ed_hardware d) = filter (\<lambda>h. EHardware h \<noteq> cmp) (ed_hardware d)"
    by (rule filter_cong) (use assms(3) same(2) in auto)
  moreover have "(\<lambda>l. \<not> touches (component_id cmp) l) = (\<lambda>l. sourceComponent (el_config l) \<noteq> component_id cmp \<and>
      destinationComponent (el_config l) \<noteq> component_id cmp)"
    by (simp add: touches_def fun_eq_iff)
  ultimately show ?thesis
    using assms(2) by (simp add: selectedComponentDelete_def deleteComponent_filter[OF r])
qed

theorem component_deletion_witness:
  "\<exists>p \<in> set (ed_plugins sample_page). ep_type p \<noteq> None \<and>
    (\<exists>d'. selectedComponentDelete (select_component (EPlugin p) sample_page) = (Inr (), d') \<and> ed_selected d' = None \<and>
      ed_plugins d' = filter (\<lambda>q. EPlugin q \<noteq> EPlugin p) (ed_plugins (select_component (EPlugin p) sample_page)) \<and>
      ed_hardware d' = filter (\<lambda>h. EHardware h \<noteq> EPlugin p) (ed_hardware (select_component (EPlugin p) sample_page)) \<and>
      ed_links d' = filter (\<lambda>l. sourceComponent (el_config l) \<noteq> component_id (EPlugin p) \<and>
        destinationComponent (el_config l) \<noteq> component_id (EPlugin p)) (ed_links (select_component (EPlugin p) sample_page)))"
proof -
  have "\<exists>p \<in> set (ed_plugins sample_page). ep_type p \<noteq> None" by code_simp
  then obtain p where p: "p \<in> set (ed_plugins sample_page)" "ep_type p \<noteq> None" by blast
  have "editor_ok (select_component (EPlugin p) sample_page)"
    using sample_page_ok p(1) by (intro selected_ok known_in_arrays) (simp_all add: editor_ok_def)
  from component_deletion[OF this] p show ?thesis by (intro bexI[of _ p]) (simp_all add: select_component_def)
qed

lemma collect_recreate_all:
  assumes "\<forall>l \<in> set ls. link_ok d l"
  shows "\<exists>d'. collect ls recreateLink d = (Inr [], d') \<and>
    map (\<lambda>l. (el_id l, el_config l)) (ed_links d') = map (\<lambda>l. (el_id l, el_config l)) (ed_links d @ ls) \<and>
    ed_hardware d' = ed_hardware d \<and> ed_plugins d' = ed_plugins d"
  using assms
proof (induction ls arbitrary: d)
  case (Cons l ls)
  let ?d1 = "d\<lparr>ed_next := Suc (ed_next d), ed_links := ed_links d @ [l\<lparr>el_ref := ed_next d\<rparr>]\<rparr>"
  have "recreateLink l d = (Inr [], ?d1)"
    using Cons.prems by (auto simp: recreateLink_result link_ok_def)
  moreover have "\<forall>l \<in> set ls. link_ok ?d1 l" using Cons.prems by (simp add: link_ok_def)
  ultimately show ?case using Cons.IH[of ?d1] by (auto simp: op_defs)
qed (simp add: op_defs)

text \<open>Replacing hardware by another with the same id and class changes no lookup.\<close>

lemma replaced_class:
  assumes "distinct (hardware_ids d)" "old \<in> set (ed_hardware d)"
    and "hc_id (eh_config new) = hc_id (eh_config old)" "hc_class (eh_config new) = hc_class (eh_config old)"
  shows "component_class (d\<lparr>ed_hardware := filter (\<lambda>h. h \<noteq> old) (ed_hardware d) @ [new]\<rparr>) c = component_class d c" (is "component_class ?d c = _")
proof -
  let ?is = "\<lambda>h. hc_id (eh_config h) = c"
  have plugins: "plugin_member_class ?d c = plugin_member_class d c" by (rule plugin_member_class_frame) simp
  show ?thesis
  proof (cases "c = hc_id (eh_config old)")
    case False
    then have "arrayFind (filter (\<lambda>h. h \<noteq> old) (ed_hardware d)) ?is = arrayFind (ed_hardware d) ?is"
      by (intro arrayFind_filter) auto
    with False assms(3) plugins show ?thesis
      by (simp add: component_class_def arrayFind_append split: option.split)
  next
    case True
    have "arrayFind (filter (\<lambda>h. h \<noteq> old) (ed_hardware d)) ?is = None"
      using same_object[OF assms(1) _ assms(2)] True by (auto simp: arrayFind_None)
    moreover have "arrayFind (ed_hardware d) ?is = Some old"
      using arrayFind_unique[OF assms(1,2)] True by simp
    ultimately show ?thesis
      using True assms(3,4) plugins by (simp add: component_class_def arrayFind_append split: option.split)
  qed
qed

text \<open>
  C31: Importing hardware again with the same members loses no link: the component is replaced, keeps its
  place on the page, no link fails and the design has the same links.
\<close>

theorem reimport_keeps_links:
  assumes "editor_ok d" "distinct (hardware_ids d)" "old \<in> set (ed_hardware d)"
    and "hc_id item = hc_id (eh_config old)" "hc_class item = hc_class (eh_config old)"
  shows "\<exists>d'. loadHardware [item] d = (Inr [], d') \<and>
    set (dd_links (send_data d')) = set (dd_links (send_data d)) \<and> ed_plugins d' = ed_plugins d \<and>
    map eh_config (ed_hardware d') = map eh_config (filter (\<lambda>h. h \<noteq> old) (ed_hardware d)) @
      [item\<lparr>hc_designer := checkDesignerData (hc_designer (eh_config old))\<rparr>]"
proof -
  have r: "refs_ok d" and l: "links_ok d" using assms(1) by (simp_all add: editor_ok_def)
  have find: "findItem d (hc_id item) = Some old"
    unfolding findItem_def assms(4) using assms(2,3) by (rule arrayFind_unique)
  have objs: "filter (\<lambda>h. eh_ref h \<noteq> eh_ref old) (ed_hardware d) = filter (\<lambda>h. h \<noteq> old) (ed_hardware d)"
    by (rule filter_cong) (use same_object[OF refs_ok_distinct(2)[OF r]] assms(3) in auto)
  let ?new = "\<lparr>eh_ref = ed_next d, eh_config = item\<lparr>hc_designer := checkDesignerData (hc_designer (eh_config old))\<rparr>\<rparr>"
  let ?keep = "filter (\<lambda>l. \<not> touches (hc_id item) l) (ed_links d)"
  let ?d2 = "d\<lparr>ed_next := Suc (ed_next d), ed_hardware := filter (\<lambda>h. h \<noteq> old) (ed_hardware d) @ [?new], ed_links := ?keep\<rparr>"
  have cls: "component_class ?d2 c = component_class d c" for c
    using replaced_class[OF assms(2,3), where new = ?new and c = c] assms(4,5)
      component_class_frame[of ?d2 "d\<lparr>ed_hardware := filter (\<lambda>h. h \<noteq> old) (ed_hardware d) @ [?new]\<rparr>" c] by simp
  let ?ls = "findLinksFromComponent d (hc_id item)"
  have "link_ok ?d2 l" if "link_ok d l" for l
    using that getMember_cong[OF cls] by (simp only: link_ok_def)
  then have "\<forall>l \<in> set ?ls. link_ok ?d2 l"
    using l by (simp add: links_ok_def findLinksFromComponent_def)
  then obtain d' where d': "collect ?ls recreateLink ?d2 = (Inr [], d')"
    "map (\<lambda>l. (el_id l, el_config l)) (ed_links d') = map (\<lambda>l. (el_id l, el_config l)) (?keep @ ?ls)"
    "ed_hardware d' = filter (\<lambda>h. h \<noteq> old) (ed_hardware d) @ [?new]" "ed_plugins d' = ed_plugins d"
    using collect_recreate_all[of ?ls ?d2] by auto
  have "push_hardware (item\<lparr>hc_designer := hc_designer (eh_config old)\<rparr>) (deleteComponent (EHardware old) d) = (Inr (), ?d2)"
    by (simp add: push_hardware_result deleteComponent_filter[OF r] objs assms(4))
  then have "loadHardware [item] d = (Inr [], d')"
    using d'(1) find by (simp add: loadHardware_def loadItem_def Let_def op_defs assms(4))
  moreover have "set (?keep @ ?ls) = set (ed_links d)" by (auto simp: findLinksFromComponent_def)
  then have "set (dd_links (send_data d')) = set (dd_links (send_data d))"
    unfolding send_data_def design_data.simps d'(2) by (metis set_map)
  ultimately show ?thesis using d'(3,4) by simp
qed

theorem reimport_keeps_links_witness:
  "\<exists>d'. loadHardware [sample_board] sample_page = (Inr [], d') \<and>
    set (dd_links (send_data d')) = set (dd_links (send_data sample_page)) \<and> ed_plugins d' = ed_plugins sample_page \<and>
    map eh_config (ed_hardware d') = map eh_config (filter (\<lambda>h. h \<noteq> hd (ed_hardware sample_page)) (ed_hardware sample_page)) @
      [sample_board\<lparr>hc_designer := checkDesignerData (hc_designer (eh_config (hd (ed_hardware sample_page))))\<rparr>]"
  by (rule reimport_keeps_links[OF sample_page_ok]) code_simp+

subsection \<open>Links by hand\<close>

lemma removeByRef_last: "ref x = r \<Longrightarrow> \<forall>y \<in> set xs. ref y \<noteq> r \<Longrightarrow> removeByRef ref r (xs @ [x]) = xs"
  by (induction xs) auto

text \<open>
  Drawing a link between compatible members adds it with the core's id for it, drawing it again is refused, and a double
  click on it restores the links.
\<close>

theorem connection_lifecycle:
  assumes "editor_ok d" "shown_attribute d sc sa" "shown_action d dc da"
    and "findConnection d (element_id ''attribute'' sc sa) (element_id ''action'' dc da) = None"
    and "plumbCheckLinkTypes d (element_id ''attribute'' sc sa) (element_id ''action'' dc da) = Inr True"
  shows "\<exists>d' l. onConnectionCreated True (element_id ''attribute'' sc sa) (element_id ''action'' dc da) d = (Inr None, d') \<and>
    ed_links d' = ed_links d @ [l] \<and> el_config l = link_between sc sa dc da \<and> el_id l = makeId (el_config l) \<and>
    onConnectionCreated True (element_id ''attribute'' sc sa) (element_id ''action'' dc da) d' = (Inr (Some AlreadyExists), d') \<and>
    ed_links (onConnectionDblClick l d') = ed_links d"
proof -
  let ?l = "\<lparr>el_ref = ed_next d, el_id = makeId (link_between sc sa dc da), el_config = link_between sc sa dc da\<rparr>"
  let ?d = "d\<lparr>ed_next := Suc (ed_next d), ed_links := ed_links d @ [?l]\<rparr>"
  have "onConnectionCreated True (element_id ''attribute'' sc sa) (element_id ''action'' dc da) d = (Inr None, ?d)"
    using onConnectionCreated_result[OF assms(2,3)] assms(4,5) by simp
  moreover have "findConnection ?d (element_id ''attribute'' sc sa) (element_id ''action'' dc da) = Some ?l"
    using assms(4) by (simp add: findConnection_def arrayFind_append element_ids)
  then have "onConnectionCreated True (element_id ''attribute'' sc sa) (element_id ''action'' dc da) ?d = (Inr (Some AlreadyExists), ?d)"
    by (simp add: onConnectionCreated_def)
  moreover have "\<forall>l \<in> set (ed_links d). el_ref l \<noteq> ed_next d"
    using refs_bound(3)[of d] assms(1) by (metis editor_ok_def less_irrefl)
  then have "ed_links (onConnectionDblClick ?l ?d) = ed_links d"
    by (simp add: onConnectionDblClick_def removeByRef_last)
  ultimately show ?thesis by (intro exI[of _ ?d] exI[of _ ?l]) simp
qed

theorem connection_lifecycle_witness:
  "\<exists>d' l. onConnectionCreated True (element_id ''attribute'' ''btn'' ''output'') (element_id ''action'' ''lamp'' ''input'') sample_page = (Inr None, d') \<and>
    ed_links d' = ed_links sample_page @ [l] \<and> el_config l = link_between ''btn'' ''output'' ''lamp'' ''input'' \<and> el_id l = makeId (el_config l) \<and>
    onConnectionCreated True (element_id ''attribute'' ''btn'' ''output'') (element_id ''action'' ''lamp'' ''input'') d' = (Inr (Some AlreadyExists), d') \<and>
    ed_links (onConnectionDblClick l d') = ed_links sample_page"
proof (rule connection_lifecycle[OF sample_page_ok])
  have "schema_getMember sample_page ''btn'' ''output'' = Inr (Some (Attribute ''output'' boolean_type))" by code_simp
  then show "shown_attribute sample_page ''btn'' ''output''" by (simp add: shown_attribute_def)
  have "schema_getMember sample_page ''lamp'' ''input'' = Inr (Some (Action ''input'' [boolean_type]))" by code_simp
  then show "shown_action sample_page ''lamp'' ''input''" by (simp add: shown_action_def)
qed code_simp+

subsection \<open>Loading and saving\<close>

definition placed_plugin :: "plugin_config \<Rightarrow> plugin_config" where
  "placed_plugin p = p\<lparr>pc_designer := checkDesignerData (pc_designer p)\<rparr>"

definition placed_hardware :: "hw_config \<Rightarrow> hw_config" where
  "placed_hardware h = h\<lparr>hc_designer := checkDesignerData (hc_designer h)\<rparr>"

lemma send_reload:
  "send_data (reload ts dd d) =
     \<lparr>dd_plugins = map placed_plugin (dd_plugins dd), dd_hardware = map placed_hardware (dd_hardware dd), dd_links = dd_links dd\<rparr>"
proof -
  have "map ep_config (ed_plugins (reload ts dd d)) = map placed_plugin (dd_plugins dd)"
    unfolding reload_fields by (rule map_map2_snd) (simp_all add: attachTypeToPlugin_def placed_plugin_def)
  moreover have "map eh_config (ed_hardware (reload ts dd d)) = map placed_hardware (dd_hardware dd)"
    unfolding reload_fields by (rule map_map2_snd) (simp_all add: placed_hardware_def)
  moreover have "map (\<lambda>l. (el_id l, el_config l)) (ed_links (reload ts dd d)) = map (\<lambda>l. l) (dd_links dd)"
    unfolding reload_fields by (rule map_map2_snd) simp_all
  ultimately show ?thesis by (simp add: send_data_def)
qed

lemma deepWithout_self: "deepWithout (=) xs xs = []"
  by (auto simp: deepWithout_filter deepExists_iff filter_empty_conv)

lemma recreate_nothing: "fold (recreate_step [] []) ls st = st"
proof (induction ls)
  case (Cons l ls)
  then show ?case by (cases st) (simp add: recreate_step_eq)
qed simp

lemma doMerge_self:
  "doMerge structural dd dd = \<lparr>md_destroy = \<lparr>dd_plugins = [], dd_hardware = [], dd_links = []\<rparr>,
     md_create = \<lparr>dd_plugins = [], dd_hardware = [], dd_links = []\<rparr>\<rparr>"
  by (simp add: doMerge_def mergeData_def structural_def deepWithout_self recreate_nothing)

lemma deepWithout_placed:
  assumes "\<And>x. f x = x \<longleftrightarrow> z x \<noteq> None" "\<And>x. z (f x) \<noteq> None"
  shows "deepWithout (=) xs (map f xs) = filter (\<lambda>x. z x = None) xs"
    "deepWithout (=) (map f xs) xs = [] \<longleftrightarrow> f ` set xs \<subseteq> set xs"
proof -
  have "deepExists (=) (map f xs) x \<longleftrightarrow> z x \<noteq> None" if "x \<in> set xs" for x
    using that assms by (auto simp: deepExists_iff) (metis image_eqI)
  then show "deepWithout (=) xs (map f xs) = filter (\<lambda>x. z x = None) xs"
    by (auto simp: deepWithout_filter intro: filter_cong)
  show "deepWithout (=) (map f xs) xs = [] \<longleftrightarrow> f ` set xs \<subseteq> set xs"
    by (auto simp: deepWithout_filter deepExists_iff filter_empty_conv)
qed

lemma designer_update_eq:
  "p\<lparr>pc_designer := z\<rparr> = p \<longleftrightarrow> pc_designer p = z" "h\<lparr>hc_designer := z\<rparr> = h \<longleftrightarrow> hc_designer h = z"
  by (cases p, simp, blast) (cases h, simp, blast)

lemma checkDesignerData_simps: "z = checkDesignerData z \<longleftrightarrow> z \<noteq> None" "checkDesignerData z \<noteq> None"
  by (simp_all add: checkDesignerData_def split: option.split)

lemma placed_fixed:
  "placed_plugin p = p \<longleftrightarrow> pc_designer p \<noteq> None" "pc_designer (placed_plugin p) \<noteq> None"
  "placed_hardware h = h \<longleftrightarrow> hc_designer h \<noteq> None" "hc_designer (placed_hardware h) \<noteq> None"
  using checkDesignerData_simps
  by (simp_all add: placed_plugin_def placed_hardware_def designer_update_eq checkDesignerData_simps(1) del: not_None_eq)

text \<open>
  C33: Saving a design that was only loaded: the merge destroys exactly the components that have no place
  on the page yet, and is empty when all have one.
\<close>

theorem load_save_merge:
  "dd_plugins (md_destroy (doMerge structural dd (send_data (reload ts dd d)))) = filter (\<lambda>p. pc_designer p = None) (dd_plugins dd) \<and>
   dd_hardware (md_destroy (doMerge structural dd (send_data (reload ts dd d)))) = filter (\<lambda>h. hc_designer h = None) (dd_hardware dd) \<and>
   (doMerge structural dd (send_data (reload ts dd d)) =
      \<lparr>md_destroy = \<lparr>dd_plugins = [], dd_hardware = [], dd_links = []\<rparr>,
       md_create = \<lparr>dd_plugins = [], dd_hardware = [], dd_links = []\<rparr>\<rparr>) =
     (list_all (\<lambda>p. pc_designer p \<noteq> None) (dd_plugins dd) \<and> list_all (\<lambda>h. hc_designer h \<noteq> None) (dd_hardware dd))"
proof -
  let ?md = "doMerge structural dd (send_data (reload ts dd d))"
  have p: "dd_plugins (md_destroy ?md) = filter (\<lambda>p. pc_designer p = None) (dd_plugins dd)"
    and h: "dd_hardware (md_destroy ?md) = filter (\<lambda>h. hc_designer h = None) (dd_hardware dd)"
    by (simp_all add: doMerge_parts send_reload deepWithout_placed placed_fixed)
  have "?md = \<lparr>md_destroy = \<lparr>dd_plugins = [], dd_hardware = [], dd_links = []\<rparr>, md_create = \<lparr>dd_plugins = [], dd_hardware = [], dd_links = []\<rparr>\<rparr>"
    if "list_all (\<lambda>p. pc_designer p \<noteq> None) (dd_plugins dd)" "list_all (\<lambda>h. hc_designer h \<noteq> None) (dd_hardware dd)"
  proof -
    have "map placed_plugin (dd_plugins dd) = dd_plugins dd" "map placed_hardware (dd_hardware dd) = dd_hardware dd"
      using that by (auto simp: list_all_iff placed_fixed intro: map_idI)
    then have "send_data (reload ts dd d) = dd" by (simp add: send_reload)
    then show ?thesis by (simp add: doMerge_self)
  qed
  moreover have "list_all (\<lambda>p. pc_designer p \<noteq> None) (dd_plugins dd) \<and> list_all (\<lambda>h. hc_designer h \<noteq> None) (dd_hardware dd)"
    if "dd_plugins (md_destroy ?md) = []" "dd_hardware (md_destroy ?md) = []"
    using that by (auto simp: p h list_all_iff filter_empty_conv)
  ultimately show ?thesis using p h by force
qed

text \<open>The zoom stays between 10 and 200 percent in steps of ten, whatever buttons are pressed.\<close>

lemma zoom_bounds:
  "\<exists>k. 1 \<le> k \<and> k \<le> 20 \<and> ed_zoom (fold (\<lambda>inwards. if inwards then zoomIn else zoomOut) presses new_page) = 10 * k"
proof -
  have "\<exists>k'. 1 \<le> k' \<and> k' \<le> 20 \<and> ed_zoom (fold (\<lambda>inwards. if inwards then zoomIn else zoomOut) presses d) = 10 * k'"
    if "1 \<le> k" "k \<le> 20" "ed_zoom d = 10 * k" for k d
    using that
  proof (induction presses arbitrary: d k)
    case (Cons b bs)
    have "\<exists>k'. 1 \<le> k' \<and> k' \<le> 20 \<and> ed_zoom ((if b then zoomIn else zoomOut) d) = 10 * k'"
      using Cons.prems by (cases b; intro exI[of _ "if b then min 20 (k + 1) else max 1 (k - 1)"])
        (auto simp: zoomIn_def zoomOut_def min_def max_def)
    then show ?case using Cons.IH by auto
  next
    case Nil
    then show ?case by (intro exI[of _ k]) simp
  qed
  from this[of 10 new_page] show ?thesis by (simp add: new_page_def)
qed

subsection \<open>Where the editor goes wrong\<close>

text \<open>A plugin whose type the core no longer has loses its links when it is deleted, and stays.\<close>

lemma unknown_plugin_stays:
  assumes "editor_ok d" "p \<in> set (ed_plugins d)" "ep_type p = None"
  shows "ed_plugins (deleteComponent (EPlugin p) d) = ed_plugins d \<and>
    ed_links (deleteComponent (EPlugin p) d) = filter (\<lambda>l. \<not> touches (pc_id (ep_config p)) l) (ed_links d)"
proof -
  have r: "refs_ok d" using assms(1) by (simp add: editor_ok_def)
  show ?thesis using assms(3) by (simp add: deleteComponent_filter[OF r])
qed

text \<open>
  A component that an import replaced stays selected as the old object; deleting the selection removes the
  links of the new one and nothing else.
\<close>

lemma stale_selection_keeps_component:
  assumes "editor_ok d" "ed_selected d = Some (EHardware old)" "eh_ref old \<notin> eh_ref ` set (ed_hardware d)"
  shows "\<exists>d'. selectedComponentDelete d = (Inr (), d') \<and> ed_hardware d' = ed_hardware d \<and>
    ed_links d' = filter (\<lambda>l. \<not> touches (hc_id (eh_config old)) l) (ed_links d)"
proof -
  have r: "refs_ok d" using assms(1) by (simp add: editor_ok_def)
  have "filter (\<lambda>h. eh_ref h \<noteq> eh_ref old) (ed_hardware d) = ed_hardware d"
    using assms(3) by (auto simp: filter_id_conv) (metis image_eqI)
  then show ?thesis using assms(2) by (simp add: selectedComponentDelete_def deleteComponent_filter[OF r])
qed

text \<open>The id of a new plugin starts from 1 on each page, whatever ids the loaded plugins have.\<close>

lemma new_plugin_id_clash:
  assumes "findType d i = Some t" "ed_last_id d = 0" "''new_plugin_1'' \<in> set (plugin_ids d)"
  shows "\<not> distinct (plugin_ids (snd (createPlugin i x y d)))"
proof -
  have "show_nat (Suc 0) = ''1''" by code_simp
  with assms show ?thesis by (simp add: createPlugin_def idGenerator_def new_object_def op_defs Let_def)
qed

text \<open>Renaming a plugin leaves its links, which then name a component that does not exist.\<close>

lemma rename_leaves_links:
  assumes "ed_selected d = Some (EPlugin p)" "ep_type p \<noteq> None" "distinct (plugin_ids d)" "p \<in> set (ed_plugins d)"
    and "refs_ok d" "pc_id (ep_config p) \<notin> set (hardware_ids d)" "i \<noteq> pc_id (ep_config p)"
  shows "ed_links (rename_selected i d) = ed_links d \<and>
    schema_getMember (rename_selected i d) (pc_id (ep_config p)) m = Inr None"
proof -
  let ?d = "rename_selected i d"
  have d: "ed_links ?d = ed_links d" "ed_hardware ?d = ed_hardware d"
    "ed_plugins ?d = map (\<lambda>q. if ep_ref q = ep_ref p then q\<lparr>ep_config := (ep_config q)\<lparr>pc_id := i\<rparr>\<rparr> else q) (ed_plugins d)"
    using assms(1,2) by (simp_all add: rename_selected_def update_plugin_def Let_def)
  have "arrayFind (ed_plugins ?d) (\<lambda>q. pc_id (ep_config q) = pc_id (ep_config p)) = None"
    unfolding d(3) arrayFind_None using assms(7) same_object[OF assms(3) _ assms(4)] by auto
  moreover have "arrayFind (ed_hardware ?d) (\<lambda>h. hc_id (eh_config h) = pc_id (ep_config p)) = None"
    unfolding d(2) arrayFind_None using assms(6) by (auto simp: image_iff)
  ultimately show ?thesis
    using d(1) by (simp add: schema_getMember_def component_class_def plugin_member_class_def)
qed

end
