(* ===== verification/UiPage.thy ===== *)
theory UiPage
  imports Schema
begin

section \<open>The editor of the user interface\<close>

text \<open>
  \<open>mylife-home-core-designer/public/app/ui/designer.js\<close> and \<open>ui/dataAccess.js\<close>, with the server part
  \<open>uiManager.js\<close>: the page that edits windows, commands, texts and resources of the interface. Fields that hold an id or
  nothing are JavaScript values, because the code tests whether they are truthy and prints them. Sizes and
  formats, which only the templates read and write, are left out. Objects that are searched by identity
  carry it in a field \<open>_ref\<close>; the \<open>parent\<close> of a command or text is the window that holds it.
\<close>

record d_action =
  da_type :: jsval
  da_component :: jsval
  da_componentAction :: jsval
  da_window :: jsval
  da_popup :: bool

record d_map_item =
  dm_value :: jsval
  dm_min :: jsval
  dm_max :: jsval
  dm_image :: jsval

record d_display =
  ds_component :: jsval
  ds_attribute :: jsval
  ds_defaultImage :: jsval
  ds_map :: "d_map_item list option"     \<comment> \<open>\<open>None\<close>: undefined\<close>

record d_command =
  cm_ref :: nat
  cm_id :: string
  cm_display :: d_display
  cm_primary :: d_action
  cm_secondary :: d_action

record d_context =
  cx_id :: jsval
  cx_component :: jsval
  cx_attribute :: jsval

record d_text =
  tx_ref :: nat
  tx_id :: string
  tx_context :: "d_context list option"

record d_window =
  wd_ref :: nat
  wd_id :: string
  wd_background :: jsval
  wd_commands :: "d_command list"
  wd_texts :: "d_text list"

record d_resource =
  rs_ref :: nat
  rs_id :: string
  rs_data :: string

text \<open>A plugin with its type attached, as far as the page reads it.\<close>

record d_component =
  dc_id :: string
  dc_class :: "net_class option"     \<comment> \<open>\<open>internal().type['class']\<close>\<close>

text \<open>What can be selected: the application, a window, a command or text with its parent window.\<close>

datatype d_item = ItemApp | ItemWindow nat | ItemCommand nat nat | ItemText nat nat

record ui_page =
  up_resources :: "d_resource list"
  up_windows :: "d_window list"
  up_default :: jsval                         \<comment> \<open>\<open>app.defaultWindow\<close>\<close>
  up_components :: "d_component list option"  \<comment> \<open>\<open>components.plugins\<close>, undefined before they are loaded\<close>
  up_selected :: "d_item option"
  up_selectedWindow :: "nat option"
  up_newId :: jsval
  up_newData :: jsval
  up_next :: nat
  up_last_id :: nat

subsection \<open>Selection\<close>

fun selectItem :: "d_item option \<Rightarrow> ui_page \<Rightarrow> ui_page" where
  "selectItem None u = u\<lparr>up_selected := None\<rparr>"
| "selectItem (Some ItemApp) u = u\<lparr>up_selected := Some ItemApp, up_selectedWindow := None\<rparr>"
| "selectItem (Some (ItemWindow w)) u = u\<lparr>up_selected := Some (ItemWindow w), up_selectedWindow := Some w\<rparr>"
| "selectItem (Some (ItemCommand w c)) u = u\<lparr>up_selected := Some (ItemCommand w c), up_selectedWindow := Some w\<rparr>"
| "selectItem (Some (ItemText w t)) u = u\<lparr>up_selected := Some (ItemText w t), up_selectedWindow := Some w\<rparr>"

subsection \<open>The check of the schema\<close>

text \<open>
  Each error names the place as the message does: the window, the command or the text, and for
  actions the name built by \<open>checkAction\<close>.
\<close>

datatype schema_error =
    DefaultWindowUndefined | BackgroundUndefined string | ActionComponentUndefined string
  | ActionWindowUndefined string | DefaultImageUndefined string string | DisplayComponentUndefined string string
  | MapImageUndefined string string | TextComponentUndefined string string

text \<open>
  A check of a part of the page: whether it threw, the part as it left it, the errors it pushed. After
  a throw the parts not yet visited are as before.
\<close>

type_synonym 'a check = "'a \<Rightarrow> js_error option \<times> 'a \<times> schema_error list"

definition andThen :: "'a check \<Rightarrow> 'a check \<Rightarrow> 'a check" where
  "andThen f g x =
     (case f x of
        (Some e, x', es) \<Rightarrow> (Some e, x', es)
      | (None, x', es) \<Rightarrow> (case g x' of (r, x'', es') \<Rightarrow> (r, x'', es @ es')))"

fun checkEach :: "'a check \<Rightarrow> 'a list check" where
  "checkEach f [] = (None, [], [])"
| "checkEach f (x # xs) =
     (case f x of
        (Some e, x', es) \<Rightarrow> (Some e, x' # xs, es)
      | (None, x', es) \<Rightarrow> (case checkEach f xs of (r, xs', es') \<Rightarrow> (r, x' # xs', es @ es')))"

text \<open>A check of a field.\<close>

definition inField :: "('r \<Rightarrow> 'a) \<Rightarrow> ('a \<Rightarrow> 'r \<Rightarrow> 'r) \<Rightarrow> 'a check \<Rightarrow> 'r check" where
  "inField get put f r = (case f (get r) of (e, x, es) \<Rightarrow> (e, put x r, es))"

text \<open>\<open>if(!exists(\<dots>)) { clear; errors.push(\<dots>) }\<close>, with a test that may throw.\<close>

definition clearUnless :: "('a \<Rightarrow> js_error + bool) \<Rightarrow> ('a \<Rightarrow> 'a) \<Rightarrow> schema_error \<Rightarrow> 'a check" where
  "clearUnless ok clear err x =
     (case ok x of
        Inl e \<Rightarrow> (Some e, x, [])
      | Inr True \<Rightarrow> (None, x, [])
      | Inr False \<Rightarrow> (None, clear x, [err]))"

definition resourceExists :: "d_resource list \<Rightarrow> jsval \<Rightarrow> bool" where
  "resourceExists rs i = (if \<not> truthy i then True else list_ex (\<lambda>r. VStr (rs_id r) = i) rs)"

definition windowExists :: "d_window list \<Rightarrow> jsval \<Rightarrow> bool" where
  "windowExists ws i = (if \<not> truthy i then True else list_ex (\<lambda>w. VStr (wd_id w) = i) ws)"

text \<open>The inner loop: the first member with the name decides.\<close>

fun memberExists :: "member list \<Rightarrow> jsval \<Rightarrow> bool \<Rightarrow> bool" where
  "memberExists [] name attribute = False"
| "memberExists (m # ms) name attribute =
     (if VStr (mname m) = name then is_attribute m = attribute else memberExists ms name attribute)"

fun componentExists_in :: "d_component list \<Rightarrow> jsval \<Rightarrow> jsval \<Rightarrow> bool \<Rightarrow> js_error + bool" where
  "componentExists_in [] i name attribute = Inr False"
| "componentExists_in (c # cs) i name attribute =
     (if VStr (dc_id c) = i
      then (case dc_class c of None \<Rightarrow> Inl TypeErr | Some cl \<Rightarrow> Inr (memberExists (members cl) name attribute))
      else componentExists_in cs i name attribute)"

text \<open>\<open>attribute\<close> tells which member type is meant.\<close>

definition componentExists :: "d_component list option \<Rightarrow> jsval \<Rightarrow> jsval \<Rightarrow> bool \<Rightarrow> js_error + bool" where
  "componentExists cs i name attribute =
     (if \<not> truthy i \<and> \<not> truthy name then Inr True
      else (case cs of None \<Rightarrow> Inl TypeErr | Some cs \<Rightarrow> componentExists_in cs i name attribute))"

definition checkAction :: "d_window list \<Rightarrow> d_component list option \<Rightarrow> string \<Rightarrow> d_action check" where
  "checkAction ws cs name a =
     (if da_type a = VStr ''component'' then
        clearUnless (\<lambda>a. componentExists cs (da_component a) (da_componentAction a) False)
          (\<lambda>a. a\<lparr>da_component := VNull, da_componentAction := VNull\<rparr>) (ActionComponentUndefined name) a
      else if da_type a = VStr ''window'' then
        clearUnless (\<lambda>a. Inr (windowExists ws (da_window a))) (\<lambda>a. a\<lparr>da_window := VNull\<rparr>) (ActionWindowUndefined name) a
      else (None, a, []))"

definition checkDisplay :: "d_resource list \<Rightarrow> d_component list option \<Rightarrow> string \<Rightarrow> string \<Rightarrow> d_display check" where
  "checkDisplay rs cs w c =
     andThen (clearUnless (\<lambda>s. Inr (resourceExists rs (ds_defaultImage s))) (\<lambda>s. s\<lparr>ds_defaultImage := VNull\<rparr>) (DefaultImageUndefined w c))
       (andThen (clearUnless (\<lambda>s. componentExists cs (ds_component s) (ds_attribute s) True)
                   (\<lambda>s. s\<lparr>ds_component := VNull, ds_attribute := VNull\<rparr>) (DisplayComponentUndefined w c))
          (\<lambda>s. case ds_map s of
             None \<Rightarrow> (Some TypeErr, s, [])
           | Some is \<Rightarrow> inField (\<lambda>_. is) (\<lambda>is s. s\<lparr>ds_map := Some is\<rparr>)
               (checkEach (clearUnless (\<lambda>i. Inr (resourceExists rs (dm_image i))) (\<lambda>i. i\<lparr>dm_image := VNull\<rparr>) (MapImageUndefined w c))) s))"

definition checkCommand :: "ui_page \<Rightarrow> string \<Rightarrow> d_command check" where
  "checkCommand u w cmd =
     andThen (inField cm_primary (\<lambda>a c. c\<lparr>cm_primary := a\<rparr>)
                (checkAction (up_windows u) (up_components u) (w @ '':'' @ cm_id cmd @ '' (primary)'')))
       (andThen (inField cm_secondary (\<lambda>a c. c\<lparr>cm_secondary := a\<rparr>)
                   (checkAction (up_windows u) (up_components u) (w @ '':'' @ cm_id cmd @ '' (secondary)'')))
          (inField cm_display (\<lambda>s c. c\<lparr>cm_display := s\<rparr>) (checkDisplay (up_resources u) (up_components u) w (cm_id cmd)))) cmd"

definition checkText :: "ui_page \<Rightarrow> string \<Rightarrow> d_text check" where
  "checkText u w t =
     (case tx_context t of
        None \<Rightarrow> (None, t, [])
      | Some items \<Rightarrow> inField (\<lambda>_. items) (\<lambda>items t. t\<lparr>tx_context := Some items\<rparr>)
          (checkEach (clearUnless (\<lambda>i. componentExists (up_components u) (cx_component i) (cx_attribute i) True)
             (\<lambda>i. i\<lparr>cx_component := VNull, cx_attribute := VNull\<rparr>) (TextComponentUndefined w (tx_id t)))) t)"

definition checkWindow :: "ui_page \<Rightarrow> d_window check" where
  "checkWindow u w =
     andThen (clearUnless (\<lambda>w. Inr (resourceExists (up_resources u) (wd_background w))) (\<lambda>w. w\<lparr>wd_background := VNull\<rparr>)
                (BackgroundUndefined (wd_id w)))
       (andThen (inField wd_commands (\<lambda>cs w. w\<lparr>wd_commands := cs\<rparr>) (checkEach (checkCommand u (wd_id w))))
          (inField wd_texts (\<lambda>ts w. w\<lparr>wd_texts := ts\<rparr>) (checkEach (checkText u (wd_id w))))) w"

text \<open>\<open>checkSchema\<close> without the dialog that lists the errors. No check changes an id, so the tests see the ids of the page.\<close>

definition checkSchema :: "ui_page check" where
  "checkSchema u =
     andThen (clearUnless (\<lambda>v. Inr (windowExists (up_windows v) (up_default v))) (\<lambda>v. v\<lparr>up_default := VNull\<rparr>) DefaultWindowUndefined)
       (inField up_windows (\<lambda>ws v. v\<lparr>up_windows := ws\<rparr>) (checkEach (checkWindow u))) u"

subsection \<open>Loading and saving\<close>

text \<open>The answer of the server, before it is prepared; absent fields are \<open>None\<close>.\<close>

record raw_window =
  rw_id :: string
  rw_background :: jsval
  rw_commands :: "d_command list option"
  rw_texts :: "d_text list option"

record raw_ui =
  ru_resources :: "(string \<times> string) list option"
  ru_windows :: "raw_window list option"
  ru_defaultWindow :: jsval

text \<open>\<open>prepareWindow\<close>, and the identities of the window and of its items, numbered from \<open>n\<close>.\<close>

definition prepareWindow :: "nat \<Rightarrow> raw_window \<Rightarrow> d_window" where
  "prepareWindow n w =
     (let cs = (case rw_commands w of None \<Rightarrow> [] | Some cs \<Rightarrow> cs);
          ts = (case rw_texts w of None \<Rightarrow> [] | Some ts \<Rightarrow> ts);
          m = Suc n + length cs
      in \<lparr>wd_ref = n, wd_id = rw_id w, wd_background = rw_background w,
          wd_commands = map2 (\<lambda>r c. c\<lparr>cm_ref := r\<rparr>) [Suc n..<m] cs,
          wd_texts = map2 (\<lambda>r t. t\<lparr>tx_ref := r\<rparr>) [m..<m + length ts] ts\<rparr>)"

fun prepareWindows :: "nat \<Rightarrow> raw_window list \<Rightarrow> nat \<times> d_window list" where
  "prepareWindows n [] = (n, [])"
| "prepareWindows n (w # ws) =
     (let w' = prepareWindow n w;
          (k, ws') = prepareWindows (Suc n + length (wd_commands w') + length (wd_texts w')) ws
      in (k, w' # ws'))"

text \<open>
  \<open>load\<close> with \<open>applyData\<close>: an absent array is replaced by an object, on which \<open>forEach\<close> is undefined.
\<close>

definition load_ui :: "raw_ui \<Rightarrow> (ui_page, unit) op" where
  "load_ui d u =
     (case ru_resources d of
        None \<Rightarrow> (Inl TypeErr, u)
      | Some rs \<Rightarrow>
          (case ru_windows d of
             None \<Rightarrow> (Inl TypeErr, u)
           | Some ws \<Rightarrow>
               (let n = up_next u; m = n + length rs; (k, ws') = prepareWindows m ws
                in (Inr (), selectItem None
                     (u\<lparr>up_resources := map2 (\<lambda>r (i, d). \<lparr>rs_ref = r, rs_id = i, rs_data = d\<rparr>) [n..<m] rs,
                        up_windows := ws',
                        up_default := (if truthy (ru_defaultWindow d) then ru_defaultWindow d else VStr ''''),
                        up_next := k\<rparr>)))))"

text \<open>\<open>components\<close> of \<open>uiManager.js\<close> and \<open>dataAccess.js\<close>: the ui plugins with their types.\<close>

definition ui_components :: "plugin_type list \<Rightarrow> plugin_config list \<Rightarrow> d_component list" where
  "ui_components ts ps =
     (let ts = arrayKeepIf ts pt_ui;
          ps = arrayKeepIf ps (\<lambda>p. list_ex (\<lambda>t. pc_type p = pt_id t) ts)
      in map (\<lambda>p. \<lparr>dc_id = pc_id p, dc_class = map_option pt_class (arrayFind ts (\<lambda>t. pt_id t = pc_type p))\<rparr>) ps)"

definition applyComponents :: "d_component list \<Rightarrow> ui_page \<Rightarrow> ui_page" where
  "applyComponents cs u = u\<lparr>up_components := Some cs\<rparr>"

text \<open>The data that \<open>save\<close> posts: a clone, without identities (set to 0 here).\<close>

definition save_ui :: "ui_page \<Rightarrow> raw_ui" where
  "save_ui u = \<lparr>ru_resources = Some (map (\<lambda>r. (rs_id r, rs_data r)) (up_resources u)),
     ru_windows = Some (map (\<lambda>w. \<lparr>rw_id = wd_id w, rw_background = wd_background w,
        rw_commands = Some (map (\<lambda>c. c\<lparr>cm_ref := 0\<rparr>) (wd_commands w)),
        rw_texts = Some (map (\<lambda>t. t\<lparr>tx_ref := 0\<rparr>) (wd_texts w))\<rparr>) (up_windows u)),
     ru_defaultWindow = up_default u\<rparr>"

subsection \<open>Resources\<close>

datatype resource_alert = EnterId | EnterContent

definition newResource :: "ui_page \<Rightarrow> resource_alert option \<times> ui_page" where
  "newResource u =
     (if \<not> truthy (up_newId u) then (Some EnterId, u)
      else if \<not> truthy (up_newData u) then (Some EnterContent, u)
      else (None, u\<lparr>up_resources := up_resources u @ [\<lparr>rs_ref = up_next u, rs_id = to_str (up_newId u), rs_data = to_str (up_newData u)\<rparr>],
                    up_next := Suc (up_next u), up_newId := VUndefined, up_newData := VUndefined\<rparr>))"

definition destroyResource :: "d_resource \<Rightarrow> ui_page check" where
  "destroyResource r u =
     (if \<not> list_ex (\<lambda>x. rs_ref x = rs_ref r) (up_resources u) then (None, u, [])
      else checkSchema (u\<lparr>up_resources := removeByRef rs_ref (rs_ref r) (up_resources u)\<rparr>))"

definition getResource :: "ui_page \<Rightarrow> jsval \<Rightarrow> string option" where
  "getResource u i =
     (if \<not> truthy i then None else map_option rs_data (arrayFind (up_resources u) (\<lambda>r. VStr (rs_id r) = i)))"

subsection \<open>Items\<close>

definition updateWindow :: "nat \<Rightarrow> (d_window \<Rightarrow> d_window) \<Rightarrow> ui_page \<Rightarrow> ui_page" where
  "updateWindow r f u = u\<lparr>up_windows := map (\<lambda>w. if wd_ref w = r then f w else w) (up_windows u)\<rparr>"

fun removeItem :: "d_item \<Rightarrow> ui_page \<Rightarrow> ui_page" where
  "removeItem ItemApp u = u"
| "removeItem (ItemWindow w) u = u\<lparr>up_windows := removeByRef wd_ref w (up_windows u)\<rparr>"
| "removeItem (ItemCommand w c) u = updateWindow w (\<lambda>x. x\<lparr>wd_commands := removeByRef cm_ref c (wd_commands x)\<rparr>) u"
| "removeItem (ItemText w t) u = updateWindow w (\<lambda>x. x\<lparr>wd_texts := removeByRef tx_ref t (wd_texts x)\<rparr>) u"

definition deleteItem :: "ui_page check" where
  "deleteItem u =
     (case up_selected u of
        None \<Rightarrow> (None, u, [])
      | Some ItemApp \<Rightarrow> (None, u, [])
      | Some item \<Rightarrow> checkSchema (selectItem None (removeItem item u)))"

definition empty_action :: d_action where
  "empty_action = \<lparr>da_type = VUndefined, da_component = VUndefined, da_componentAction = VUndefined, da_window = VUndefined, da_popup = False\<rparr>"

definition empty_display :: d_display where
  "empty_display = \<lparr>ds_component = VUndefined, ds_attribute = VUndefined, ds_defaultImage = VUndefined, ds_map = None\<rparr>"

definition createWindow :: "ui_page \<Rightarrow> ui_page" where
  "createWindow u = u\<lparr>up_last_id := Suc (up_last_id u), up_next := Suc (up_next u),
     up_windows := up_windows u @ [prepareWindow (up_next u)
       \<lparr>rw_id = ''new_window_'' @ show_nat (Suc (up_last_id u)), rw_background = VUndefined, rw_commands = None, rw_texts = None\<rparr>]\<rparr>"

definition createCommand :: "nat \<Rightarrow> ui_page \<Rightarrow> ui_page" where
  "createCommand w u = updateWindow w (\<lambda>x. x\<lparr>wd_commands := wd_commands x @
       [\<lparr>cm_ref = up_next u, cm_id = ''new_command_'' @ show_nat (Suc (up_last_id u)), cm_display = empty_display,
         cm_primary = empty_action, cm_secondary = empty_action\<rparr>]\<rparr>)
     (u\<lparr>up_last_id := Suc (up_last_id u), up_next := Suc (up_next u)\<rparr>)"

definition createText :: "nat \<Rightarrow> ui_page \<Rightarrow> ui_page" where
  "createText w u = updateWindow w (\<lambda>x. x\<lparr>wd_texts := wd_texts x @
       [\<lparr>tx_ref = up_next u, tx_id = ''new_text_'' @ show_nat (Suc (up_last_id u)), tx_context = None\<rparr>]\<rparr>)
     (u\<lparr>up_last_id := Suc (up_last_id u), up_next := Suc (up_next u)\<rparr>)"

definition createItem :: "bool \<Rightarrow> ui_page \<Rightarrow> ui_page" where
  "createItem isText u =
     (case up_selected u of
        None \<Rightarrow> u
      | Some ItemApp \<Rightarrow> createWindow u
      | Some (ItemWindow w) \<Rightarrow> if isText then createText w u else createCommand w u
      | Some (ItemCommand w c) \<Rightarrow> createCommand w u
      | Some (ItemText w t) \<Rightarrow> createText w u)"

subsection \<open>Formatting\<close>

definition formatCommandAction :: "d_action \<Rightarrow> bool \<Rightarrow> jsval" where
  "formatCommandAction a short =
     (if da_type a = VStr ''component'' then
        (if short then da_component a
         else VStr (''component : '' @ to_str (da_component a) @ '':'' @ to_str (da_componentAction a)))
      else if da_type a = VStr ''window'' then
        (if short then da_window a
         else VStr (''window : '' @ to_str (da_window a) @ (if da_popup a then '' (popup)'' else '''')))
      else VNull)"

definition formatCommandDisplay :: "d_display option \<Rightarrow> jsval" where
  "formatCommandDisplay d =
     (case d of None \<Rightarrow> VNull
      | Some s \<Rightarrow>
          if \<not> truthy (ds_defaultImage s) then VNull
          else (case ds_map s of
                  Some (i # is) \<Rightarrow> VStr (to_str (ds_defaultImage s) @ '' (...)'')
                | _ \<Rightarrow> ds_defaultImage s))"

subsection \<open>The dialogs\<close>

text \<open>
  A dialog works on a copy of the data; the events are what its templates call. Closing it with Ok copies
  the data back, dismissing it does nothing. The choices are computed when it opens.
\<close>

definition class_members :: "d_component list \<Rightarrow> js_error + (string \<times> member) list" where
  "class_members cs =
     (if list_ex (\<lambda>c. dc_class c = None) cs then Inl TypeErr
      else Inr (concat (map (\<lambda>c. case dc_class c of None \<Rightarrow> [] | Some cl \<Rightarrow> map (Pair (dc_id c)) (members cl)) cs)))"

text \<open>\<open>componentActions\<close>: the actions without arguments.\<close>

fun no_arguments :: "member \<Rightarrow> bool" where
  "no_arguments (Action n []) = True"
| "no_arguments _ = False"

definition componentActions :: "d_component list option \<Rightarrow> js_error + (string \<times> string) list" where
  "componentActions cs =
     (case cs of None \<Rightarrow> Inl TypeErr
      | Some cs \<Rightarrow> (case class_members cs of Inl e \<Rightarrow> Inl e
          | Inr ms \<Rightarrow> Inr (map (\<lambda>(c, m). (c, mname m)) (filter (\<lambda>(c, m). no_arguments m) ms))))"

definition componentAttributes :: "d_component list option \<Rightarrow> js_error + (string \<times> string \<times> net_type) list" where
  "componentAttributes cs =
     (case cs of None \<Rightarrow> Inl TypeErr
      | Some cs \<Rightarrow> (case class_members cs of Inl e \<Rightarrow> Inl e
          | Inr ms \<Rightarrow> Inr (map (\<lambda>(c, m). (c, mname m, mtype m)) (filter (\<lambda>(c, m). is_attribute m) ms))))"

text \<open>\<open>designCommandAction\<close>: the form inputs, and the choice of an offered action.\<close>

datatype action_event = SetType jsval | ChangeComponentAction string string | SetWindow jsval | SetPopup bool

fun apply_action_event :: "action_event \<Rightarrow> d_action \<Rightarrow> d_action" where
  "apply_action_event (SetType t) a = a\<lparr>da_type := t\<rparr>"
| "apply_action_event (ChangeComponentAction c m) a = a\<lparr>da_component := VStr c, da_componentAction := VStr m\<rparr>"
| "apply_action_event (SetWindow w) a = a\<lparr>da_window := w\<rparr>"
| "apply_action_event (SetPopup b) a = a\<lparr>da_popup := b\<rparr>"

definition designCommandAction :: "d_action \<Rightarrow> action_event list \<Rightarrow> bool \<Rightarrow> d_action" where
  "designCommandAction a events ok = (let data = fold apply_action_event events a in if ok then data else a)"

text \<open>
  \<open>designCommandDisplay\<close>: the data with the type of the selected attribute, which decides the map editor
  shown. The template adds items to the map and edits their fields; items are removed by identity, here by their position.
\<close>

record display_data =
  dd_display :: d_display
  dd_items :: "d_map_item list"
  dd_type :: "net_type option"

definition open_display :: "(string \<times> string \<times> net_type) list \<Rightarrow> d_display \<Rightarrow> display_data" where
  "open_display attrs s =
     \<lparr>dd_display = s, dd_items = (case ds_map s of None \<Rightarrow> [] | Some is \<Rightarrow> is),
      dd_type = foldl (\<lambda>ty (c, a, t). if VStr c \<noteq> ds_component s then ty else if VStr a \<noteq> ds_attribute s then ty else Some t) None attrs\<rparr>"

datatype display_event =
    ChangeComponentAttribute string string net_type | SetDefaultImage jsval | AddMapItem d_map_item
  | EditMapItem nat d_map_item | DeleteMapItem nat

definition delete_at :: "nat \<Rightarrow> 'a list \<Rightarrow> 'a list" where
  "delete_at i xs = take i xs @ drop (Suc i) xs"

fun apply_display_event :: "display_event \<Rightarrow> display_data \<Rightarrow> display_data" where
  "apply_display_event (ChangeComponentAttribute c a t) d =
     d\<lparr>dd_display := (dd_display d)\<lparr>ds_component := VStr c, ds_attribute := VStr a\<rparr>, dd_type := Some t\<rparr>"
| "apply_display_event (SetDefaultImage i) d = d\<lparr>dd_display := (dd_display d)\<lparr>ds_defaultImage := i\<rparr>\<rparr>"
| "apply_display_event (AddMapItem m) d = d\<lparr>dd_items := dd_items d @ [m]\<rparr>"
| "apply_display_event (EditMapItem i m) d = d\<lparr>dd_items := (dd_items d)[i := m]\<rparr>"
| "apply_display_event (DeleteMapItem i) d = d\<lparr>dd_items := delete_at i (dd_items d)\<rparr>"

definition designCommandDisplay :: "(string \<times> string \<times> net_type) list \<Rightarrow> d_display \<Rightarrow> display_event list \<Rightarrow> bool \<Rightarrow> d_display" where
  "designCommandDisplay attrs s events ok =
     (let data = fold apply_display_event events (open_display attrs s)
      in if ok then (dd_display data)\<lparr>ds_map := Some (dd_items data)\<rparr> else s)"

text \<open>\<open>designTextContext\<close>.\<close>

datatype context_event =
    AddContext d_context | ChangeContextAttribute nat string string | SetContextId nat jsval | DeleteContext nat

fun apply_context_event :: "context_event \<Rightarrow> d_context list \<Rightarrow> d_context list" where
  "apply_context_event (AddContext c) cs = cs @ [c]"
| "apply_context_event (ChangeContextAttribute i c a) cs =
     (if i < length cs then cs[i := (cs ! i)\<lparr>cx_component := VStr c, cx_attribute := VStr a\<rparr>] else cs)"
| "apply_context_event (SetContextId i v) cs = (if i < length cs then cs[i := (cs ! i)\<lparr>cx_id := v\<rparr>] else cs)"
| "apply_context_event (DeleteContext i) cs = delete_at i cs"

definition designTextContext :: "d_text \<Rightarrow> context_event list \<Rightarrow> bool \<Rightarrow> d_text" where
  "designTextContext t events ok =
     (let data = fold apply_context_event events (case tx_context t of None \<Rightarrow> [] | Some cs \<Rightarrow> cs)
      in if ok then t\<lparr>tx_context := Some data\<rparr> else t)"

end
