(* ===== verification/UiPageLaws.thy ===== *)
theory UiPageLaws
  imports UiPage
begin

section \<open>Laws of the schema check\<close>

text \<open>
  The contract of a check: it leaves what is in order alone, what it returns without throwing is in order, and it changes
  nothing without an error. The combinators keep the contract, so it holds for \<open>checkSchema\<close>.
\<close>

locale repair =
  fixes ok :: "'a \<Rightarrow> bool" and f :: "'a check"
  assumes stable: "ok x \<Longrightarrow> f x = (None, x, [])"
    and repaired: "f x = (None, x', es) \<Longrightarrow> ok x'"
    and silent: "f x = (r, x', []) \<Longrightarrow> x' = x"
begin

lemma idempotent: "f x = (None, x', es) \<Longrightarrow> f x' = (None, x', [])"
  by (rule stable) (rule repaired)

lemma errors_iff_changed: "f x = (None, x', es) \<Longrightarrow> es = [] \<longleftrightarrow> x' = x"
  using silent[of x None x'] idempotent[of x x' es] by auto

lemma ok_iff: "ok x \<longleftrightarrow> f x = (None, x, [])"
  using stable repaired by blast

end

lemma repair_clearUnless:
  assumes "\<And>x. t (clear x) = Inr True"
  shows "repair (\<lambda>x. t x = Inr True) (clearUnless t clear err)"
  by unfold_locales (use assms in \<open>auto simp: clearUnless_def split: sum.splits bool.splits\<close>)

lemma repair_clearUnless_pure:
  assumes "\<And>x. t (clear x)"
  shows "repair t (clearUnless (\<lambda>x. Inr (t x)) clear err)"
  by unfold_locales (use assms in \<open>auto simp: clearUnless_def split: bool.splits\<close>)

lemma repair_andThen:
  assumes "repair P f" "repair Q g" "\<And>x x' es. P x \<Longrightarrow> g x = (None, x', es) \<Longrightarrow> P x'"
  shows "repair (\<lambda>x. P x \<and> Q x) (andThen f g)"
proof
  fix x assume "P x \<and> Q x"
  then show "andThen f g x = (None, x, [])"
    using repair.stable[OF assms(1), of x] repair.stable[OF assms(2), of x] by (simp add: andThen_def)
next
  fix x x' es assume "andThen f g x = (None, x', es)"
  then obtain y es1 es2 where "f x = (None, y, es1)" "g y = (None, x', es2)"
    by (auto simp: andThen_def split: prod.splits option.splits)
  then show "P x' \<and> Q x'"
    using repair.repaired[OF assms(1)] repair.repaired[OF assms(2)] assms(3) by blast
next
  fix x r x' assume "andThen f g x = (r, x', [])"
  then show "x' = x"
    using repair.silent[OF assms(1)] repair.silent[OF assms(2)]
    by (fastforce simp: andThen_def split: prod.splits option.splits)
qed

lemma repair_each:
  assumes "repair P f"
  shows "repair (\<lambda>xs. \<forall>x \<in> set xs. P x) (checkEach f)"
proof
  fix xs assume "\<forall>x \<in> set xs. P x"
  then show "checkEach f xs = (None, xs, [])"
    by (induction xs) (simp_all add: repair.stable[OF assms])
next
  fix xs xs' es assume "checkEach f xs = (None, xs', es)"
  then show "\<forall>x \<in> set xs'. P x"
    by (induction xs arbitrary: xs' es)
      (auto split: prod.splits option.splits dest: repair.repaired[OF assms])
next
  fix xs r xs' assume "checkEach f xs = (r, xs', [])"
  then show "xs' = xs"
    by (induction xs arbitrary: xs' r)
      (auto split: prod.splits option.splits dest: repair.silent[OF assms])
qed

lemma repair_inField:
  assumes "repair P f" "\<And>a r. get (put a r) = a" "\<And>r. put (get r) r = r"
  shows "repair (\<lambda>r. P (get r)) (inField get put f)"
proof
  show "inField get put f r = (None, r, [])" if "P (get r)" for r
    using repair.stable[OF assms(1) that] assms(3) by (simp add: inField_def)
  show "P (get r')" if "inField get put f r = (None, r', es)" for r r' es
    using that repair.repaired[OF assms(1)] assms(2) by (auto simp: inField_def split: prod.splits)
  show "r' = r" if "inField get put f r = (e, r', [])" for r r' e
    using that repair.silent[OF assms(1)] assms(3) by (fastforce simp: inField_def split: prod.splits)
qed

text \<open>A part of the data that a check leaves alone.\<close>

definition untouched :: "('a \<Rightarrow> 'b) \<Rightarrow> 'a check \<Rightarrow> bool" where
  "untouched h f \<longleftrightarrow> (\<forall>x. h (fst (snd (f x))) = h x)"

lemma untouchedD: "untouched h f \<Longrightarrow> f x = (r, x', es) \<Longrightarrow> h x' = h x"
  by (metis untouched_def fst_conv snd_conv)

lemma untouched_clearUnless: "(\<And>x. h (clear x) = h x) \<Longrightarrow> untouched h (clearUnless t clear err)"
  by (simp add: untouched_def clearUnless_def split: sum.split bool.split)

lemma untouched_andThen: "untouched h f \<Longrightarrow> untouched h g \<Longrightarrow> untouched h (andThen f g)"
  unfolding untouched_def andThen_def by (auto split: prod.splits option.splits) (metis fst_conv snd_conv)+

lemma untouched_inField: "(\<And>a r. h (put a r) = h r) \<Longrightarrow> untouched h (inField get put f)"
  by (simp add: untouched_def inField_def split: prod.split)

lemma untouched_each: "untouched h f \<Longrightarrow> untouched (map h) (checkEach f)"
  unfolding untouched_def
proof
  fix xs assume "\<forall>x. h (fst (snd (f x))) = h x"
  then show "map h (fst (snd (checkEach f xs))) = map h xs"
    by (induction xs) (auto split: prod.splits option.splits, (metis fst_conv snd_conv)+)
qed

lemmas untouched_rules = untouched_clearUnless untouched_andThen untouched_inField untouched_each

subsection \<open>What is in order\<close>

definition action_refs_ok :: "d_window list \<Rightarrow> d_component list option \<Rightarrow> d_action \<Rightarrow> bool" where
  "action_refs_ok ws cs a \<longleftrightarrow>
     (if da_type a = VStr ''component'' then componentExists cs (da_component a) (da_componentAction a) False = Inr True
      else if da_type a = VStr ''window'' then windowExists ws (da_window a) else True)"

definition display_refs_ok :: "d_resource list \<Rightarrow> d_component list option \<Rightarrow> d_display \<Rightarrow> bool" where
  "display_refs_ok rs cs s \<longleftrightarrow> resourceExists rs (ds_defaultImage s) \<and>
     componentExists cs (ds_component s) (ds_attribute s) True = Inr True \<and>
     (case ds_map s of None \<Rightarrow> False | Some is \<Rightarrow> list_all (\<lambda>i. resourceExists rs (dm_image i)) is)"

definition command_refs_ok :: "ui_page \<Rightarrow> d_command \<Rightarrow> bool" where
  "command_refs_ok u c \<longleftrightarrow> action_refs_ok (up_windows u) (up_components u) (cm_primary c) \<and>
     action_refs_ok (up_windows u) (up_components u) (cm_secondary c) \<and>
     display_refs_ok (up_resources u) (up_components u) (cm_display c)"

definition text_refs_ok :: "ui_page \<Rightarrow> d_text \<Rightarrow> bool" where
  "text_refs_ok u t \<longleftrightarrow> (case tx_context t of None \<Rightarrow> True
     | Some is \<Rightarrow> list_all (\<lambda>i. componentExists (up_components u) (cx_component i) (cx_attribute i) True = Inr True) is)"

definition window_refs_ok :: "ui_page \<Rightarrow> d_window \<Rightarrow> bool" where
  "window_refs_ok u w \<longleftrightarrow> resourceExists (up_resources u) (wd_background w) \<and>
     list_all (command_refs_ok u) (wd_commands w) \<and> list_all (text_refs_ok u) (wd_texts w)"

definition page_refs_ok :: "ui_page \<Rightarrow> bool" where
  "page_refs_ok u \<longleftrightarrow> windowExists (up_windows u) (up_default u) \<and> list_all (window_refs_ok u) (up_windows u)"

lemmas refs_ok_defs = action_refs_ok_def display_refs_ok_def command_refs_ok_def text_refs_ok_def window_refs_ok_def

lemma exists_null [simp]:
  "resourceExists rs VNull" "windowExists ws VNull" "componentExists cs VNull VNull b = Inr True"
  by (simp_all add: resourceExists_def windowExists_def componentExists_def)

lemma repair_action: "repair (action_refs_ok ws cs) (checkAction ws cs name)"
proof -
  have c: "repair (\<lambda>a. componentExists cs (da_component a) (da_componentAction a) False = Inr True)
      (clearUnless (\<lambda>a. componentExists cs (da_component a) (da_componentAction a) False)
        (\<lambda>a. a\<lparr>da_component := VNull, da_componentAction := VNull\<rparr>) (ActionComponentUndefined name))"
    by (rule repair_clearUnless) simp
  have w: "repair (\<lambda>a. windowExists ws (da_window a))
      (clearUnless (\<lambda>a. Inr (windowExists ws (da_window a))) (\<lambda>a. a\<lparr>da_window := VNull\<rparr>) (ActionWindowUndefined name))"
    by (rule repair_clearUnless_pure) simp
  have t: "untouched da_type (checkAction ws cs name)"
    unfolding untouched_def checkAction_def clearUnless_def by (auto split: sum.split bool.split)
  show ?thesis
  proof
    show "checkAction ws cs name a = (None, a, [])" if "action_refs_ok ws cs a" for a
      using that repair.stable[OF c] repair.stable[OF w] by (auto simp: checkAction_def action_refs_ok_def split: if_splits)
    show "action_refs_ok ws cs a'" if "checkAction ws cs name a = (None, a', es)" for a a' es
      using that untouchedD[OF t that] repair.repaired[OF c, of a a' es] repair.repaired[OF w, of a a' es]
      by (auto simp: checkAction_def action_refs_ok_def split: if_splits)
    show "a' = a" if "checkAction ws cs name a = (r, a', [])" for a r a'
      using that repair.silent[OF c, of a r a'] repair.silent[OF w, of a r a']
      by (auto simp: checkAction_def split: if_splits)
  qed
qed

lemma repair_cong: "repair P f \<Longrightarrow> (\<And>x. P x = Q x) \<Longrightarrow> repair Q f"
  by (simp add: repair_def)

lemma repair_map_images:
  "repair (\<lambda>s. case ds_map s of None \<Rightarrow> False | Some is \<Rightarrow> list_all (\<lambda>i. resourceExists rs (dm_image i)) is)
     (\<lambda>s. case ds_map s of
         None \<Rightarrow> (Some TypeErr, s, [])
       | Some is \<Rightarrow> inField (\<lambda>_. is) (\<lambda>is s. s\<lparr>ds_map := Some is\<rparr>)
           (checkEach (clearUnless (\<lambda>i. Inr (resourceExists rs (dm_image i))) (\<lambda>i. i\<lparr>dm_image := VNull\<rparr>) err)) s)"
proof -
  have e: "repair (\<lambda>is. \<forall>i \<in> set is. resourceExists rs (dm_image i))
      (checkEach (clearUnless (\<lambda>i. Inr (resourceExists rs (dm_image i))) (\<lambda>i. i\<lparr>dm_image := VNull\<rparr>) err))"
    by (intro repair_each repair_clearUnless_pure) simp
  show ?thesis
    by unfold_locales
      (use repair.stable[OF e] repair.repaired[OF e] repair.silent[OF e] in
        \<open>fastforce simp: inField_def list_all_iff split: option.splits prod.splits\<close>)+
qed

lemma repair_display: "repair (display_refs_ok rs cs) (checkDisplay rs cs w c)"
  unfolding checkDisplay_def display_refs_ok_def[abs_def]
  by (intro repair_andThen repair_clearUnless_pure repair_clearUnless repair_map_images)
    (auto simp: andThen_def clearUnless_def inField_def split: prod.splits option.splits sum.splits bool.splits)

lemma repair_text: "repair (text_refs_ok u) (checkText u w)"
proof -
  have e: "repair (\<lambda>is. \<forall>i \<in> set is. componentExists (up_components u) (cx_component i) (cx_attribute i) True = Inr True)
      (checkEach (clearUnless (\<lambda>i. componentExists (up_components u) (cx_component i) (cx_attribute i) True)
         (\<lambda>i. i\<lparr>cx_component := VNull, cx_attribute := VNull\<rparr>) (TextComponentUndefined w n)))" for n
    by (intro repair_each repair_clearUnless) simp
  show ?thesis
    by unfold_locales
      (use repair.stable[OF e] repair.repaired[OF e] repair.silent[OF e] in
        \<open>fastforce simp: checkText_def text_refs_ok_def inField_def list_all_iff split: option.splits prod.splits\<close>)+
qed

text \<open>The names in the errors do not change what a check does to the data.\<close>

lemma repair_command: "repair (command_refs_ok u) (checkCommand u w)"
proof -
  have "repair (command_refs_ok u)
      (andThen (inField cm_primary (\<lambda>a c. c\<lparr>cm_primary := a\<rparr>) (checkAction (up_windows u) (up_components u) n1))
        (andThen (inField cm_secondary (\<lambda>a c. c\<lparr>cm_secondary := a\<rparr>) (checkAction (up_windows u) (up_components u) n2))
          (inField cm_display (\<lambda>s c. c\<lparr>cm_display := s\<rparr>) (checkDisplay (up_resources u) (up_components u) w n3))))" for n1 n2 n3
    unfolding command_refs_ok_def[abs_def]
    by (intro repair_andThen repair_inField repair_action repair_display)
      (auto simp: andThen_def inField_def split: prod.splits option.splits)
  then show ?thesis
    unfolding repair_def checkCommand_def by blast
qed

lemma repair_window: "repair (window_refs_ok u) (checkWindow u)"
proof -
  have "repair (window_refs_ok u)
      (andThen (clearUnless (\<lambda>w. Inr (resourceExists (up_resources u) (wd_background w))) (\<lambda>w. w\<lparr>wd_background := VNull\<rparr>)
                  (BackgroundUndefined n))
         (andThen (inField wd_commands (\<lambda>cs w. w\<lparr>wd_commands := cs\<rparr>) (checkEach (checkCommand u n)))
            (inField wd_texts (\<lambda>ts w. w\<lparr>wd_texts := ts\<rparr>) (checkEach (checkText u n)))))" for n
    unfolding window_refs_ok_def[abs_def] list_all_iff
    by (intro repair_andThen repair_inField repair_clearUnless_pure repair_each repair_command repair_text)
      (auto simp: andThen_def inField_def split: prod.splits option.splits)
  then show ?thesis
    unfolding repair_def checkWindow_def by blast
qed

subsection \<open>Ids survive\<close>

lemma untouched_command_id: "untouched cm_id (checkCommand u w)"
  unfolding untouched_def checkCommand_def by (simp add: andThen_def inField_def split: prod.split option.split)

lemma untouched_window_id: "untouched wd_id (checkWindow u)"
proof -
  have "untouched wd_id
      (andThen (clearUnless (\<lambda>w. Inr (resourceExists (up_resources u) (wd_background w))) (\<lambda>w. w\<lparr>wd_background := VNull\<rparr>)
                  (BackgroundUndefined n))
         (andThen (inField wd_commands (\<lambda>cs w. w\<lparr>wd_commands := cs\<rparr>) (checkEach (checkCommand u n)))
            (inField wd_texts (\<lambda>ts w. w\<lparr>wd_texts := ts\<rparr>) (checkEach (checkText u n)))))" for n
    by (intro untouched_clearUnless untouched_andThen untouched_inField) simp_all
  then show ?thesis unfolding untouched_def checkWindow_def by blast
qed

lemma untouched_windows: "untouched (map wd_id) (checkEach (checkWindow u))"
  by (intro untouched_each untouched_window_id)

lemma windowExists_ids: "map wd_id ws = map wd_id ws' \<Longrightarrow> windowExists ws i = windowExists ws' i"
  unfolding windowExists_def list_ex_iff by (metis (mono_tags, lifting) image_eqI image_iff list.set_map)

lemma window_refs_ok_cong:
  assumes "up_resources v = up_resources u" "up_components v = up_components u" "map wd_id (up_windows v) = map wd_id (up_windows u)"
  shows "window_refs_ok v = window_refs_ok u" "checkWindow v = checkWindow u"
proof -
  have w: "windowExists (up_windows v) i = windowExists (up_windows u) i" for i
    using windowExists_ids[OF assms(3)] .
  have "action_refs_ok (up_windows v) = action_refs_ok (up_windows u)"
    by (simp add: fun_eq_iff action_refs_ok_def w)
  then show "window_refs_ok v = window_refs_ok u"
    by (simp only: fun_eq_iff window_refs_ok_def command_refs_ok_def[abs_def] text_refs_ok_def[abs_def] assms simp_thms)
  have a: "checkAction (up_windows v) = checkAction (up_windows u)"
    by (simp add: fun_eq_iff checkAction_def w)
  show "checkWindow v = checkWindow u"
    by (simp only: fun_eq_iff checkWindow_def checkCommand_def[abs_def] checkText_def[abs_def] a assms simp_thms)
qed

lemma repair_schema: "repair page_refs_ok checkSchema"
proof -
  have d: "repair (\<lambda>v. windowExists (up_windows v) (up_default v))
      (clearUnless (\<lambda>v. Inr (windowExists (up_windows v) (up_default v))) (\<lambda>v. v\<lparr>up_default := VNull\<rparr>) DefaultWindowUndefined)"
    by (intro repair_clearUnless_pure) simp
  have ws: "repair (\<lambda>v. \<forall>w \<in> set (up_windows v). window_refs_ok u w)
      (inField up_windows (\<lambda>ws v. v\<lparr>up_windows := ws\<rparr>) (checkEach (checkWindow u)))" for u
    by (intro repair_inField repair_each repair_window) simp_all
  have both: "repair (\<lambda>v. windowExists (up_windows v) (up_default v) \<and> (\<forall>w \<in> set (up_windows v). window_refs_ok u w))
      (andThen (clearUnless (\<lambda>v. Inr (windowExists (up_windows v) (up_default v))) (\<lambda>v. v\<lparr>up_default := VNull\<rparr>) DefaultWindowUndefined)
        (inField up_windows (\<lambda>ws v. v\<lparr>up_windows := ws\<rparr>) (checkEach (checkWindow u))))" for u
    by (rule repair_andThen[OF d ws])
      (use windowExists_ids[OF untouchedD[OF untouched_windows]] in \<open>auto simp: inField_def split: prod.splits\<close>)
  have same: "window_refs_ok v = window_refs_ok u" if "checkSchema u = (r, v, es)" for u v r es
    by (rule window_refs_ok_cong)
      (use that untouchedD[OF untouched_windows] in \<open>auto simp: checkSchema_def andThen_def inField_def clearUnless_def
        split: prod.splits option.splits bool.splits\<close>)
  show ?thesis
  proof
    show "checkSchema u = (None, u, [])" if "page_refs_ok u" for u
      using repair.stable[OF both, of u u] that by (simp add: checkSchema_def page_refs_ok_def list_all_iff)
    show "page_refs_ok u'" if "checkSchema u = (None, u', es)" for u u' es
      using repair.repaired[OF both, of u u u' es] same[OF that] that by (simp add: checkSchema_def page_refs_ok_def list_all_iff)
    show "u' = u" if "checkSchema u = (r, u', [])" for u r u'
      using repair.silent[OF both, of u u r u'] that by (simp add: checkSchema_def)
  qed
qed

interpretation schema: repair page_refs_ok checkSchema
  by (rule repair_schema)

end
