(* ===== verification/UiPageProps.thy ===== *)
theory UiPageProps
  imports UiPageLaws SchemaProps
begin

section \<open>Properties of the interface editor\<close>

text \<open>
  When the check of the schema completes and what it then guarantees; what the dialogs offer; creation
  and deletion of items; loading and saving.
\<close>

subsection \<open>When a check throws\<close>

definition throws :: "('a \<Rightarrow> bool) \<Rightarrow> 'a check \<Rightarrow> bool" where
  "throws p f \<longleftrightarrow> (\<forall>x. fst (f x) = (if p x then Some TypeErr else None))"

lemma throwsD: "throws p f \<Longrightarrow> f x = (r, x', es) \<Longrightarrow> r = (if p x then Some TypeErr else None)"
  by (metis throws_def fst_conv)

lemma fst_clearUnless: "\<exists>b. t x = Inr b \<Longrightarrow> fst (clearUnless t clear err x) = None"
  by (auto simp: clearUnless_def split: bool.split)

lemma throws_clearUnless: "(\<And>x. \<exists>b. t x = Inr b) \<Longrightarrow> throws (\<lambda>x. False) (clearUnless t clear err)"
  by (simp add: throws_def fst_clearUnless)

lemma throws_andThen:
  assumes "throws p f" "throws q g" "untouched q f"
  shows "throws (\<lambda>x. p x \<or> q x) (andThen f g)"
  unfolding throws_def
proof
  fix x
  obtain r y es where f: "f x = (r, y, es)" by (cases "f x")
  obtain r' z es' where g: "g y = (r', z, es')" by (cases "g y")
  show "fst (andThen f g x) = (if p x \<or> q x then Some TypeErr else None)"
    using f g throwsD[OF assms(1) f] throwsD[OF assms(2) g] untouchedD[OF assms(3) f] by (simp add: andThen_def)
qed

lemma throws_each: "throws p f \<Longrightarrow> throws (\<lambda>xs. list_ex p xs) (checkEach f)"
  unfolding throws_def
proof
  fix xs assume a: "\<forall>x. fst (f x) = (if p x then Some TypeErr else None)"
  show "fst (checkEach f xs) = (if list_ex p xs then Some TypeErr else None)"
  proof (induction xs)
    case (Cons x xs)
    then show ?case using a[rule_format, of x] by (cases "f x"; cases "checkEach f xs") (auto split: if_splits)
  qed simp
qed

lemma throws_inField: "throws p f \<Longrightarrow> throws (\<lambda>r. p (get r)) (inField get put f)"
  unfolding throws_def inField_def by (auto split: prod.split) (metis fst_conv)+

lemma throws_cong: "throws p f \<Longrightarrow> (\<And>x. p x = q x) \<Longrightarrow> throws q f"
  by (simp add: throws_def)

definition loaded_components :: "d_component list option \<Rightarrow> bool" where
  "loaded_components cs \<longleftrightarrow> (case cs of None \<Rightarrow> False | Some cs \<Rightarrow> list_all (\<lambda>c. dc_class c \<noteq> None) cs)"

lemma componentExists_total:
  assumes "loaded_components cs"
  shows "\<exists>b. componentExists cs i n a = Inr b"
proof -
  obtain xs where xs: "cs = Some xs" "list_all (\<lambda>c. dc_class c \<noteq> None) xs"
    using assms by (auto simp: loaded_components_def split: option.splits)
  have "\<exists>b. componentExists_in xs i n a = Inr b"
    using xs(2) by (induction xs) auto
  then show ?thesis using xs(1) by (auto simp: componentExists_def)
qed

definition no_map :: "d_command \<Rightarrow> bool" where
  "no_map c \<longleftrightarrow> ds_map (cm_display c) = None"

lemma throws_action:
  assumes "loaded_components cs"
  shows "throws (\<lambda>a. False) (checkAction ws cs name)"
  by (simp add: throws_def checkAction_def fst_clearUnless componentExists_total[OF assms])

lemma throws_map_images:
  "throws (\<lambda>s. ds_map s = None)
     (\<lambda>s. case ds_map s of
         None \<Rightarrow> (Some TypeErr, s, [])
       | Some is \<Rightarrow> inField (\<lambda>_. is) (\<lambda>is s. s\<lparr>ds_map := Some is\<rparr>)
           (checkEach (clearUnless (\<lambda>i :: d_map_item. Inr (resourceExists rs (dm_image i))) (\<lambda>i. i\<lparr>dm_image := VNull\<rparr>) err)) s)"
proof -
  have "throws (list_ex (\<lambda>x. False)) (checkEach (clearUnless (\<lambda>i :: d_map_item. Inr (resourceExists rs (dm_image i))) (\<lambda>i. i\<lparr>dm_image := VNull\<rparr>) err))"
    by (intro throws_each throws_clearUnless) blast
  then have "fst (checkEach (clearUnless (\<lambda>i :: d_map_item. Inr (resourceExists rs (dm_image i))) (\<lambda>i. i\<lparr>dm_image := VNull\<rparr>) err) is) = None" for "is"
    by (simp add: throws_def list_ex_iff)
  then show ?thesis
    by (auto simp: throws_def inField_def split: option.split prod.split) (metis fst_conv)
qed

lemma throws_display:
  assumes "loaded_components cs"
  shows "throws (\<lambda>s. ds_map s = None) (checkDisplay rs cs w c)"
proof -
  have "throws (\<lambda>s :: d_display. False \<or> False \<or> ds_map s = None) (checkDisplay rs cs w c)"
    unfolding checkDisplay_def
    by (intro throws_andThen throws_clearUnless throws_map_images untouched_clearUnless)
      (simp_all add: componentExists_total[OF assms])
  then show ?thesis by simp
qed

lemma throws_command:
  assumes "loaded_components (up_components u)"
  shows "throws no_map (checkCommand u w)"
proof -
  have "throws (\<lambda>c :: d_command. False \<or> False \<or> ds_map (cm_display c) = None)
      (andThen (inField cm_primary (\<lambda>a c. c\<lparr>cm_primary := a\<rparr>) (checkAction (up_windows u) (up_components u) n1))
        (andThen (inField cm_secondary (\<lambda>a c. c\<lparr>cm_secondary := a\<rparr>) (checkAction (up_windows u) (up_components u) n2))
          (inField cm_display (\<lambda>s c. c\<lparr>cm_display := s\<rparr>) (checkDisplay (up_resources u) (up_components u) w n3))))" for n1 n2 n3
    by (intro throws_andThen untouched_inField throws_inField[where p = "\<lambda>a. False"] throws_inField[where p = "\<lambda>s. ds_map s = None"]
        throws_action throws_display assms) simp_all
  then show ?thesis unfolding throws_def checkCommand_def no_map_def by simp
qed

lemma throws_text:
  assumes "loaded_components (up_components u)"
  shows "throws (\<lambda>t. False) (checkText u w)"
proof -
  have "throws (list_ex (\<lambda>x. False)) (checkEach (clearUnless (\<lambda>i :: d_context. componentExists (up_components u) (cx_component i) (cx_attribute i) True)
      (\<lambda>i. i\<lparr>cx_component := VNull, cx_attribute := VNull\<rparr>) err))" for err
    by (intro throws_each throws_clearUnless componentExists_total assms)
  then have "fst (checkEach (clearUnless (\<lambda>i :: d_context. componentExists (up_components u) (cx_component i) (cx_attribute i) True)
      (\<lambda>i. i\<lparr>cx_component := VNull, cx_attribute := VNull\<rparr>) err) is) = None" for err "is"
    by (simp add: throws_def list_ex_iff)
  then show ?thesis
    by (auto simp: throws_def checkText_def inField_def split: option.split prod.split) (metis fst_conv)
qed

lemma throws_window:
  assumes "loaded_components (up_components u)"
  shows "throws (\<lambda>w. list_ex no_map (wd_commands w)) (checkWindow u)"
proof -
  have "throws (\<lambda>w :: d_window. False \<or> list_ex no_map (wd_commands w) \<or> list_ex (\<lambda>t. False) (wd_texts w))
      (andThen (clearUnless (\<lambda>w. Inr (resourceExists (up_resources u) (wd_background w))) (\<lambda>w. w\<lparr>wd_background := VNull\<rparr>)
                  (BackgroundUndefined n))
         (andThen (inField wd_commands (\<lambda>cs w. w\<lparr>wd_commands := cs\<rparr>) (checkEach (checkCommand u n)))
            (inField wd_texts (\<lambda>ts w. w\<lparr>wd_texts := ts\<rparr>) (checkEach (checkText u n)))))" for n
    by (intro throws_andThen untouched_inField untouched_clearUnless throws_clearUnless
        throws_inField[where p = "list_ex no_map"] throws_inField[where p = "list_ex (\<lambda>t. False)"]
        throws_each throws_command throws_text assms) simp_all
  then show ?thesis unfolding throws_def checkWindow_def by (simp add: list_ex_iff)
qed

lemma throws_schema:
  assumes "loaded_components (up_components u)"
  shows "fst (checkSchema u) = (if list_ex (\<lambda>w. list_ex no_map (wd_commands w)) (up_windows u) then Some TypeErr else None)"
proof -
  have "throws (\<lambda>v :: ui_page. False \<or> list_ex (\<lambda>w. list_ex no_map (wd_commands w)) (up_windows v))
      (andThen (clearUnless (\<lambda>v. Inr (windowExists (up_windows v) (up_default v))) (\<lambda>v. v\<lparr>up_default := VNull\<rparr>) DefaultWindowUndefined)
        (inField up_windows (\<lambda>ws v. v\<lparr>up_windows := ws\<rparr>) (checkEach (checkWindow u))))"
    by (intro throws_andThen throws_clearUnless untouched_clearUnless
        throws_inField[where p = "list_ex (\<lambda>w. list_ex no_map (wd_commands w))"] throws_each throws_window assms) simp_all
  then show ?thesis unfolding throws_def checkSchema_def by simp
qed

text \<open>A page with one window that holds one command, complete except for a default window that is gone.\<close>

definition sample_command :: d_command where
  "sample_command = \<lparr>cm_ref = 2, cm_id = ''toggle'',
     cm_display = \<lparr>ds_component = VStr ''lamp'', ds_attribute = VStr ''output'', ds_defaultImage = VStr ''off'',
       ds_map = Some [\<lparr>dm_value = VStr ''on'', dm_min = VUndefined, dm_max = VUndefined, dm_image = VStr ''missing''\<rparr>]\<rparr>,
     cm_primary = \<lparr>da_type = VStr ''component'', da_component = VStr ''btn'', da_componentAction = VStr ''input'', da_window = VNull, da_popup = False\<rparr>,
     cm_secondary = empty_action\<rparr>"

definition sample_ui_page :: ui_page where
  "sample_ui_page = \<lparr>up_resources = [\<lparr>rs_ref = 0, rs_id = ''off'', rs_data = ''data:''\<rparr>],
     up_windows = [\<lparr>wd_ref = 1, wd_id = ''main'', wd_background = VNull, wd_commands = [sample_command], wd_texts = []\<rparr>],
     up_default = VStr ''gone'', up_components = Some (ui_components (map snd sample_types) (map snd (ps_plugins sample_data))),
     up_selected = Some (ItemWindow 1), up_selectedWindow = Some 1, up_newId = VUndefined, up_newData = VUndefined,
     up_next = 3, up_last_id = 0\<rparr>"

text \<open>
  C38: With the components loaded, the check of the schema completes exactly when every command has a
  display map; a single command without one makes it throw a TypeError.
\<close>

theorem schema_check_completes:
  assumes "loaded_components (up_components u)"
  shows "fst (checkSchema u) = (if list_all (\<lambda>w. list_all (\<lambda>c. ds_map (cm_display c) \<noteq> None) (wd_commands w)) (up_windows u)
     then None else Some TypeErr)"
  unfolding throws_schema[OF assms] by (simp add: list_all_iff list_ex_iff no_map_def)

theorem schema_check_completes_witness:
  "fst (checkSchema sample_ui_page) = None \<and> fst (checkSchema (createItem False sample_ui_page)) = Some TypeErr"
proof -
  have "loaded_components (up_components sample_ui_page)" "loaded_components (up_components (createItem False sample_ui_page))"
    by code_simp+
  from this[THEN schema_check_completes] show ?thesis
    by (simp add: sample_ui_page_def sample_command_def createItem_def createCommand_def updateWindow_def empty_display_def)
qed

text \<open>
  C37: What the check returns without throwing has no dangling reference to a resource, window, component or member,
  a second check changes nothing and reports nothing, there are errors exactly when something was
  cleared, and no window was lost or renamed.
\<close>

theorem schema_check_repairs:
  assumes "checkSchema u = (None, u', es)"
  shows "page_refs_ok u' \<and> checkSchema u' = (None, u', []) \<and> (es = []) = (u' = u) \<and> map wd_id (up_windows u') = map wd_id (up_windows u)"
proof -
  have "map wd_id (up_windows u') = map wd_id (up_windows u)"
    using assms untouchedD[OF untouched_windows]
    by (auto simp: checkSchema_def andThen_def inField_def clearUnless_def split: prod.splits option.splits bool.splits)
  then show ?thesis
    using schema.repaired[OF assms] schema.idempotent[OF assms] schema.errors_iff_changed[OF assms] by simp
qed

theorem schema_check_repairs_witness:
  "\<exists>u' es. checkSchema sample_ui_page = (None, u', es) \<and> es = [DefaultWindowUndefined, MapImageUndefined ''main'' ''toggle''] \<and>
    page_refs_ok u' \<and> checkSchema u' = (None, u', []) \<and> (es = []) = (u' = sample_ui_page) \<and>
    map wd_id (up_windows u') = map wd_id (up_windows sample_ui_page)"
proof -
  obtain u' where "checkSchema sample_ui_page = (None, u', [DefaultWindowUndefined, MapImageUndefined ''main'' ''toggle''])"
  proof -
    have "fst (checkSchema sample_ui_page) = None" "snd (snd (checkSchema sample_ui_page)) = [DefaultWindowUndefined, MapImageUndefined ''main'' ''toggle'']"
      by code_simp+
    then show thesis using that[of "fst (snd (checkSchema sample_ui_page))"] by (metis prod.collapse)
  qed
  from this schema_check_repairs[OF this] show ?thesis by blast
qed

text \<open>The button for a new command is enough: a command is created without a map.\<close>

lemma new_command_breaks_check:
  assumes "loaded_components (up_components u)" "up_selected u = Some (ItemWindow (wd_ref w))" "w \<in> set (up_windows u)"
  shows "fst (checkSchema (createItem False u)) = Some TypeErr"
proof -
  let ?u = "createItem False u"
  let ?new = "\<lparr>cm_ref = up_next u, cm_id = ''new_command_'' @ show_nat (Suc (up_last_id u)), cm_display = empty_display,
        cm_primary = empty_action, cm_secondary = empty_action\<rparr>"
  let ?f = "\<lambda>x. if wd_ref x = wd_ref w then x\<lparr>wd_commands := wd_commands x @ [?new]\<rparr> else x"
  have u: "up_windows ?u = map ?f (up_windows u)" "up_components ?u = up_components u"
    using assms(2) by (simp_all add: createItem_def createCommand_def updateWindow_def)
  have "?f w \<in> set (up_windows ?u)"
    unfolding u(1) set_map using assms(3) by (rule imageI)
  moreover have "list_ex no_map (wd_commands (?f w))"
    by (simp add: no_map_def empty_display_def)
  ultimately have "list_ex (\<lambda>w. list_ex no_map (wd_commands w)) (up_windows ?u)"
    unfolding list_ex_iff[of _ "up_windows ?u"] by (rule bexI[rotated])
  then show ?thesis using throws_schema[of ?u] assms(1) u(2) by simp
qed

subsection \<open>Choices\<close>






subsection \<open>Creation and deletion\<close>

lemma page_refs_ok_frame:
  "up_resources v = up_resources u \<Longrightarrow> up_components v = up_components u \<Longrightarrow> up_windows v = up_windows u \<Longrightarrow>
     up_default v = up_default u \<Longrightarrow> page_refs_ok v = page_refs_ok u"
  using window_refs_ok_cong(1)[of v u] by (simp add: page_refs_ok_def)

lemma removeByRef_fresh:
  fixes r :: nat
  shows "ref x = r \<Longrightarrow> \<forall>y \<in> set xs. ref y < r \<Longrightarrow> removeByRef ref r (xs @ [x]) = xs"
  by (rule removeByRef_last) auto

text \<open>
  On a page without dangling references, creating a text in the selected window and deleting it, or creating a
  window and deleting it, restores the windows and reports no error.
\<close>

theorem create_delete_restores:
  assumes "page_refs_ok u" "list_all (\<lambda>w. wd_ref w < up_next u \<and> list_all (\<lambda>t. tx_ref t < up_next u) (wd_texts w)) (up_windows u)"
  shows "\<exists>u1 u2. deleteItem (selectItem (Some (ItemText w (up_next u))) (createItem True (selectItem (Some (ItemWindow w)) u))) = (None, u1, [])
    \<and> up_windows u1 = up_windows u \<and> up_selected u1 = None
    \<and> deleteItem (selectItem (Some (ItemWindow (up_next u))) (createItem b (selectItem (Some ItemApp) u))) = (None, u2, [])
    \<and> up_windows u2 = up_windows u \<and> up_selected u2 = None"
proof -
  let ?t = "createItem True (selectItem (Some (ItemWindow w)) u)"
  let ?u1 = "selectItem None (removeItem (ItemText w (up_next u)) (selectItem (Some (ItemText w (up_next u))) ?t))"
  have "removeByRef tx_ref (up_next u) (wd_texts x @ [t]) = wd_texts x"
    if "x \<in> set (up_windows u)" "tx_ref t = up_next u" for x t
    using that assms(2) by (intro removeByRef_fresh) (auto simp: list_all_iff)
  then have w1: "up_windows ?u1 = up_windows u"
    by (auto simp: createItem_def createText_def updateWindow_def intro!: map_idI)
  have p1: "page_refs_ok ?u1"
    using page_refs_ok_frame[of ?u1 u, OF _ _ w1] assms(1) by (simp add: createItem_def createText_def updateWindow_def)
  let ?c = "createItem b (selectItem (Some ItemApp) u)"
  let ?u2 = "selectItem None (removeItem (ItemWindow (up_next u)) (selectItem (Some (ItemWindow (up_next u))) ?c))"
  have "removeByRef wd_ref (up_next u) (up_windows u @ [prepareWindow (up_next u) r]) = up_windows u" for r
    by (rule removeByRef_fresh) (use assms(2) in \<open>auto simp: prepareWindow_def Let_def list_all_iff\<close>)
  then have w2: "up_windows ?u2 = up_windows u"
    by (simp add: createItem_def createWindow_def)
  have p2: "page_refs_ok ?u2"
    using page_refs_ok_frame[of ?u2 u, OF _ _ w2] assms(1) by (simp add: createItem_def createWindow_def)
  have "deleteItem (selectItem (Some (ItemText w (up_next u))) ?t) = (None, ?u1, [])"
    using schema.stable[OF p1] by (simp add: deleteItem_def)
  moreover have "deleteItem (selectItem (Some (ItemWindow (up_next u))) ?c) = (None, ?u2, [])"
    using schema.stable[OF p2] by (simp add: deleteItem_def)
  ultimately show ?thesis using w1 w2 by (intro exI[of _ ?u1] exI[of _ ?u2]) simp
qed

theorem create_delete_restores_witness:
  "\<exists>u u1 u2. u = fst (snd (checkSchema sample_ui_page)) \<and>
    deleteItem (selectItem (Some (ItemText 1 (up_next u))) (createItem True (selectItem (Some (ItemWindow 1)) u))) = (None, u1, [])
    \<and> up_windows u1 = up_windows u \<and> up_selected u1 = None
    \<and> deleteItem (selectItem (Some (ItemWindow (up_next u))) (createItem False (selectItem (Some ItemApp) u))) = (None, u2, [])
    \<and> up_windows u2 = up_windows u \<and> up_selected u2 = None"
proof -
  let ?u = "fst (snd (checkSchema sample_ui_page))"
  have "page_refs_ok ?u" by code_simp
  moreover have "list_all (\<lambda>w. wd_ref w < up_next ?u \<and> list_all (\<lambda>t. tx_ref t < up_next ?u) (wd_texts w)) (up_windows ?u)"
    by code_simp
  ultimately show ?thesis using create_delete_restores[of ?u 1 False] by blast
qed

subsection \<open>Loading and saving\<close>

lemma prepareWindows_saved:
  "map (\<lambda>w. \<lparr>rw_id = wd_id w, rw_background = wd_background w,
       rw_commands = Some (map (\<lambda>c. c\<lparr>cm_ref := 0\<rparr>) (wd_commands w)),
       rw_texts = Some (map (\<lambda>t. t\<lparr>tx_ref := 0\<rparr>) (wd_texts w))\<rparr>) (snd (prepareWindows n ws)) =
   map (\<lambda>w. \<lparr>rw_id = rw_id w, rw_background = rw_background w,
       rw_commands = Some (map (\<lambda>c. c\<lparr>cm_ref := 0\<rparr>) (case rw_commands w of None \<Rightarrow> [] | Some cs \<Rightarrow> cs)),
       rw_texts = Some (map (\<lambda>t. t\<lparr>tx_ref := 0\<rparr>) (case rw_texts w of None \<Rightarrow> [] | Some ts \<Rightarrow> ts))\<rparr>) ws"
proof (induction ws arbitrary: n)
  case (Cons w ws)
  have "map (\<lambda>c. c\<lparr>cm_ref := 0\<rparr>) (map2 (\<lambda>r c. c\<lparr>cm_ref := r\<rparr>) ns cs) = map (\<lambda>c. c\<lparr>cm_ref := 0\<rparr>) cs"
    if "length ns = length cs" for ns and cs :: "d_command list"
    using that by (intro map_map2_snd) simp_all
  moreover have "map (\<lambda>c. c\<lparr>tx_ref := 0\<rparr>) (map2 (\<lambda>r c. c\<lparr>tx_ref := r\<rparr>) ns cs) = map (\<lambda>c. c\<lparr>tx_ref := 0\<rparr>) cs"
    if "length ns = length cs" for ns and cs :: "d_text list"
    using that by (intro map_map2_snd) simp_all
  ultimately show ?case
    using Cons.IH by (simp add: prepareWindow_def Let_def case_prod_beta Suc_le_eq del: map_map)
qed simp

text \<open>
  A page saved and loaded again, on any page, posts the same data when it is saved; only an absent default window
  becomes the empty id.
\<close>

theorem ui_load_save:
  "\<exists>u'. load_ui (save_ui v) u = (Inr (), u') \<and>
     save_ui u' = (save_ui v)\<lparr>ru_defaultWindow := (if truthy (up_default v) then up_default v else VStr '''')\<rparr>"
proof -
  have r: "map (\<lambda>r. (rs_id r, rs_data r)) (map2 (\<lambda>r (i, d). \<lparr>rs_ref = r, rs_id = i, rs_data = d\<rparr>) ns xs) = map (\<lambda>x. x) xs"
    if "length ns = length xs" for ns xs
    using that by (rule map_map2_snd) (auto split: prod.split)
  obtain k ws where ws: "prepareWindows (up_next u + length (up_resources v)) (the (ru_windows (save_ui v))) = (k, ws)"
    by fastforce
  have "map (\<lambda>w. \<lparr>rw_id = wd_id w, rw_background = wd_background w,
       rw_commands = Some (map (\<lambda>c. c\<lparr>cm_ref := 0\<rparr>) (wd_commands w)),
       rw_texts = Some (map (\<lambda>t. t\<lparr>tx_ref := 0\<rparr>) (wd_texts w))\<rparr>) ws = the (ru_windows (save_ui v))"
    using prepareWindows_saved[of "up_next u + length (up_resources v)" "the (ru_windows (save_ui v))"] ws
    by (simp add: save_ui_def)
  then show ?thesis
    using ws by (simp add: load_ui_def save_ui_def Let_def r del: map_map)
qed

end
