(* ===== verification/LegacyWeb.thy ===== *)
theory LegacyWeb
  imports JsPrelude Complex_Main
begin

section \<open>The earlier web interface\<close>

text \<open>
  The scripts of \<open>old_java_20141207/MyLife.Home.UI.Web/src/main/webapp/static/scripts\<close> (the browser side of
  the interface before \<open>mylife-home-ui\<close>) and \<open>bgrefresh.js\<close> of the hardware emulator in \<open>old_20131116\<close>. The web
  socket, promises and angular's routing and dialogs are the environment: their events are operations,
  and a promise chain is run to its end. Values that may be null or undefined, which the
  scripts never distinguish, are options.
\<close>

subsection \<open>Structure and images\<close>

record lg_action_source =
  as_windowId :: "string option"
  as_popup :: bool
  as_componentId :: "string option"
  as_componentAction :: "string option"

record lg_mapping =
  mp_iconId :: string

record lg_icon =
  ic_iconId :: "string option"
  ic_defaultIconId :: "string option"
  ic_mappings :: "lg_mapping list option"

record lg_component_source =
  cs_id :: string
  cs_displayName :: string
  cs_positionX :: rat
  cs_positionY :: rat
  cs_icon :: "lg_icon option"
  cs_primaryAction :: "lg_action_source option"
  cs_secondaryAction :: "lg_action_source option"

record lg_window_source =
  ws_id :: string
  ws_displayName :: string
  ws_backgroundId :: "string option"
  ws_components :: "lg_component_source list option"

record lg_structure =
  st_windows :: "lg_window_source list option"
  st_images :: "(string \<times> string) list option"
  st_defaultWindowId :: "string option"

text \<open>
  What \<open>dataPromise\<close> resolves to: \<open>None\<close> after a failed request, because the error handler returns
  nothing. The functions on it then read a property of undefined and their promise is rejected.
\<close>

type_synonym lg_data = "lg_structure option"

definition lg_getWindow :: "lg_data \<Rightarrow> string \<Rightarrow> js_error + lg_window_source option" where
  "lg_getWindow data i =
     (case data of
        None \<Rightarrow> Inl TypeErr
      | Some st \<Rightarrow> (case st_windows st of None \<Rightarrow> Inr None | Some ws \<Rightarrow> Inr (arrayFind ws (\<lambda>w. ws_id w = i))))"

definition getImageData :: "lg_data \<Rightarrow> string \<Rightarrow> js_error + string option" where
  "getImageData data i =
     (case data of
        None \<Rightarrow> Inl TypeErr
      | Some st \<Rightarrow> (case st_images st of None \<Rightarrow> Inr None
          | Some ims \<Rightarrow> Inr (map_option snd (arrayFind ims (\<lambda>x. fst x = i)))))"

definition getDefaultWindowId :: "lg_data \<Rightarrow> js_error + string option" where
  "getDefaultWindowId data = (case data of None \<Rightarrow> Inl TypeErr | Some st \<Rightarrow> Inr (st_defaultWindowId st))"

definition images :: "lg_data \<Rightarrow> string \<Rightarrow> js_error + string option" where
  "images data i = (case getImageData data i of Inl e \<Rightarrow> Inl e
     | Inr im \<Rightarrow> Inr (map_option (\<lambda>d. ''data:image/png;base64,'' @ d) im))"

subsection \<open>Connection\<close>

record lg_net =
  ln_open :: bool               \<comment> \<open>\<open>WebSocket.currentState() == 'OPEN'\<close>\<close>
  ln_windows :: "string list"
  ln_sent :: "string list"

definition send :: "string \<Rightarrow> lg_net \<Rightarrow> lg_net" where
  "send msg n = (if \<not> ln_open n then n else n\<lparr>ln_sent := ln_sent n @ [msg]\<rparr>)"

definition sendWindows :: "lg_net \<Rightarrow> lg_net" where
  "sendWindows n = send (foldl (\<lambda>msg w. msg @ '' '' @ w) ''window'' (ln_windows n)) n"

definition windowPush :: "string \<Rightarrow> lg_net \<Rightarrow> lg_net" where
  "windowPush w n = sendWindows (n\<lparr>ln_windows := ln_windows n @ [w]\<rparr>)"

text \<open>\<open>pop\<close> of an empty array leaves it empty.\<close>

definition windowPop :: "lg_net \<Rightarrow> lg_net" where
  "windowPop n = sendWindows (n\<lparr>ln_windows := butlast (ln_windows n)\<rparr>)"

definition windowClear :: "lg_net \<Rightarrow> lg_net" where
  "windowClear n = sendWindows (n\<lparr>ln_windows := []\<rparr>)"

definition sendAction :: "string \<Rightarrow> string \<Rightarrow> bool \<Rightarrow> lg_net \<Rightarrow> lg_net" where
  "sendAction w c isprimary n =
     send (''action '' @ w @ '' '' @ c @ '' '' @ (if isprimary then ''primary'' else ''secondary'')) n"

definition onopen :: "lg_net \<Rightarrow> lg_net" where
  "onopen n = sendWindows (n\<lparr>ln_open := True\<rparr>)"

definition onclose :: "lg_net \<Rightarrow> lg_net" where
  "onclose n = n\<lparr>ln_open := False\<rparr>"

text \<open>\<open>onmessage\<close> and the three receive functions: which callbacks fire and with what.\<close>

datatype lg_event = ReceiveIcon string string "string option" | ReceiveOnlineChanged string string bool | ReceiveStructureChanged

definition receiveIcon :: "string \<Rightarrow> string \<Rightarrow> string \<Rightarrow> lg_event" where
  "receiveIcon w c i = ReceiveIcon w c (if i = ''null'' then None else Some i)"

fun lg_command :: "string \<Rightarrow> string list \<Rightarrow> lg_event option" where
  "lg_command command args =
     (if command = ''icon'' then
        (if length args < 3 then None else Some (receiveIcon (args ! 0) (args ! 1) (args ! 2)))
      else if command = ''online'' then
        (if length args < 2 then None else Some (ReceiveOnlineChanged (args ! 0) (args ! 1) True))
      else if command = ''offline'' then
        (if length args < 2 then None else Some (ReceiveOnlineChanged (args ! 0) (args ! 1) False))
      else if command = ''structureChanged'' then Some ReceiveStructureChanged
      else None)"

definition onmessage :: "string \<Rightarrow> lg_event option" where
  "onmessage msg =
     (case split_on (CHR '' '') msg of
        [] \<Rightarrow> None
      | command # args \<Rightarrow> lg_command command args)"

subsection \<open>The model of a window\<close>

text \<open>What \<open>action.execute\<close> does: the closure that \<open>actionBuilder\<close> chose.\<close>

datatype lg_execute = ShowWindow string bool | SendAction string string bool | DoNothing

record lg_component =
  lc_id :: string
  lc_displayName :: string
  lc_positionX :: rat
  lc_positionY :: rat
  lc_staticIcon :: "string option"
  lc_defaultIcon :: "string option"
  lc_iconMap :: "string option dict"
  lc_image :: "string option"
  lc_primaryAction :: lg_execute
  lc_secondaryAction :: lg_execute

record lg_window =
  lw_id :: string
  lw_displayName :: string
  lw_backgroundImage :: "string option"
  lw_components :: "lg_component list"

definition icon_key :: "string \<Rightarrow> string \<Rightarrow> string" where
  "icon_key c what = ''component/'' @ c @ ''/'' @ what"

definition mapping_key :: "string \<Rightarrow> nat \<Rightarrow> string" where
  "mapping_key c i = icon_key c (''mappings/'' @ show_nat i @ ''/iconId'')"

text \<open>The loop over the mappings, from index \<open>i\<close>.\<close>

fun mapping_keys :: "string \<Rightarrow> nat \<Rightarrow> lg_mapping list \<Rightarrow> string dict \<Rightarrow> string dict" where
  "mapping_keys c i [] keys = keys"
| "mapping_keys c i (m # ms) keys = mapping_keys c (Suc i) ms (jset (mapping_key c i) (mp_iconId m) keys)"

definition componentImageKeys :: "lg_component_source \<Rightarrow> string dict \<Rightarrow> js_error + string dict" where
  "componentImageKeys c keys =
     (case cs_icon c of
        None \<Rightarrow> Inr keys
      | Some icon \<Rightarrow>
          (case ic_iconId icon of
             Some i \<Rightarrow> Inr (jset (icon_key (cs_id c) ''staticIconId'') i keys)
           | None \<Rightarrow>
               (case ic_defaultIconId icon of
                  None \<Rightarrow> Inr keys
                | Some i \<Rightarrow>
                    (case ic_mappings icon of
                       None \<Rightarrow> Inl TypeErr
                     | Some ms \<Rightarrow> Inr (mapping_keys (cs_id c) 0 ms (jset (icon_key (cs_id c) ''defaultIconId'') i keys))))))"

fun components_keys :: "lg_component_source list \<Rightarrow> string dict \<Rightarrow> js_error + string dict" where
  "components_keys [] keys = Inr keys"
| "components_keys (c # cs) keys =
     (case componentImageKeys c keys of Inl e \<Rightarrow> Inl e | Inr keys' \<Rightarrow> components_keys cs keys')"

definition imageKeys :: "lg_window_source \<Rightarrow> js_error + string dict" where
  "imageKeys w =
     components_keys (case ws_components w of None \<Rightarrow> [] | Some cs \<Rightarrow> cs)
       (case ws_backgroundId w of None \<Rightarrow> [] | Some i \<Rightarrow> jset ''window/backgroundId'' i [])"

text \<open>\<open>$q.all\<close>: rejected when one of the images is.\<close>

fun imagesBatch :: "lg_data \<Rightarrow> string dict \<Rightarrow> js_error + string option dict" where
  "imagesBatch data [] = Inr []"
| "imagesBatch data ((k, i) # keys) =
     (case images data i of Inl e \<Rightarrow> Inl e
      | Inr im \<Rightarrow> (case imagesBatch data keys of Inl e \<Rightarrow> Inl e | Inr rest \<Rightarrow> Inr ((k, im) # rest)))"

definition lookup_image :: "string option dict \<Rightarrow> string \<Rightarrow> string option" where
  "lookup_image imageMap k = (case jget imageMap k of None \<Rightarrow> None | Some im \<Rightarrow> im)"

definition actionBuilder :: "lg_action_source option \<Rightarrow> string \<Rightarrow> string \<Rightarrow> bool \<Rightarrow> lg_execute" where
  "actionBuilder src windowId componentId isprimary =
     (case src of
        None \<Rightarrow> DoNothing
      | Some a \<Rightarrow>
          (case as_windowId a of
             Some w \<Rightarrow> ShowWindow w (as_popup a)
           | None \<Rightarrow> if as_componentId a \<noteq> None then SendAction windowId componentId isprimary else DoNothing))"

fun icon_map :: "string option dict \<Rightarrow> string \<Rightarrow> nat \<Rightarrow> lg_mapping list \<Rightarrow> string option dict \<Rightarrow> string option dict" where
  "icon_map imageMap c i [] m = m"
| "icon_map imageMap c i (x # xs) m =
     icon_map imageMap c (Suc i) xs (jset (mp_iconId x) (lookup_image imageMap (mapping_key c i)) m)"

definition componentBuilder :: "string \<Rightarrow> string option dict \<Rightarrow> lg_component_source \<Rightarrow> js_error + lg_component" where
  "componentBuilder windowId imageMap c =
     (case cs_icon c of
        None \<Rightarrow> Inl TypeErr
      | Some icon \<Rightarrow>
          (let static = lookup_image imageMap (icon_key (cs_id c) ''staticIconId'');
               def = lookup_image imageMap (icon_key (cs_id c) ''defaultIconId'')
           in Inr \<lparr>lc_id = cs_id c, lc_displayName = cs_displayName c, lc_positionX = cs_positionX c, lc_positionY = cs_positionY c,
                lc_staticIcon = static, lc_defaultIcon = def,
                lc_iconMap = (case ic_mappings icon of None \<Rightarrow> [] | Some ms \<Rightarrow> icon_map imageMap (cs_id c) 0 ms []),
                lc_image = (if def \<noteq> None then def else static),
                lc_primaryAction = actionBuilder (cs_primaryAction c) windowId (cs_id c) True,
                lc_secondaryAction = actionBuilder (cs_secondaryAction c) windowId (cs_id c) False\<rparr>))"

fun components_builder :: "string \<Rightarrow> string option dict \<Rightarrow> lg_component_source list \<Rightarrow> js_error + lg_component list" where
  "components_builder w m [] = Inr []"
| "components_builder w m (c # cs) =
     (case componentBuilder w m c of Inl e \<Rightarrow> Inl e
      | Inr x \<Rightarrow> (case components_builder w m cs of Inl e \<Rightarrow> Inl e | Inr xs \<Rightarrow> Inr (x # xs)))"

definition builder :: "lg_window_source \<Rightarrow> string option dict \<Rightarrow> js_error + lg_window" where
  "builder w imageMap =
     (case components_builder (ws_id w) imageMap (case ws_components w of None \<Rightarrow> [] | Some cs \<Rightarrow> cs) of
        Inl e \<Rightarrow> Inl e
      | Inr cs \<Rightarrow> Inr \<lparr>lw_id = ws_id w, lw_displayName = ws_displayName w,
          lw_backgroundImage = lookup_image imageMap ''window/backgroundId'', lw_components = cs\<rparr>)"

text \<open>The function that \<open>modelBuilder\<close> is: keys, images, model.\<close>

definition modelBuilder :: "lg_data \<Rightarrow> lg_window_source \<Rightarrow> js_error + lg_window" where
  "modelBuilder data w =
     (case imageKeys w of Inl e \<Rightarrow> Inl e
      | Inr keys \<Rightarrow> (case imagesBatch data keys of Inl e \<Rightarrow> Inl e | Inr imageMap \<Rightarrow> builder w imageMap))"

text \<open>\<open>registerNetEvents\<close>: what the two callbacks of a window do to its model; only the first component with the id is looked up.\<close>

definition setDefaultIcon :: "lg_component \<Rightarrow> lg_component" where
  "setDefaultIcon c = (if lc_staticIcon c \<noteq> None then c else c\<lparr>lc_image := lc_defaultIcon c\<rparr>)"

fun update_first :: "string \<Rightarrow> (lg_component \<Rightarrow> lg_component) \<Rightarrow> lg_component list \<Rightarrow> lg_component list" where
  "update_first i f [] = []"
| "update_first i f (c # cs) = (if lc_id c = i then f c # cs else c # update_first i f cs)"

definition update_component :: "string \<Rightarrow> string \<Rightarrow> (lg_component \<Rightarrow> lg_component) \<Rightarrow> lg_window \<Rightarrow> lg_window" where
  "update_component w c f win = (if lw_id win \<noteq> w then win else win\<lparr>lw_components := update_first c f (lw_components win)\<rparr>)"

definition set_icon :: "string option \<Rightarrow> lg_component \<Rightarrow> lg_component" where
  "set_icon im c =
     (if lc_staticIcon c \<noteq> None then c
      else (case im of None \<Rightarrow> setDefaultIcon c | Some i \<Rightarrow> c\<lparr>lc_image := lookup_image (lc_iconMap c) i\<rparr>))"

fun net_event :: "lg_event \<Rightarrow> lg_window \<Rightarrow> lg_window" where
  "net_event (ReceiveIcon w c im) win = update_component w c (set_icon im) win"
| "net_event (ReceiveOnlineChanged w c online) win = (if online then win else update_component w c setDefaultIcon win)"
| "net_event ReceiveStructureChanged win = win"

subsection \<open>The page\<close>

text \<open>
  The windows shown, in the order of their controllers; nothing unregisters a callback, so every window built
  since the page was loaded receives the events.
\<close>

record lg_page =
  lp_net :: lg_net
  lp_dataPromise :: "lg_data option"      \<comment> \<open>\<open>None\<close>: null\<close>
  lp_models :: "lg_window list"
  lp_mouseDown :: "(string \<times> int) option"
  lp_location :: string

type_synonym 'a lgop = "(lg_page, 'a) op"

text \<open>\<open>getData\<close>; \<open>server\<close> is the answer to the request, if one is made now.\<close>

definition getData :: "lg_data \<Rightarrow> lg_data lgop" where
  "getData server p =
     (case lp_dataPromise p of
        Some data \<Rightarrow> (Inr data, p)
      | None \<Rightarrow> (Inr server, p\<lparr>lp_dataPromise := Some server\<rparr>))"

definition reset :: "lg_page \<Rightarrow> lg_page" where
  "reset p = p\<lparr>lp_dataPromise := None\<rparr>"

definition on_net :: "(lg_net \<Rightarrow> lg_net) \<Rightarrow> lg_page \<Rightarrow> lg_page" where
  "on_net f p = p\<lparr>lp_net := f (lp_net p)\<rparr>"

text \<open>\<open>windowController\<close>: a rejected model leaves the window empty, which is no error of the operation.\<close>

definition windowController :: "lg_data \<Rightarrow> lg_window_source \<Rightarrow> bool \<Rightarrow> lg_page \<Rightarrow> lg_page" where
  "windowController data w popup p =
     (let p = (if \<not> popup then on_net windowClear p else p);
          p = on_net (windowPush (ws_id w)) p
      in case modelBuilder data w of Inl e \<Rightarrow> p | Inr win \<Rightarrow> p\<lparr>lp_models := lp_models p @ [win]\<rparr>)"

text \<open>
  The route \<open>/:windowId\<close> and \<open>showWindow\<close>. A window is resolved before its controller runs: an error rejects
  the promise of the route, which nobody handles, and null makes the controller throw at \<open>window.id\<close>.
\<close>

definition navigate :: "lg_data \<Rightarrow> string \<Rightarrow> lg_page \<Rightarrow> lg_page" where
  "navigate server i p =
     (case getData server (p\<lparr>lp_location := ''/'' @ i\<rparr>) of
        (Inl e, p) \<Rightarrow> p
      | (Inr data, p) \<Rightarrow>
          (case lg_getWindow data i of
             Inl e \<Rightarrow> p
           | Inr None \<Rightarrow> p
           | Inr (Some w) \<Rightarrow> windowController data w False p))"

definition popupClosed :: "lg_page \<Rightarrow> lg_page" where
  "popupClosed p = on_net windowPop p"

text \<open>The dialog's result is rejected too when its window could not be resolved, but not when the controller throws.\<close>

definition showPopup :: "lg_data \<Rightarrow> string \<Rightarrow> lg_page \<Rightarrow> lg_page" where
  "showPopup server i p =
     (case getData server p of
        (Inl e, p) \<Rightarrow> popupClosed p
      | (Inr data, p) \<Rightarrow>
          (case lg_getWindow data i of
             Inl e \<Rightarrow> popupClosed p
           | Inr None \<Rightarrow> p
           | Inr (Some w) \<Rightarrow> windowController data w True p))"

text \<open>Setting the current path again is no change of the route.\<close>

definition showWindow :: "lg_data \<Rightarrow> string \<Rightarrow> bool \<Rightarrow> lg_page \<Rightarrow> lg_page" where
  "showWindow server i popup p =
     (if popup then showPopup server i p
      else if lp_location p = ''/'' @ i then p
      else navigate server i p)"

fun execute :: "lg_data \<Rightarrow> lg_execute \<Rightarrow> lg_page \<Rightarrow> lg_page" where
  "execute server (ShowWindow w popup) p = showWindow server w popup p"
| "execute server (SendAction w c isprimary) p = on_net (sendAction w c isprimary) p"
| "execute server DoNothing p = p"

definition componentMouseDown :: "int \<Rightarrow> lg_component \<Rightarrow> lg_page \<Rightarrow> lg_page" where
  "componentMouseDown now c p = p\<lparr>lp_mouseDown := Some (lc_id c, now)\<rparr>"

definition componentMouseUp :: "lg_data \<Rightarrow> int \<Rightarrow> lg_component \<Rightarrow> lg_page \<Rightarrow> lg_page" where
  "componentMouseUp server now c p =
     (case lp_mouseDown p of
        None \<Rightarrow> p
      | Some (i, down) \<Rightarrow>
          (let p = (if i = lc_id c
                    then (if now - down < 2000 then execute server (lc_primaryAction c) p else execute server (lc_secondaryAction c) p)
                    else p)
           in p\<lparr>lp_mouseDown := None\<rparr>))"

definition receive :: "string \<Rightarrow> lg_page \<Rightarrow> lg_page" where
  "receive msg p = (case onmessage msg of None \<Rightarrow> p | Some ev \<Rightarrow> p\<lparr>lp_models := map (net_event ev) (lp_models p)\<rparr>)"

text \<open>\<open>updatePosition\<close>: the sizes are those the browser reports; no component puts it in the middle.\<close>

definition updatePosition :: "rat \<Rightarrow> rat \<Rightarrow> rat \<Rightarrow> rat \<Rightarrow> lg_component option \<Rightarrow> rat \<times> rat" where
  "updatePosition componentWidth componentHeight containerWidth containerHeight c =
     (let (componentX, componentY) = (case c of None \<Rightarrow> (0, 0) | Some c \<Rightarrow> (lc_positionX c, lc_positionY c));
          baseX = (containerWidth - componentWidth) / 2;
          baseY = (containerHeight - componentHeight) / 2
      in (baseX + baseX * componentX, baseY + baseY * componentY))"

subsection \<open>The emulator page\<close>

text \<open>A pin element of the answer and what the page shows for a pin: two images and the click handler.\<close>

record pin =
  pin_id :: nat
  pin_type :: string
  pin_status :: string

datatype pin_click = EmptyClick | NullClick | SetInput nat string

record pin_view =
  pv_type :: string
  pv_status :: string
  pv_click :: pin_click

definition emulator_url :: string where
  "emulator_url = ''/mylife.home.hw.emulator/''"

definition header_pins :: "nat list" where
  "header_pins = [3, 5, 7, 8, 10, 11, 12, 13, 15, 16, 18, 19, 21, 22, 23, 24, 26]"

definition pin_entry :: "pin \<Rightarrow> pin_view" where
  "pin_entry p =
     \<lparr>pv_type = emulator_url @ ''resources/'' @ pin_type p @ (if pin_id p mod 2 = 0 then ''Right'' else ''Left'') @ ''.png'',
      pv_status = emulator_url @ ''resources/'' @ pin_status p @ ''.png'',
      pv_click = (if pin_status p = ''SwitchOn'' then SetInput (pin_id p) ''false''
                  else if pin_status p = ''SwitchOff'' then SetInput (pin_id p) ''true'' else NullClick)\<rparr>"

text \<open>
  \<open>updateResults\<close>: the table of the pins, then the elements of the document, given by the ids they exist for.
  The table is an array, so \<open>for in\<close> visits its indices in ascending order.
\<close>

definition pin_table :: "pin list \<Rightarrow> (nat \<times> pin_view) list" where
  "pin_table pins = foldl (\<lambda>d p. AList.update (pin_id p) (pin_entry p) d)
     (map (\<lambda>i. (i, \<lparr>pv_type = '''', pv_status = '''', pv_click = EmptyClick\<rparr>)) header_pins) pins"

fun show_pins :: "(nat \<times> pin_view) list \<Rightarrow> ((nat \<times> pin_view) list, unit) op" where
  "show_pins [] doc = (Inr (), doc)"
| "show_pins ((i, v) # rest) doc =
     (if i \<notin> set (map fst doc) then (Inl TypeErr, doc) else show_pins rest (AList.update i v doc))"

definition updateResults :: "pin list \<Rightarrow> ((nat \<times> pin_view) list, unit) op" where
  "updateResults pins = show_pins (sort_key fst (pin_table pins))"

text \<open>
  \<open>executeRequest\<close>: the request and its completion, where the callback is \<open>updateResults\<close>; \<open>changeInterval\<close> and the timer.
\<close>

record emulator =
  em_requests :: "string list"
  em_document :: "(nat \<times> pin_view) list"
  em_interval :: int
  em_timers :: "int list"       \<comment> \<open>the intervals of the running timers\<close>
  em_timer :: "int option"      \<comment> \<open>\<open>this.timer\<close>\<close>
  em_alerts :: "int list"

definition executeRequest :: "string \<Rightarrow> emulator \<Rightarrow> emulator" where
  "executeRequest url e = e\<lparr>em_requests := em_requests e @ [url]\<rparr>"

definition onreadystatechange :: "int \<Rightarrow> int \<Rightarrow> pin list \<Rightarrow> (emulator, unit) op" where
  "onreadystatechange readyState status pins e =
     (if readyState \<noteq> 4 then (Inr (), e)
      else if status = 200 then
        (case updateResults pins (em_document e) of (r, doc) \<Rightarrow> (r, e\<lparr>em_document := doc\<rparr>))
      else (Inr (), e\<lparr>em_alerts := em_alerts e @ [status]\<rparr>))"

definition changeInterval :: "int \<Rightarrow> emulator \<Rightarrow> emulator" where
  "changeInterval v e =
     (let timers = (case em_timer e of None \<Rightarrow> em_timers e | Some t \<Rightarrow> remove1 t (em_timers e))
      in e\<lparr>em_interval := v, em_timers := timers @ [v], em_timer := Some v\<rparr>)"

definition timer_tick :: "emulator \<Rightarrow> emulator" where
  "timer_tick e = executeRequest (emulator_url @ ''data'') e"

definition BGRefresh :: "emulator \<Rightarrow> emulator" where
  "BGRefresh e = executeRequest (emulator_url @ ''data'') (changeInterval 1000 e)"

definition setInput :: "nat \<Rightarrow> string \<Rightarrow> emulator \<Rightarrow> emulator" where
  "setInput i v e = executeRequest (emulator_url @ ''data?pinId='' @ show_nat i @ ''&value='' @ v) e"

end
