(* ===== verification/LegacyProps.thy ===== *)
theory LegacyProps
  imports LegacyWeb
begin

section \<open>Properties of the earlier web interface\<close>

text \<open>
  The windows announced to the server, the messages it sends, the placing of components, and the
  emulator page.
\<close>

subsection \<open>Announced windows\<close>

lemma window_message: "foldl (\<lambda>msg w. msg @ CHR '' '' # w) m ws = m @ concat (map (\<lambda>w. CHR '' '' # w) ws)"
  by (induction ws arbitrary: m) auto

text \<open>What the user does, and what is then on the screen: the main window and the popups over it.\<close>

datatype lg_nav = Nav string | Open string | Close

fun lg_nav_step :: "lg_data \<Rightarrow> lg_nav \<Rightarrow> lg_page \<Rightarrow> lg_page" where
  "lg_nav_step data (Nav w) p = navigate data w p"
| "lg_nav_step data (Open w) p = showPopup data w p"
| "lg_nav_step data Close p = popupClosed p"

fun screen_step :: "lg_nav \<Rightarrow> string list \<Rightarrow> string list" where
  "screen_step (Nav w) shown = w # tl shown"
| "screen_step (Open w) shown = shown @ [w]"
| "screen_step Close shown = butlast shown"

text \<open>A popup closes before the next navigation; every window exists.\<close>

fun nested :: "nat \<Rightarrow> lg_nav list \<Rightarrow> bool" where
  "nested popups [] = True"
| "nested popups (Nav w # evs) = (popups = 0 \<and> nested 0 evs)"
| "nested popups (Open w # evs) = nested (Suc popups) evs"
| "nested popups (Close # evs) = (popups > 0 \<and> nested (popups - 1) evs)"

fun window_exists :: "lg_data \<Rightarrow> lg_nav \<Rightarrow> bool" where
  "window_exists data (Nav w) = (case lg_getWindow data w of Inr (Some x) \<Rightarrow> True | _ \<Rightarrow> False)"
| "window_exists data (Open w) = (case lg_getWindow data w of Inr (Some x) \<Rightarrow> True | _ \<Rightarrow> False)"
| "window_exists data Close = True"

lemma lg_getWindow_id: "lg_getWindow data i = Inr (Some w) \<Longrightarrow> ws_id w = i"
  by (auto simp: lg_getWindow_def split: option.splits dest: arrayFind_Some)

lemma windowController_net:
  "lp_net (windowController data w popup p) = windowPush (ws_id w) (if popup then lp_net p else windowClear (lp_net p))"
  "lp_dataPromise (windowController data w popup p) = lp_dataPromise p"
  by (simp_all add: windowController_def Let_def on_net_def split: sum.split)

lemma resolve_window_net:
  assumes "lg_getWindow data i = Inr (Some w)" "lp_dataPromise p = Some data"
  shows "lp_net (showPopup server i p) = windowPush i (lp_net p)" "lp_dataPromise (showPopup server i p) = Some data"
    "lp_net (navigate server i p) = windowPush i (windowClear (lp_net p))" "lp_dataPromise (navigate server i p) = Some data"
  using assms lg_getWindow_id[OF assms(1)]
  by (simp_all add: showPopup_def navigate_def getData_def windowController_net)

text \<open>The windows of the connection, and that an open connection has announced them.\<close>

definition announced :: "lg_net \<Rightarrow> bool" where
  "announced n \<longleftrightarrow> ln_open n \<and> ln_sent n \<noteq> [] \<and> last (ln_sent n) = ''window'' @ concat (map (\<lambda>w. '' '' @ w) (ln_windows n))"

lemma window_ops:
  assumes "ln_open n"
  shows "ln_windows (windowPush w n) = ln_windows n @ [w] \<and> announced (windowPush w n)"
    "ln_windows (windowPop n) = butlast (ln_windows n) \<and> announced (windowPop n)"
    "ln_windows (windowClear n) = [] \<and> announced (windowClear n)"
  using assms
  by (simp_all add: windowPush_def windowPop_def windowClear_def sendWindows_def send_def window_message announced_def)

lemma lg_nav_step_net:
  assumes "window_exists data ev" "lp_dataPromise p = Some data" "ln_open (lp_net p)"
  shows "ln_windows (lp_net (lg_nav_step data ev p)) =
      (case ev of Nav w \<Rightarrow> [w] | Open w \<Rightarrow> ln_windows (lp_net p) @ [w] | Close \<Rightarrow> butlast (ln_windows (lp_net p)))"
    "announced (lp_net (lg_nav_step data ev p))" "lp_dataPromise (lg_nav_step data ev p) = Some data"
proof -
  note ops = window_ops[OF assms(3)]
  have c: "ln_open (windowClear (lp_net p))" using ops(3) by (simp add: announced_def)
  have "ln_windows (lp_net (lg_nav_step data ev p)) =
      (case ev of Nav w \<Rightarrow> [w] | Open w \<Rightarrow> ln_windows (lp_net p) @ [w] | Close \<Rightarrow> butlast (ln_windows (lp_net p))) \<and>
    announced (lp_net (lg_nav_step data ev p)) \<and> lp_dataPromise (lg_nav_step data ev p) = Some data"
  proof (cases ev)
    case (Nav w)
    then obtain x where x: "lg_getWindow data w = Inr (Some x)"
      using assms(1) by (auto split: sum.splits option.splits)
    show ?thesis
      using resolve_window_net[OF x assms(2), of data] ops(3) window_ops(1)[OF c, of w]
      by (simp add: Nav)
  next
    case (Open w)
    then obtain x where x: "lg_getWindow data w = Inr (Some x)"
      using assms(1) by (auto split: sum.splits option.splits)
    show ?thesis
      using resolve_window_net[OF x assms(2), of data] ops(1)[of w] by (simp add: Open)
  next
    case Close
    show ?thesis using ops(2) assms(2) by (simp add: Close popupClosed_def on_net_def)
  qed
  then show "ln_windows (lp_net (lg_nav_step data ev p)) =
      (case ev of Nav w \<Rightarrow> [w] | Open w \<Rightarrow> ln_windows (lp_net p) @ [w] | Close \<Rightarrow> butlast (ln_windows (lp_net p)))"
    "announced (lp_net (lg_nav_step data ev p))" "lp_dataPromise (lg_nav_step data ev p) = Some data"
    by simp_all
qed

text \<open>
  C40: While popups are closed before the next navigation, the list of windows of the connection is what is
  on the screen, the main window and the popups over it, and the last message sent announces it.
\<close>

theorem legacy_windows_refine_screen:
  assumes "nested (length (ln_windows (lp_net p)) - 1) evs" "list_all (window_exists data) evs"
    and "lp_dataPromise p = Some data" "announced (lp_net p)" "ln_windows (lp_net p) \<noteq> []"
  shows "ln_windows (lp_net (fold (lg_nav_step data) evs p)) = fold screen_step evs (ln_windows (lp_net p)) \<and>
    announced (lp_net (fold (lg_nav_step data) evs p))"
  using assms
proof (induction evs arbitrary: p)
  case (Cons ev evs)
  let ?p = "lg_nav_step data ev p"
  have o: "ln_open (lp_net p)" using Cons.prems(4) by (simp add: announced_def)
  have "window_exists data ev" using Cons.prems(2) by simp
  note st = lg_nav_step_net[OF this Cons.prems(3) o]
  have "ln_windows (lp_net ?p) = screen_step ev (ln_windows (lp_net p)) \<and> ln_windows (lp_net ?p) \<noteq> [] \<and>
    nested (length (ln_windows (lp_net ?p)) - 1) evs"
  proof (cases ev)
    case (Nav w)
    then have "length (ln_windows (lp_net p)) = 1" using Cons.prems(1,5) by (cases "ln_windows (lp_net p)") auto
    then show ?thesis using Nav Cons.prems(1) st(1) by (cases "ln_windows (lp_net p)") auto
  next
    case (Open w)
    then show ?thesis using Cons.prems(1,5) st(1) by (cases "ln_windows (lp_net p)") auto
  next
    case Close
    then show ?thesis using Cons.prems(1,5) st(1) by (cases "ln_windows (lp_net p)" rule: rev_cases) auto
  qed
  then have eq: "ln_windows (lp_net ?p) = screen_step ev (ln_windows (lp_net p))" and ne: "ln_windows (lp_net ?p) \<noteq> []"
    and n: "nested (length (ln_windows (lp_net ?p)) - 1) evs" by blast+
  have "list_all (window_exists data) evs" using Cons.prems(2) by simp
  from Cons.IH[OF n this st(3,2) ne] show ?case by (simp add: eq)
qed simp

text \<open>A structure with two windows, and the page on which the first is shown.\<close>

definition sample_window :: "string \<Rightarrow> lg_window_source" where
  "sample_window i = \<lparr>ws_id = i, ws_displayName = i, ws_backgroundId = None, ws_components = None\<rparr>"

definition sample_structure :: lg_data where
  "sample_structure = Some \<lparr>st_windows = Some [sample_window ''home'', sample_window ''music''], st_images = None, st_defaultWindowId = Some ''home''\<rparr>"

definition sample_lg_page :: lg_page where
  "sample_lg_page = navigate sample_structure ''home''
     \<lparr>lp_net = onopen \<lparr>ln_open = False, ln_windows = [], ln_sent = []\<rparr>, lp_dataPromise = None, lp_models = [],
      lp_mouseDown = None, lp_location = ''/''\<rparr>"

theorem legacy_windows_refine_screen_witness:
  "ln_windows (lp_net (fold (lg_nav_step sample_structure) [Open ''music'', Close, Nav ''music''] sample_lg_page)) = [''music''] \<and>
    announced (lp_net (fold (lg_nav_step sample_structure) [Open ''music'', Close, Nav ''music''] sample_lg_page))"
proof -
  have "nested (length (ln_windows (lp_net sample_lg_page)) - 1) [Open ''music'', Close, Nav ''music'']"
    "list_all (window_exists sample_structure) [Open ''music'', Close, Nav ''music'']"
    "lp_dataPromise sample_lg_page = Some sample_structure" "announced (lp_net sample_lg_page)" "ln_windows (lp_net sample_lg_page) \<noteq> []"
    by code_simp+
  moreover have "ln_windows (lp_net sample_lg_page) = [''home'']" by code_simp
  ultimately show ?thesis using legacy_windows_refine_screen[of sample_lg_page "[Open ''music'', Close, Nav ''music'']" sample_structure]
    by simp
qed

text \<open>Without that discipline the wrong window is popped: the popup is gone and the main window no longer announced.\<close>

lemma navigation_under_popup_loses_window:
  assumes "window_exists data (Nav w)" "lp_dataPromise p = Some data" "ln_open (lp_net p)"
  shows "ln_windows (lp_net (lg_nav_step data Close (lg_nav_step data (Nav w) p))) = []"
proof -
  note st = lg_nav_step_net[OF assms]
  show ?thesis
    using lg_nav_step_net(1)[of data Close "lg_nav_step data (Nav w) p"] st by (simp add: announced_def)
qed

subsection \<open>Messages\<close>

text \<open>An icon message of the server changes the first component with the id in the models of the window.\<close>

lemma icon_message:
  assumes "CHR '' '' \<notin> set w" "CHR '' '' \<notin> set c" "CHR '' '' \<notin> set i" "i \<noteq> ''null''"
  shows "receive (''icon '' @ w @ '' '' @ c @ '' '' @ i) p =
    p\<lparr>lp_models := map (update_component w c (set_icon (Some i))) (lp_models p)\<rparr>"
proof -
  have "split_on (CHR '' '') (join_on (CHR '' '') [''icon'', w, c, i]) = [''icon'', w, c, i]"
    by (rule split_join_on) (use assms in auto)
  then have "onmessage (''icon '' @ w @ '' '' @ c @ '' '' @ i) = Some (ReceiveIcon w c (Some i))"
    using assms(4) by (simp add: onmessage_def receiveIcon_def)
  then show ?thesis by (simp add: receive_def fun_eq_iff cong: map_cong)
qed

text \<open>A component without an icon rejects the model of its whole window.\<close>

lemma missing_icon_blocks_window:
  assumes "c \<in> set cs" "cs_icon c = None"
  shows "\<exists>e. components_builder w m cs = Inl e"
  using assms by (induction cs) (auto simp: componentBuilder_def split: sum.split)

text \<open>
  A failed load of the structure is kept: no later navigation finds its window, whatever the server would
  answer, and opening a popup takes the main window from the announced windows.
\<close>

lemma failed_load_sticks:
  assumes "lp_dataPromise p = Some None"
  shows "navigate server i p = p\<lparr>lp_location := ''/'' @ i\<rparr>" "showPopup server i p = on_net windowPop p"
  using assms by (simp_all add: navigate_def showPopup_def popupClosed_def getData_def lg_getWindow_def)

text \<open>A press shorter than two seconds is the primary action, a longer one the secondary.\<close>

lemma press_duration:
  "componentMouseUp server t (c :: lg_component) (componentMouseDown t0 c p) =
     (execute server (if t - t0 < 2000 then lc_primaryAction c else lc_secondaryAction c) (componentMouseDown t0 c p))\<lparr>lp_mouseDown := None\<rparr>"
  by (simp add: componentMouseUp_def componentMouseDown_def Let_def)

subsection \<open>Placing\<close>

text \<open>
  A component that fits and whose position is between -1 and 1 on both axes is placed inside its
  container; the ends of the range touch the borders and 0 is the middle.
\<close>

theorem component_inside_container:
  assumes "cw \<le> W" "ch \<le> H" "\<bar>lc_positionX c\<bar> \<le> 1" "\<bar>lc_positionY c\<bar> \<le> 1"
  shows "0 \<le> fst (updatePosition cw ch W H (Some c)) \<and> fst (updatePosition cw ch W H (Some c)) + cw \<le> W \<and>
    0 \<le> snd (updatePosition cw ch W H (Some c)) \<and> snd (updatePosition cw ch W H (Some c)) + ch \<le> H"
proof -
  have inside: "0 \<le> b + b * x \<and> b + b * x + w \<le> W" if "2 * b = W - w" "w \<le> W" "\<bar>x\<bar> \<le> 1" for b x w W :: rat
  proof -
    have "b * x \<le> b * 1" "b * (-1) \<le> b * x"
      using that by (intro mult_left_mono; simp)+
    then show ?thesis using that(1) by simp
  qed
  have "fst (updatePosition cw ch W H (Some c)) = (W - cw) / 2 + (W - cw) / 2 * lc_positionX c"
    "snd (updatePosition cw ch W H (Some c)) = (H - ch) / 2 + (H - ch) / 2 * lc_positionY c"
    by (simp_all add: updatePosition_def Let_def)
  then show ?thesis
    using inside[of "(W - cw) / 2" W cw "lc_positionX c"] inside[of "(H - ch) / 2" H ch "lc_positionY c"] assms by simp
qed

definition sample_lg_component :: lg_component where
  "sample_lg_component = \<lparr>lc_id = ''lamp'', lc_displayName = ''Lamp'', lc_positionX = 1, lc_positionY = - (1 / 2), lc_staticIcon = None,
     lc_defaultIcon = None, lc_iconMap = [], lc_image = None, lc_primaryAction = DoNothing, lc_secondaryAction = DoNothing\<rparr>"

theorem component_inside_container_witness:
  "fst (updatePosition 20 10 100 50 (Some sample_lg_component)) + 20 \<le> 100 \<and> 0 \<le> snd (updatePosition 20 10 100 50 (Some sample_lg_component))"
  using component_inside_container[of 20 100 10 50 sample_lg_component] by (simp add: sample_lg_component_def)

subsection \<open>The emulator page\<close>

lemma show_pins_doc:
  assumes "set (map fst table) \<subseteq> set (map fst doc)" "distinct (map fst table)"
  shows "\<exists>doc'. show_pins table doc = (Inr (), doc') \<and> map_of doc' = map_of doc ++ map_of table"
  using assms
proof (induction table arbitrary: doc)
  case (Cons x table)
  obtain i v where x: "x = (i, v)" by (cases x)
  let ?doc = "AList.update i v doc"
  have "set (map fst table) \<subseteq> set (map fst ?doc)" using Cons.prems(1) by (auto simp: update_keys)
  moreover have "distinct (map fst table)" using Cons.prems(2) by simp
  ultimately obtain doc' where d: "show_pins table ?doc = (Inr (), doc')" "map_of doc' = map_of ?doc ++ map_of table"
    using Cons.IH by blast
  have "map_of table i = None" using Cons.prems(2) x by (simp add: map_of_eq_None_iff)
  then have "map_of ?doc ++ map_of table = map_of doc ++ (map_of table)(i \<mapsto> v)"
    by (auto simp: map_add_def fun_eq_iff update_conv split: option.splits)
  then have m: "map_of doc' = map_of doc ++ map_of (x # table)" using d(2) x by (simp add: map_add_def fun_eq_iff)
  have "show_pins (x # table) doc = (Inr (), doc')" using Cons.prems(1) x d(1) by simp
  with m show ?case by blast
qed simp

text \<open>When the page has an element for every pin, an answer is shown as the table says, pin by pin.\<close>

lemma distinct_pin_table: "distinct (map fst (pin_table pins))"
proof -
  have "distinct (map fst (foldl (\<lambda>d p. AList.update (pin_id p) (pin_entry p) d) d pins))" if "distinct (map fst d)" for d
    using that by (induction pins arbitrary: d) (simp_all add: distinct_update)
  moreover have "distinct header_pins" by (simp add: header_pins_def)
  ultimately show ?thesis by (simp add: pin_table_def comp_def)
qed

lemma page_shows_answer:
  assumes "fst ` set (pin_table pins) \<subseteq> fst ` set doc"
  shows "\<exists>doc'. updateResults pins doc = (Inr (), doc') \<and> map_of doc' = map_of doc ++ map_of (pin_table pins)"
proof -
  have d: "distinct (map fst (sort_key fst (pin_table pins)))"
    using distinct_pin_table[of pins] by (simp add: distinct_map)
  have "map_of (sort_key fst (pin_table pins)) = map_of (pin_table pins)"
    using d distinct_pin_table[of pins] by (intro map_of_inject_set[THEN iffD2]) simp_all
  then show ?thesis using show_pins_doc[OF _ d, of doc] assms by (simp add: updateResults_def)
qed

lemma clicked_input_toggles:
  "pin_status q = ''SwitchOn'' \<Longrightarrow> pv_click (pin_entry q) = SetInput (pin_id q) ''false''"
  "pin_status q = ''SwitchOff'' \<Longrightarrow> pv_click (pin_entry q) = SetInput (pin_id q) ''true''"
  by (simp_all add: pin_entry_def)

end
