(* ===== verification/RestSpec.thy ===== *)
theory RestSpec
  imports CoreProps
begin

section \<open>The REST interface as a specification\<close>

text \<open>
  What the configuring requests mean, over the abstract state that the data file records: three tables of
  configurations. \<open>spec_ok\<close> says which requests are accepted and \<open>spec_step\<close> what they do; a process that is
  \<open>serving\<close> implements them.
\<close>

definition view :: "core \<Rightarrow> persisted" where
  "view c = \<lparr>ps_hardware = dmap hi_config (hardware c), ps_plugins = dmap pk_config (pluginContainers c),
     ps_links = dmap li_config (links c)\<rparr>"

definition component_keys :: "persisted \<Rightarrow> string set" where
  "component_keys d = set (jkeys (ps_plugins d)) \<union> set (jkeys (ps_hardware d))"

definition unused :: "string \<Rightarrow> persisted \<Rightarrow> bool" where
  "unused i d \<longleftrightarrow> (\<forall>(k, cfg) \<in> set (ps_links d). \<not> uses_component i cfg)"

fun spec_ok :: "plugin_type dict \<Rightarrow> request \<Rightarrow> persisted \<Rightarrow> bool" where
  "spec_ok types (PostPlugin cfg) d \<longleftrightarrow> jget types (pc_type cfg) \<noteq> None \<and> pc_id cfg \<notin> set (jkeys (ps_plugins d))"
| "spec_ok types (DeletePlugin i) d \<longleftrightarrow> i \<in> set (jkeys (ps_plugins d)) \<and> unused i d"
| "spec_ok types (PostHardware cfg) d \<longleftrightarrow> hc_class cfg \<noteq> None \<and> hc_id cfg \<notin> set (jkeys (ps_hardware d))"
| "spec_ok types (DeleteHardware i) d \<longleftrightarrow> i \<in> set (jkeys (ps_hardware d)) \<and> unused i d"
| "spec_ok types (PostLink cfg) d \<longleftrightarrow> makeId cfg \<notin> set (jkeys (ps_links d)) \<and>
     {sourceComponent cfg, destinationComponent cfg} \<subseteq> component_keys d"
| "spec_ok types (DeleteLink i) d \<longleftrightarrow> i \<in> set (jkeys (ps_links d))"
| "spec_ok types q d \<longleftrightarrow> True"

fun spec_step :: "request \<Rightarrow> persisted \<Rightarrow> persisted" where
  "spec_step (PostPlugin cfg) d = d\<lparr>ps_plugins := jset (pc_id cfg) cfg (ps_plugins d)\<rparr>"
| "spec_step (DeletePlugin i) d = d\<lparr>ps_plugins := jdel i (ps_plugins d)\<rparr>"
| "spec_step (PostHardware cfg) d = d\<lparr>ps_hardware := jset (hc_id cfg) cfg (ps_hardware d)\<rparr>"
| "spec_step (DeleteHardware i) d = d\<lparr>ps_hardware := jdel i (ps_hardware d)\<rparr>"
| "spec_step (PostLink cfg) d = d\<lparr>ps_links := jset (makeId cfg) cfg (ps_links d)\<rparr>"
| "spec_step (DeleteLink i) d = d\<lparr>ps_links := jdel i (ps_links d)\<rparr>"
| "spec_step q d = d"

text \<open>
  The requests that the specification covers: those that configure and those that list the
  configuration. The core accepts a plugin with the id of a hardware component, and the reverse;
  \<open>no_clash\<close> excludes it.
\<close>

fun configuring :: "request \<Rightarrow> bool" where
  "configuring RefreshPluginTypes = False"
| "configuring (PostPluginType name) = False"
| "configuring GetUi = False"
| "configuring q = True"

fun no_clash :: "request \<Rightarrow> persisted \<Rightarrow> bool" where
  "no_clash (PostPlugin cfg) d \<longleftrightarrow> pc_id cfg \<notin> set (jkeys (ps_hardware d))"
| "no_clash (PostHardware cfg) d \<longleftrightarrow> hc_id cfg \<notin> set (jkeys (ps_plugins d))"
| "no_clash q d \<longleftrightarrow> True"

fun is_error :: "response \<Rightarrow> bool" where
  "is_error (RError e) = True"
| "is_error r = False"

definition serving :: "(string \<Rightarrow> js_error + plugin_kind) \<Rightarrow> (string \<Rightarrow> string) \<Rightarrow> plugin_type dict \<Rightarrow> core \<Rightarrow> bool" where
  "serving require icon types c \<longleftrightarrow> core_inv c \<and> (\<exists>d. starting require icon types d c) \<and>
     set (jkeys (pluginContainers c)) \<inter> set (jkeys (hardware c)) = {}"

lemma view_keys:
  "set (jkeys (ps_plugins (view c))) = set (jkeys (pluginContainers c))"
  "set (jkeys (ps_hardware (view c))) = set (jkeys (hardware c))"
  "set (jkeys (ps_links (view c))) = set (jkeys (links c))"
  "component_keys (view c) = component_ids c"
  by (simp_all only: view_def component_keys_def component_ids_def jkeys_dmap persisted.simps)

lemmas view_keys_image [simp] = view_keys[unfolded set_map]

lemma unused_view: "unused i (view c) \<longleftrightarrow> unlinked c i"
  by (auto simp: unused_def unlinked_def view_def dmap_def)

lemma servingI:
  assumes "core_inv c" "watcher_loaded (net c)" "containers_ok c" "component_ids c \<subseteq> set (jkeys (repository (net c)))"
    and "types_available require icon types c" "types_sound types"
    and "set (jkeys (pluginContainers c)) \<inter> set (jkeys (hardware c)) = {}"
  shows "serving require icon types c"
  using assms by (auto simp: serving_def starting_def core_inv_def data_synced_def)

lemma servingD:
  assumes "serving require icon types c"
  shows "core_inv c" "watcher_loaded (net c)" "containers_ok c" "component_ids c \<subseteq> set (jkeys (repository (net c)))"
    "types_available require icon types c" "types_sound types"
    "set (jkeys (pluginContainers c)) \<inter> set (jkeys (hardware c)) = {}"
  using assms by (auto simp: serving_def starting_def)

lemma serving_cong:
  assumes "serving require icon types c" "core_inv c'" "net c' = net c" "pluginContainers c' = pluginContainers c"
    "hardware c' = hardware c" "types_available require icon types c'"
  shows "serving require icon types c'"
  using servingD[OF assms(1)] assms(2-)
  by (intro servingI) (simp_all add: containers_ok_def component_ids_def)

subsection \<open>Accepted requests\<close>

text \<open>
  A creation that succeeds in the registry and is then stored: the state after \<open>updateData\<close> differs from the
  one before in the data only.
\<close>

lemma updateData_same:
  assumes "updateData g c = (Inr (), c')" "data_cache c = Some p"
  shows "c' = c\<lparr>data_cache := Some (g p), data_file := Some (g p)\<rparr>"
  using assms updateData_loaded[OF assms(2), of g] by simp

lemma stored_serving:
  assumes st: "starting require icon types d s" and u: "updateData g s = (Inr (), c')" and inv: "core_inv c'"
    and dis: "set (jkeys (pluginContainers s)) \<inter> set (jkeys (hardware s)) = {}"
  shows "serving require icon types c' \<and> net c' = net s \<and> pluginContainers c' = pluginContainers s \<and>
    hardware c' = hardware s \<and> links c' = links s"
proof -
  have c': "c' = s\<lparr>data_cache := Some (g d), data_file := Some (g d)\<rparr>"
    using u st by (intro updateData_same) (simp_all add: starting_def)
  have "serving require icon types c'"
    using st inv dis by (intro servingI) (simp_all add: c' starting_def containers_ok_def component_ids_def types_available_def)
  then show ?thesis by (simp add: c')
qed

lemma dkeys: "jkeys (dmap f d) = jkeys d"
  by (rule jkeys_dmap)

lemma keys_of_dmap:
  assumes "dmap f d' = dmap f d @ [(k, x)]"
  shows "set (jkeys d') = insert k (set (jkeys d))"
proof -
  have "jkeys d' = jkeys d @ [k]" using arg_cong[OF assms, of jkeys] by (simp only: map_append dkeys) simp
  then show ?thesis by simp
qed

lemma addPlugin_accepted:
  assumes sv: "serving require icon types c" and ok: "spec_ok types (PostPlugin cfg) (view c)" "no_clash (PostPlugin cfg) (view c)"
  shows "\<exists>c'. addPlugin depth require icon cfg c = (Inr (pc_id cfg), c') \<and> serving require icon types c' \<and>
    view c' = spec_step (PostPlugin cfg) (view c)"
proof -
  obtain d where st: "starting require icon types d c" using sv by (auto simp: serving_def)
  have new: "pc_id cfg \<notin> set (jkeys (pluginContainers c))" "pc_id cfg \<notin> set (jkeys (hardware c))" using ok by simp_all
  obtain x s where x: "create_plugin depth require icon cfg c = (Inr x, s)" "starting require icon types d s"
      "dmap pk_config (pluginContainers s) = dmap pk_config (pluginContainers c) @ [(pc_id cfg, cfg)]"
      "hardware s = hardware c" "links s = links c"
    using create_plugin_loads[OF st _ new(1), where depth = depth] ok(1) by auto
  obtain c' where u: "data_addPlugin (pc_id cfg) cfg s = (Inr (), c')"
    unfolding data_addPlugin_def using updateData_loaded[of s d] x(2) by (auto simp: starting_def)
  have add: "addPlugin depth require icon cfg c = (Inr (pc_id cfg), c')"
    using x(1) u preg.create_ok[OF x(1)] by (simp add: addPlugin_def op_defs)
  have "set (jkeys (pluginContainers s)) \<inter> set (jkeys (hardware s)) = {}"
    using keys_of_dmap[OF x(3)] servingD(7)[OF sv] new(2) x(4) by simp
  from stored_serving[OF x(2) u[unfolded data_addPlugin_def] core_inv_addPlugin[OF servingD(1)[OF sv] add] this]
  have "serving require icon types c'" "view c' = view s" by (simp_all add: view_def)
  moreover have "view s = spec_step (PostPlugin cfg) (view c)"
    using x(3-5) new(1) by (simp add: view_def jset_new[of _ "dmap pk_config (pluginContainers c)"] dkeys)
  ultimately show ?thesis using add by simp
qed

lemma addHardware_accepted:
  assumes sv: "serving require icon types c" and ok: "spec_ok types (PostHardware cfg) (view c)" "no_clash (PostHardware cfg) (view c)"
  shows "\<exists>c'. addHardware cfg c = (Inr (hc_id cfg), c') \<and> serving require icon types c' \<and>
    view c' = spec_step (PostHardware cfg) (view c)"
proof -
  obtain d where st: "starting require icon types d c" using sv by (auto simp: serving_def)
  have new: "hc_id cfg \<notin> set (jkeys (pluginContainers c))" "hc_id cfg \<notin> set (jkeys (hardware c))" using ok by simp_all
  obtain x s where x: "create_hardware cfg c = (Inr x, s)" "starting require icon types d s"
      "dmap hi_config (hardware s) = dmap hi_config (hardware c) @ [(hc_id cfg, cfg)]"
      "pluginContainers s = pluginContainers c" "links s = links c"
    using create_hardware_loads[OF st _ new(2)] ok(1) by auto
  obtain c' where u: "data_addHardware (hc_id cfg) cfg s = (Inr (), c')"
    unfolding data_addHardware_def using updateData_loaded[of s d] x(2) by (auto simp: starting_def)
  have add: "addHardware cfg c = (Inr (hc_id cfg), c')"
    using x(1) u hreg.create_ok[OF x(1)] by (simp add: addHardware_def op_defs)
  have "set (jkeys (pluginContainers s)) \<inter> set (jkeys (hardware s)) = {}"
    using keys_of_dmap[OF x(3)] servingD(7)[OF sv] new(1) x(4) by simp
  from stored_serving[OF x(2) u[unfolded data_addHardware_def] core_inv_addHardware[OF servingD(1)[OF sv] add] this]
  have "serving require icon types c'" "view c' = view s" by (simp_all add: view_def)
  moreover have "view s = spec_step (PostHardware cfg) (view c)"
    using x(3-5) new(2) by (simp add: view_def jset_new[of _ "dmap hi_config (hardware c)"] dkeys)
  ultimately show ?thesis using add by simp
qed

lemma addLink_accepted:
  assumes sv: "serving require icon types c" and ok: "spec_ok types (PostLink cfg) (view c)"
  shows "\<exists>c'. addLink cfg c = (Inr (makeId cfg), c') \<and> serving require icon types c' \<and>
    view c' = spec_step (PostLink cfg) (view c)"
proof -
  obtain d where st: "starting require icon types d c" using sv by (auto simp: serving_def)
  have new: "makeId cfg \<notin> set (jkeys (links c))" "{sourceComponent cfg, destinationComponent cfg} \<subseteq> component_ids c"
    using ok by simp_all
  obtain x s where x: "create_link cfg c = (Inr x, s)" "starting require icon types d s"
      "dmap li_config (links s) = dmap li_config (links c) @ [(makeId cfg, cfg)]"
      "pluginContainers s = pluginContainers c" "hardware s = hardware c"
    using create_link_loads[OF st new(2,1)] by auto
  obtain c' where u: "data_addLink (makeId cfg) cfg s = (Inr (), c')"
    unfolding data_addLink_def using updateData_loaded[of s d] x(2) by (auto simp: starting_def)
  have add: "addLink cfg c = (Inr (makeId cfg), c')"
    using x(1) u lreg.create_ok[OF x(1)] by (simp add: addLink_def op_defs)
  have "set (jkeys (pluginContainers s)) \<inter> set (jkeys (hardware s)) = {}"
    using servingD(7)[OF sv] x(4,5) by simp
  from stored_serving[OF x(2) u[unfolded data_addLink_def] core_inv_addLink[OF servingD(1)[OF sv] add] this]
  have "serving require icon types c'" "view c' = view s" by (simp_all add: view_def)
  moreover have "view s = spec_step (PostLink cfg) (view c)"
    using x(3-5) new(1) by (simp add: view_def jset_new[of _ "dmap li_config (links c)"] dkeys)
  ultimately show ?thesis using add by simp
qed

text \<open>Unpublishing succeeds for a local publication and for a remote one whose watcher was created.\<close>

definition kept :: "world \<Rightarrow> world \<Rightarrow> bool" where
  "kept w w' \<longleftrightarrow> watchers_kept w w' \<and> watcher w' = watcher w \<and> heap w' = heap w"

lemma kept_trans: "kept w w1 \<Longrightarrow> kept w1 w2 \<Longrightarrow> kept w w2"
  by (simp add: kept_def watchers_kept_def)

lemma removeChannel_ok:
  assumes "watchers w wid \<noteq> None"
  obtains w' where "removeChannel wid ch w = (Inr (), w')" "kept w w'"
proof -
  have "\<exists>w'. removeChannel wid ch w = (Inr (), w') \<and> kept w w'"
    using assms
    by (auto simp: removeChannel_def kept_def watchers_kept_def with_watcher_def put_watcher_def op_defs log_irc_def
        split: option.split nat.split)
  with that show thesis by blast
qed

lemma removeChannels_ok:
  assumes "watchers w wid \<noteq> None"
  shows "\<exists>w'. forE chs (removeChannel wid) w = (Inr (), w') \<and> kept w w'"
  using assms
proof (induction chs arbitrary: w)
  case (Cons ch chs)
  obtain w1 where w1: "removeChannel wid ch w = (Inr (), w1)" "kept w w1" using removeChannel_ok[OF Cons.prems] .
  then have "watchers w1 wid \<noteq> None" using Cons.prems by (simp add: kept_def watchers_kept_def)
  with Cons.IH obtain w2 where "forE chs (removeChannel wid) w1 = (Inr (), w2)" "kept w1 w2" by blast
  with w1 kept_trans[OF w1(2)] show ?case by (simp add: op_defs)
qed (simp add: op_defs kept_def watchers_kept_def)

lemma unpublish_ok:
  assumes h: "has_id w (ct_object ct) i" and link: "ct_local ct \<or> watchers w (ct_link ct) \<noteq> None" and wl: "watcher_loaded w"
  shows "\<exists>w'. unpublish ct w = (Inr (), w') \<and> watchers_kept w w' \<and> watcher_loaded w'"
proof (cases "ct_local ct")
  case True
  then show ?thesis
    using h wl by (auto simp: unpublish_def with_object_def has_id_def destroyLocal_def remove_listener_def watchers_kept_def
        watcher_loaded_def map_listeners_def log_irc_def op_defs)
next
  case False
  let ?wid = "ct_link ct"
  obtain ob where ob: "heap w (ct_object ct) = Some ob" using h by (auto simp: has_id_def)
  define w1 where "w1 = w\<lparr>repository := jdel (obj_id ob) (repository w)\<rparr>"
  define w2 where "w2 = snd (remove_listener (ct_object ct) EvAction (RemoteListener ?wid (ct_channels ct)) w1)"
  have w2: "watchers w2 = watchers w" "watcher w2 = watcher w" by (simp_all add: w2_def w1_def remove_listener_def)
  obtain ob2 where ob2: "heap w2 (ct_object ct) = Some ob2"
    using ob by (simp add: w2_def w1_def remove_listener_def map_listeners_def modifyE_def)
  obtain wt where wt: "watchers w ?wid = Some wt" using link False by blast
  define w3 where "w3 = w2\<lparr>watchers := (watchers w2)(?wid \<mapsto> wt\<lparr>wt_objects := jdel (obj_id ob2) (wt_objects wt)\<rparr>)\<rparr>"
  have r3: "removeObject ?wid (ct_object ct) w2 = (Inr (), w3)"
    using wt w2 ob2 by (simp add: removeObject_def with_watcher_def with_object_def put_watcher_def modifyE_def w3_def)
  have "watchers w3 ?wid \<noteq> None" by (simp add: w3_def)
  then obtain w4 where w4: "forE (ct_channels ct) (removeChannel ?wid) w3 = (Inr (), w4)" "kept w3 w4"
    using removeChannels_ok by blast
  then have k4: "watchers_kept w w4" "watcher w4 = watcher w" "watchers w4 ?wid \<noteq> None"
    using w2 by (auto simp: kept_def watchers_kept_def w3_def)
  then obtain wt4 where "watchers w4 ?wid = Some wt4" by blast
  then have "\<exists>w5. checkClean ?wid w4 = (Inr (), w5) \<and> watchers w5 = watchers w4 \<and> (watcher w5 = watcher w4 \<or> watcher w5 = None)"
    by (cases "wt_objects wt4 = []") (simp_all add: checkClean_def with_watcher_def op_defs log_irc_def)
  then obtain w5 where w5: "checkClean ?wid w4 = (Inr (), w5)" "watchers w5 = watchers w4"
      "watcher w5 = watcher w4 \<or> watcher w5 = None" by blast
  have "remove_listener (ct_object ct) EvAction (RemoteListener ?wid (ct_channels ct)) w1 = (Inr (), w2)"
    unfolding w2_def by (rule remove_listener_result)
  then have "unpublish ct w = (Inr (), w5)"
    using False ob r3 w4(1) w5(1)
    by (simp add: unpublish_def destroyRemote_def with_object_def seqE_def bindE_def modifyE_def w1_def[symmetric])
  moreover have "watchers_kept w w5" "watcher_loaded w5"
    using k4 w5 wl by (auto simp: watchers_kept_def watcher_loaded_def)
  ultimately show ?thesis by blast
qed

lemma containers_ok_shrink:
  assumes "containers_ok c" "watchers_kept (net c) (net c')"
    and "set (pluginContainers c') \<subseteq> set (pluginContainers c)" "set (hardware c') \<subseteq> set (hardware c)"
  shows "containers_ok c'"
  using assms unfolding containers_ok_def watchers_kept_def by fast

lemma removed_serving:
  assumes sv: "serving require icon types c" and w: "unpublish ct (net c) = (Inr (), net c')" "watchers_kept (net c) (net c')"
      "watcher_loaded (net c')" and h: "has_id (net c) (ct_object ct) i" and inv: "core_inv c'"
    and sub: "set (pluginContainers c') \<subseteq> set (pluginContainers c)" "set (hardware c') \<subseteq> set (hardware c)"
    and ids: "component_ids c' = component_ids c - {i}"
    and ty: "pluginTypes c' = pluginTypes c" "plugin_dir c' = plugin_dir c"
  shows "serving require icon types c'"
proof (rule servingI)
  note sd = servingD[OF sv]
  show "containers_ok c'" using sd(3) w(2) sub by (rule containers_ok_shrink)
  have "set (jkeys (repository (net c'))) = set (jkeys (repository (net c))) - {i}"
    unfolding unpublish_repository[OF w(1) h] by (rule jd.keys_ddel)
  then show "component_ids c' \<subseteq> set (jkeys (repository (net c')))" using sd(4) ids by blast
  show "set (jkeys (pluginContainers c')) \<inter> set (jkeys (hardware c')) = {}" using sd(7) sub by (auto 0 3)
  show "types_available require icon types c'" using sd(5) ty by (simp add: types_available_def)
qed (use servingD[OF sv] w inv in simp_all)

lemma removePlugin_accepted:
  assumes sv: "serving require icon types c" and ok: "spec_ok types (DeletePlugin i) (view c)"
  shows "\<exists>c'. removePlugin i c = (Inr (), c') \<and> serving require icon types c' \<and> view c' = spec_step (DeletePlugin i) (view c)"
proof -
  note sd = servingD[OF sv]
  have un: "checkLink i c = (Inr (), c)" using ok by (simp add: checkLink_iff unused_view)
  obtain k where k: "jget (pluginContainers c) i = Some k"
  proof -
    have "i \<in> set (jkeys (pluginContainers c))" using ok by simp
    then show thesis using that unfolding jd.dkeys_dget by blast
  qed
  have kk: "(i, k) \<in> set (pluginContainers c)" using k by (rule map_of_SomeD)
  have h: "has_id (net c) (ct_object (pk_net k)) i" and l: "ct_local (pk_net k)"
    using sd(1,3) kk by (auto simp: core_inv_def running_inv_def objects_owned_def containers_ok_def)
  obtain w where w: "unpublish (pk_net k) (net c) = (Inr (), w)" "watchers_kept (net c) w" "watcher_loaded w"
    using unpublish_ok[OF h _ sd(2)] l by blast
  define s where "s = c\<lparr>net := w, pluginContainers := jdel i (pluginContainers c)\<rparr>"
  obtain p where p: "data_cache c = Some p" using sd(1) by (auto simp: core_inv_def data_synced_def)
  define c' where "c' = s\<lparr>data_cache := Some (p\<lparr>ps_plugins := jdel i (ps_plugins p)\<rparr>),
    data_file := Some (p\<lparr>ps_plugins := jdel i (ps_plugins p)\<rparr>)\<rparr>"
  have rm: "removePlugin i c = (Inr (), c')"
    using un k w(1) p by (simp add: removePlugin_def destroy_plugin_def lift_net_def op_defs data_removePlugin_def
        updateData_loaded s_def c'_def)
  have sel: "pluginContainers c' = jdel i (pluginContainers c)" "hardware c' = hardware c" "links c' = links c"
    "net c' = w" "pluginTypes c' = pluginTypes c" "plugin_dir c' = plugin_dir c"
    by (simp_all add: c'_def s_def)
  have "i \<notin> set (jkeys (hardware c))" using sd(7) jget_key[OF k] by blast
  then have "component_ids c' = component_ids c - {i}" unfolding component_ids_def sel jd.keys_ddel by blast
  with w have "serving require icon types c'"
    by (intro removed_serving[OF sv _ _ _ h core_inv_removePlugin[OF sd(1) rm]]) (simp_all only: sel set_jdel_subset order_refl)
  then show ?thesis using rm by (simp add: view_def sel)
qed

lemma removeHardware_accepted:
  assumes sv: "serving require icon types c" and ok: "spec_ok types (DeleteHardware i) (view c)"
  shows "\<exists>c'. removeHardware i c = (Inr (), c') \<and> serving require icon types c' \<and> view c' = spec_step (DeleteHardware i) (view c)"
proof -
  note sd = servingD[OF sv]
  have un: "checkLink i c = (Inr (), c)" using ok by (simp add: checkLink_iff unused_view)
  obtain k where k: "jget (hardware c) i = Some k"
  proof -
    have "i \<in> set (jkeys (hardware c))" using ok by simp
    then show thesis using that unfolding jd.dkeys_dget by blast
  qed
  have kk: "(i, k) \<in> set (hardware c)" using k by (rule map_of_SomeD)
  have h: "has_id (net c) (ct_object (hi_container k)) i" and l: "watchers (net c) (ct_link (hi_container k)) \<noteq> None"
    using sd(1,3) kk by (auto simp: core_inv_def running_inv_def objects_owned_def containers_ok_def)
  obtain w where w: "unpublish (hi_container k) (net c) = (Inr (), w)" "watchers_kept (net c) w" "watcher_loaded w"
    using unpublish_ok[OF h _ sd(2)] l by blast
  define s where "s = c\<lparr>net := w, hardware := jdel i (hardware c)\<rparr>"
  obtain p where p: "data_cache c = Some p" using sd(1) by (auto simp: core_inv_def data_synced_def)
  define c' where "c' = s\<lparr>data_cache := Some (p\<lparr>ps_hardware := jdel i (ps_hardware p)\<rparr>),
    data_file := Some (p\<lparr>ps_hardware := jdel i (ps_hardware p)\<rparr>)\<rparr>"
  have rm: "removeHardware i c = (Inr (), c')"
    using un k w(1) p by (simp add: removeHardware_def destroy_hardware_def lift_net_def op_defs data_removeHardware_def
        updateData_loaded s_def c'_def)
  have sel: "hardware c' = jdel i (hardware c)" "pluginContainers c' = pluginContainers c" "links c' = links c"
    "net c' = w" "pluginTypes c' = pluginTypes c" "plugin_dir c' = plugin_dir c"
    by (simp_all add: c'_def s_def)
  have "i \<notin> set (jkeys (pluginContainers c))" using sd(7) jget_key[OF k] by blast
  then have "component_ids c' = component_ids c - {i}" unfolding component_ids_def sel jd.keys_ddel by blast
  with w have "serving require icon types c'"
    by (intro removed_serving[OF sv _ _ _ h core_inv_removeHardware[OF sd(1) rm]]) (simp_all only: sel set_jdel_subset order_refl)
  then show ?thesis using rm by (simp add: view_def sel)
qed

lemma removeLink_accepted:
  assumes sv: "serving require icon types c" and ok: "spec_ok types (DeleteLink i) (view c)"
  shows "\<exists>c'. removeLink i c = (Inr (), c') \<and> serving require icon types c' \<and> view c' = spec_step (DeleteLink i) (view c)"
proof -
  note sd = servingD[OF sv]
  obtain k where k: "jget (links c) i = Some k"
  proof -
    have "i \<in> set (jkeys (links c))" using ok by simp
    then show thesis using that unfolding jd.dkeys_dget by blast
  qed
  obtain r s where d: "destroy_link i c = (r, s)" by force
  then obtain w where s: "r = Inr True" "s = c\<lparr>net := w, links := jdel i (links c)\<rparr>"
      "w = snd (remove_listener (li_source k) (EvAttributeOf (sourceAttribute (li_config k))) (li_handler k) (net c))"
    using k by (cases rule: destroy_link_cases) auto
  have fr: "repository w = repository (net c)" "watchers w = watchers (net c)" "watcher w = watcher (net c)"
    by (simp_all add: s(3) remove_listener_def)
  obtain p where p: "data_cache c = Some p" using sd(1) by (auto simp: core_inv_def data_synced_def)
  define c' where "c' = s\<lparr>data_cache := Some (p\<lparr>ps_links := jdel i (ps_links p)\<rparr>),
    data_file := Some (p\<lparr>ps_links := jdel i (ps_links p)\<rparr>)\<rparr>"
  have rm: "removeLink i c = (Inr (), c')"
    using d s(1,2) p by (simp add: removeLink_def op_defs data_removeLink_def updateData_loaded c'_def)
  have "serving require icon types c'"
    using sd fr core_inv_removeLink[OF sd(1) rm]
    by (intro servingI) (simp_all add: c'_def s(2) watcher_loaded_def containers_ok_def component_ids_def types_available_def)
  then show ?thesis using rm by (simp add: view_def c'_def s(2))
qed

subsection \<open>Rejected requests\<close>

text \<open>A rejected request changes nothing, except that the plugin types may be loaded now.\<close>

definition with_types :: "plugin_type dict \<Rightarrow> core \<Rightarrow> core" where
  "with_types types c = c\<lparr>pluginTypes := Some types\<rparr>"

lemma serving_with_types: "serving require icon types c \<Longrightarrow> serving require icon types (with_types types c)"
  by (rule serving_cong[of require icon types c])
    (auto simp: with_types_def types_available_def dest: servingD(1) intro: core_inv_cong)

lemma view_with_types [simp]: "view (with_types types c) = view c"
  by (simp add: with_types_def view_def)

lemma dup_key: "i \<in> fst ` set d \<Longrightarrow> jget d i \<noteq> None"
  by (simp add: map_of_eq_None_iff)

lemma addPlugin_rejected:
  assumes "serving require icon types c" "\<not> spec_ok types (PostPlugin cfg) (view c)"
  shows "\<exists>e c'. addPlugin depth require icon cfg c = (Inl e, c') \<and> (c' = c \<or> c' = with_types types c)"
proof (cases "pc_id cfg \<in> fst ` set (pluginContainers c)")
  case True
  then show ?thesis using dup_key[OF True] by (simp add: addPlugin_def create_plugin_def op_defs)
next
  case False
  then have t: "jget types (pc_type cfg) = None" "jget (pluginContainers c) (pc_id cfg) = None"
    using assms(2) by (simp_all add: map_of_eq_None_iff)
  show ?thesis
    using t checkPluginTypes_available[OF servingD(5)[OF assms(1)]]
    by (simp add: addPlugin_def create_plugin_def op_defs readE_def with_types_def)
qed

lemma addHardware_rejected:
  assumes "\<not> spec_ok types (PostHardware cfg) (view c)"
  shows "\<exists>e. addHardware cfg c = (Inl e, c)"
proof (cases "hc_id cfg \<in> fst ` set (hardware c)")
  case True
  then show ?thesis using dup_key[OF True] by (simp add: addHardware_def create_hardware_def op_defs)
next
  case False
  then have "hc_class cfg = None" "jget (hardware c) (hc_id cfg) = None" using assms by (simp_all add: map_of_eq_None_iff)
  then show ?thesis by (simp add: addHardware_def create_hardware_def op_defs)
qed

lemma addLink_rejected:
  assumes "serving require icon types c" "\<not> spec_ok types (PostLink cfg) (view c)"
  shows "\<exists>e. addLink cfg c = (Inl e, c)"
proof (cases "makeId cfg \<in> fst ` set (links c)")
  case True
  then show ?thesis using dup_key[OF True] by (simp add: addLink_def create_link_def op_defs)
next
  case False
  then have "\<not> {sourceComponent cfg, destinationComponent cfg} \<subseteq> component_ids c" using assms(2) by simp
  moreover have "set (jkeys (repository (net c))) \<subseteq> component_ids c"
    using servingD(1)[OF assms(1)] by (simp add: core_inv_def running_inv_def published_owned_def)
  ultimately have "jget (repository (net c)) (sourceComponent cfg) = None \<or> jget (repository (net c)) (destinationComponent cfg) = None"
    unfolding jd.dkeys_dget by blast
  then have "\<exists>e. connect_link cfg (net c) = (Inl e, net c)"
    by (auto simp: connect_link_def repository_object_def op_defs split: option.split)
  moreover have "jget (links c) (makeId cfg) = None" using False by (simp add: map_of_eq_None_iff)
  ultimately show ?thesis by (auto simp: addLink_def create_link_def op_defs lift_net_def)
qed

lemma checkLink_cases: "\<exists>e. checkLink i c = (Inl e, c) \<or> unlinked c i \<and> checkLink i c = (Inr (), c)"
  using checkLink_state[of i c] checkLink_iff[of i c c] by (cases "checkLink i c"; cases "fst (checkLink i c)") auto

lemma remove_rejected:
  "\<not> spec_ok types (DeletePlugin i) (view c) \<Longrightarrow> \<exists>e. removePlugin i c = (Inl e, c)"
  "\<not> spec_ok types (DeleteHardware i) (view c) \<Longrightarrow> \<exists>e. removeHardware i c = (Inl e, c)"
  "\<not> spec_ok types (DeleteLink i) (view c) \<Longrightarrow> \<exists>e. removeLink i c = (Inl e, c)"
  using checkLink_cases[of i c]
  by (auto simp: removePlugin_def removeHardware_def removeLink_def op_defs destroy_plugin_def destroy_hardware_def
      destroy_link_def unused_view map_of_eq_None_iff[symmetric])

subsection \<open>The refinement\<close>

definition refines :: "nat \<Rightarrow> (string \<Rightarrow> js_error + plugin_kind) \<Rightarrow> (string \<Rightarrow> string) \<Rightarrow> plugin_type dict \<Rightarrow>
    request \<Rightarrow> core \<Rightarrow> bool" where
  "refines depth require icon types q c \<longleftrightarrow>
     (case handle depth require icon q c of
        (r, c') \<Rightarrow> serving require icon types c' \<and> is_error r = (\<not> spec_ok types q (view c)) \<and>
          view c' = (if spec_ok types q (view c) then spec_step q (view c) else view c))"

lemma refines_accepted:
  assumes "m c = (Inr x, c')" "serving require icon types c'" "view c' = spec_step q (view c)" "spec_ok types q (view c)"
    and "handle depth require icon q c = respond f m c" "\<not> is_error (f x)"
  shows "refines depth require icon types q c"
  using assms by (simp add: refines_def respond_def)

lemma refines_rejected:
  assumes "m c = (Inl e, c')" "serving require icon types c'" "view c' = view c" "\<not> spec_ok types q (view c)"
    and "handle depth require icon q c = respond f m c"
  shows "refines depth require icon types q c"
  using assms by (simp add: refines_def respond_def)

lemma refines_post:
  assumes sv: "serving require icon types c"
  shows "no_clash (PostPlugin p) (view c) \<Longrightarrow> refines depth require icon types (PostPlugin p) c"
    "no_clash (PostHardware h) (view c) \<Longrightarrow> refines depth require icon types (PostHardware h) c"
    "refines depth require icon types (PostLink l) c"
proof -
  show "refines depth require icon types (PostPlugin p) c" if nc: "no_clash (PostPlugin p) (view c)"
  proof (cases "spec_ok types (PostPlugin p) (view c)")
    case True
    from addPlugin_accepted[OF sv True nc, of depth] show ?thesis
      by (elim exE conjE) (rule refines_accepted[OF _ _ _ True handle.simps(3)]; simp)
  next
    case False
    with addPlugin_rejected[OF sv False] sv serving_with_types[OF sv] view_with_types show ?thesis
      by (metis refines_rejected handle.simps(3))
  qed
  show "refines depth require icon types (PostHardware h) c" if nc: "no_clash (PostHardware h) (view c)"
  proof (cases "spec_ok types (PostHardware h) (view c)")
    case True
    from addHardware_accepted[OF sv True nc] show ?thesis
      by (elim exE conjE) (rule refines_accepted[OF _ _ _ True handle.simps(9)]; simp)
  next
    case False
    with addHardware_rejected[OF False] sv show ?thesis by (metis refines_rejected handle.simps(9))
  qed
  show "refines depth require icon types (PostLink l) c"
  proof (cases "spec_ok types (PostLink l) (view c)")
    case True
    from addLink_accepted[OF sv True] show ?thesis
      by (elim exE conjE) (rule refines_accepted[OF _ _ _ True handle.simps(12)]; simp)
  next
    case False
    with addLink_rejected[OF sv False] sv show ?thesis by (metis refines_rejected handle.simps(12))
  qed
qed

lemma refines_delete:
  assumes sv: "serving require icon types c"
  shows "refines depth require icon types (DeletePlugin i) c" "refines depth require icon types (DeleteHardware i) c"
    "refines depth require icon types (DeleteLink i) c"
proof -
  show "refines depth require icon types (DeletePlugin i) c"
  proof (cases "spec_ok types (DeletePlugin i) (view c)")
    case True
    from removePlugin_accepted[OF sv True] show ?thesis
      by (elim exE conjE) (rule refines_accepted[OF _ _ _ True handle.simps(4)]; simp)
  next
    case False
    with remove_rejected(1)[OF False] sv show ?thesis by (metis refines_rejected handle.simps(4))
  qed
  show "refines depth require icon types (DeleteHardware i) c"
  proof (cases "spec_ok types (DeleteHardware i) (view c)")
    case True
    from removeHardware_accepted[OF sv True] show ?thesis
      by (elim exE conjE) (rule refines_accepted[OF _ _ _ True handle.simps(10)]; simp)
  next
    case False
    with remove_rejected(2)[OF False] sv show ?thesis by (metis refines_rejected handle.simps(10))
  qed
  show "refines depth require icon types (DeleteLink i) c"
  proof (cases "spec_ok types (DeleteLink i) (view c)")
    case True
    from removeLink_accepted[OF sv True] show ?thesis
      by (elim exE conjE) (rule refines_accepted[OF _ _ _ True handle.simps(13)]; simp)
  next
    case False
    with remove_rejected(3)[OF False] sv show ?thesis by (metis refines_rejected handle.simps(13))
  qed
qed

lemma refines_get:
  assumes sv: "serving require icon types c"
  shows "refines depth require icon types GetApi c" "refines depth require icon types GetPlugins c"
    "refines depth require icon types GetHardware c" "refines depth require icon types GetLinks c"
    "refines depth require icon types GetPluginTypes c" "refines depth require icon types (PostUi u) c"
proof -
  show "refines depth require icon types GetApi c" "refines depth require icon types GetPlugins c"
    "refines depth require icon types GetHardware c" "refines depth require icon types GetLinks c"
    using sv by (simp_all add: refines_def respond_def getPlugins_def getHardware_def getLinks_def readE_def)
  show "refines depth require icon types GetPluginTypes c"
    using sv serving_with_types[OF sv] checkPluginTypes_available[OF servingD(5)[OF sv]]
    by (simp add: refines_def respond_def getPluginTypes_def plugin_types_def op_defs readE_def with_types_def[symmetric])
  have "serving require icon types (c\<lparr>ui_cache := Some u, ui_file := Some u\<rparr>)"
    using servingD(1,5)[OF sv] by (intro serving_cong[OF sv]) (auto simp: types_available_def intro: core_inv_cong)
  then show "refines depth require icon types (PostUi u) c"
    by (simp add: refines_def respond_def data_setUi_def modifyE_def view_def)
qed

lemma serving_refines:
  assumes "serving require icon types c" "configuring q" "no_clash q (view c)"
  shows "refines depth require icon types q c"
  using assms(2,3) refines_post[OF assms(1)] refines_delete[OF assms(1)] refines_get[OF assms(1)] by (cases q) auto

text \<open>
  C3: A serving process implements the specification of its configuring requests: it answers an error exactly when the
  specification refuses the request, then its configuration is unchanged; otherwise the configuration is
  what the specification says. In both cases it keeps serving.
\<close>

theorem rest_refines_spec:
  assumes "serving require icon types c" "configuring q" "no_clash q (view c)"
  shows "serving require icon types (snd (handle depth require icon q c)) \<and>
    is_error (fst (handle depth require icon q c)) = (\<not> spec_ok types q (view c)) \<and>
    view (snd (handle depth require icon q c)) = (if spec_ok types q (view c) then spec_step q (view c) else view c)"
  using serving_refines[OF assms] by (simp add: refines_def case_prod_beta)

lemma sample_serving: "serving repo_require sample_icon sample_types sample_core"
proof -
  have k: "set (jkeys (pluginContainers sample_core)) = {''btn'', ''relay'', ''lamp''}" "set (jkeys (hardware sample_core)) = {''board''}"
    using arg_cong[OF sample_loaded(3), of "\<lambda>d. set (jkeys d)"] arg_cong[OF sample_loaded(2), of "\<lambda>d. set (jkeys d)"]
    by (simp_all add: sample_data_def)
  then have "set (jkeys (pluginContainers sample_core)) \<inter> set (jkeys (hardware sample_core)) = {}" unfolding k by simp
  with sample_starting sample_loaded(1) show ?thesis unfolding serving_def by blast
qed

lemma sample_view: "view sample_core = sample_data"
  by (simp add: view_def sample_loaded)

text \<open>The relay is used by links; the reply to its deletion is an error.\<close>

theorem rest_refines_spec_witness:
  "is_error (fst (handle 20 repo_require sample_icon (DeletePlugin ''relay'') sample_core)) \<and>
   view (snd (handle 20 repo_require sample_icon (DeletePlugin ''relay'') sample_core)) = sample_data"
proof -
  have "\<not> spec_ok sample_types (DeletePlugin ''relay'') sample_data" by code_simp
  moreover have "configuring (DeletePlugin ''relay'')" "no_clash (DeletePlugin ''relay'') (view sample_core)" by simp_all
  ultimately show ?thesis
    using rest_refines_spec[OF sample_serving, of "DeletePlugin ''relay''" 20] unfolding sample_view by metis
qed

end
