(* ===== verification/MergeApply.thy ===== *)
theory MergeApply
  imports RestSpec MergeProps
begin

section \<open>Applying a merge to the running core\<close>

text \<open>
  The requests of \<open>componentManager.apply\<close> run against the specification of the REST interface: each of the
  six phases is shown to succeed, so the core reaches the edited design.
\<close>

subsection \<open>Runs of the specification\<close>

fun spec_run :: "plugin_type dict \<Rightarrow> request list \<Rightarrow> persisted \<Rightarrow> persisted option" where
  "spec_run types [] d = Some d"
| "spec_run types (q # qs) d =
     (if configuring q \<and> no_clash q d \<and> spec_ok types q d then spec_run types qs (spec_step q d) else None)"

lemma spec_run_append: "spec_run types (qs @ rs) d = (case spec_run types qs d of None \<Rightarrow> None | Some d' \<Rightarrow> spec_run types rs d')"
  by (induction qs arbitrary: d) simp_all

lemma spec_run_appendI: "spec_run types qs d = Some d' \<Longrightarrow> spec_run types rs d' = r \<Longrightarrow> spec_run types (qs @ rs) d = r"
  by (simp add: spec_run_append)

lemma fetchCallback_Inr: "fetchCallback (Inr r) = None \<longleftrightarrow> \<not> is_error r"
  by (cases r) simp_all

lemma run_tasks_spec:
  assumes "serving require icon types c" "spec_run types qs (view c) = Some d"
  shows "\<exists>c'. run_tasks (direct depth require icon) qs c = (None, c') \<and> serving require icon types c' \<and> view c' = d"
  using assms
proof (induction qs arbitrary: c)
  case (Cons q qs)
  then have q: "configuring q" "no_clash q (view c)" "spec_ok types q (view c)"
    and d: "spec_run types qs (spec_step q (view c)) = Some d" by (auto split: if_splits)
  obtain r c1 where h: "handle depth require icon q c = (r, c1)" by force
  have "refines depth require icon types q c" using Cons.prems(1) q by (rule_tac serving_refines)
  then have r: "\<not> is_error r" "serving require icon types c1" "view c1 = spec_step q (view c)"
    using h q(3) by (simp_all add: refines_def)
  from r(1) have "fetchCallback (Inr r) = None" by (simp add: fetchCallback_Inr)
  with Cons.IH[of c1] r d h show ?case by (simp add: direct_def)
qed simp

subsection \<open>The tables\<close>

text \<open>
  One table of the abstract state with the requests that add and delete its entries. Whether a request is accepted depends
  on the keys of the table and on the other tables.
\<close>

locale table =
  fixes get :: "persisted \<Rightarrow> 'g dict" and put :: "'g dict \<Rightarrow> persisted \<Rightarrow> persisted" and key :: "'g \<Rightarrow> string"
    and add :: "'g \<Rightarrow> request" and del :: "string \<Rightarrow> request" and types :: "plugin_type dict"
    and addable :: "'g \<Rightarrow> persisted \<Rightarrow> bool" and deletable :: "string \<Rightarrow> persisted \<Rightarrow> bool"
  assumes get_put [simp]: "get (put t d) = t" and put_put [simp]: "put t (put t' d) = put t d" and put_get [simp]: "put (get d) d = d"
    and add_step: "spec_step (add g) d = put (jset (key g) g (get d)) d"
    and del_step: "spec_step (del k) d = put (jdel k (get d)) d"
    and add_ok: "addable g d \<Longrightarrow> key g \<notin> set (jkeys (get d)) \<Longrightarrow>
        configuring (add g) \<and> no_clash (add g) d \<and> spec_ok types (add g) d"
    and del_ok: "deletable k d \<Longrightarrow> k \<in> set (jkeys (get d)) \<Longrightarrow>
        configuring (del k) \<and> no_clash (del k) d \<and> spec_ok types (del k) d"
    and addable_put: "addable g (put t d) = addable g d"
    and deletable_put: "deletable k (put t d) = deletable k d"
begin

lemma add_all:
  assumes "\<forall>g \<in> set gs. addable g d" "distinct (map key gs)" "key ` set gs \<inter> set (jkeys (get d)) = {}"
  shows "spec_run types (map add gs) d = Some (put (get d @ map (\<lambda>g. (key g, g)) gs) d)"
  using assms
proof (induction gs arbitrary: d)
  case (Cons g gs)
  then have new: "key g \<notin> set (jkeys (get d))" by auto
  then have st: "spec_step (add g) d = put (get d @ [(key g, g)]) d" by (simp add: add_step jset_new)
  have "spec_run types (map add gs) (spec_step (add g) d) =
      Some (put (get (spec_step (add g) d) @ map (\<lambda>g. (key g, g)) gs) (spec_step (add g) d))"
    by (rule Cons.IH) (use Cons.prems in \<open>auto simp: st addable_put\<close>)
  then show ?case using add_ok[OF _ new] Cons.prems(1) by (simp add: st)
qed simp

lemma del_all:
  assumes "\<forall>k \<in> set ks. deletable k d" "distinct ks" "set ks \<subseteq> set (jkeys (get d))"
  shows "spec_run types (map del ks) d = Some (put (filter (\<lambda>x. fst x \<notin> set ks) (get d)) d)"
  using assms
proof (induction ks arbitrary: d)
  case (Cons k ks)
  have st: "spec_step (del k) d = put (filter (\<lambda>x. fst x \<noteq> k) (get d)) d"
  proof -
    have "(\<lambda>(k', _). k \<noteq> k') = (\<lambda>x :: string \<times> 'g. fst x \<noteq> k)" by auto
    then show ?thesis by (simp add: del_step AList.delete_eq)
  qed
  have "spec_run types (map del ks) (spec_step (del k) d) =
      Some (put (filter (\<lambda>x. fst x \<notin> set ks) (get (spec_step (del k) d))) (spec_step (del k) d))"
  proof (rule Cons.IH)
    have "set (jkeys (filter (\<lambda>x. fst x \<noteq> k) (get d))) = set (jkeys (get d)) - {k}" by force
    then show "set ks \<subseteq> set (jkeys (get (spec_step (del k) d)))" using Cons.prems(2,3) unfolding st get_put by auto
  qed (use Cons.prems in \<open>simp_all add: st deletable_put\<close>)
  moreover have "filter (\<lambda>x. fst x \<notin> set ks) (filter (\<lambda>x. fst x \<noteq> k) (get d)) = filter (\<lambda>x. fst x \<notin> set (k # ks)) (get d)"
    by (auto simp: filter_filter intro: filter_cong)
  ultimately show ?case using del_ok[of k d] Cons.prems(1,3) by (simp add: st)
qed simp

lemma filter_keyed:
  assumes "distinct (map key xs)"
  shows "filter (\<lambda>x. fst x \<notin> key ` set (filter Q xs)) (map (\<lambda>g. (key g, g)) xs) = map (\<lambda>g. (key g, g)) (filter (\<lambda>g. \<not> Q g) xs)"
proof -
  have "key g \<notin> key ` set (filter Q xs) \<longleftrightarrow> \<not> Q g" if "g \<in> set xs" for g
    using assms that by (auto simp: distinct_map dest: inj_onD)
  then show ?thesis by (simp add: filter_map comp_def cong: filter_cong)
qed

text \<open>The same for a table that lists items under their keys.\<close>

lemma del_items:
  assumes "get d = map (\<lambda>g. (key g, g)) xs" "distinct (map key xs)" "\<forall>g \<in> set xs. Q g \<longrightarrow> deletable (key g) d"
  shows "spec_run types (map (del \<circ> key) (filter Q xs)) d = Some (put (map (\<lambda>g. (key g, g)) (filter (\<lambda>g. \<not> Q g) xs)) d)"
proof -
  have "distinct (map key (filter Q xs))" using assms(2) by (simp add: distinct_map inj_on_def)
  then have "spec_run types (map del (map key (filter Q xs))) d = Some (put (filter (\<lambda>x. fst x \<notin> set (map key (filter Q xs))) (get d)) d)"
    by (intro del_all) (use assms(1,3) in \<open>auto simp: image_image\<close>)
  then show ?thesis using filter_keyed[OF assms(2), of Q] by (simp add: assms(1))
qed

lemma add_items:
  assumes "get d = map (\<lambda>g. (key g, g)) xs" "\<forall>g \<in> set gs. addable g d" "distinct (map key (xs @ gs))"
  shows "spec_run types (map add gs) d = Some (put (map (\<lambda>g. (key g, g)) (xs @ gs)) d)"
  using add_all[OF assms(2)] assms(1,3) by (auto simp: image_image)

end

interpretation ptable: table ps_plugins "\<lambda>t d. d\<lparr>ps_plugins := t\<rparr>" pc_id PostPlugin DeletePlugin types
  "\<lambda>p d. jget types (pc_type p) \<noteq> None \<and> pc_id p \<notin> set (jkeys (ps_hardware d))" unused for types
  by unfold_locales (auto simp: unused_def)

interpretation htable: table ps_hardware "\<lambda>t d. d\<lparr>ps_hardware := t\<rparr>" hc_id PostHardware DeleteHardware types
  "\<lambda>h d. hc_class h \<noteq> None \<and> hc_id h \<notin> set (jkeys (ps_plugins d))" unused for types
  by unfold_locales (auto simp: unused_def)

interpretation ltable: table ps_links "\<lambda>t d. d\<lparr>ps_links := t\<rparr>" makeId PostLink DeleteLink types
  "\<lambda>l d. {sourceComponent l, destinationComponent l} \<subseteq> component_keys d" "\<lambda>k d. True" for types
  by unfold_locales (auto simp: component_keys_def)

subsection \<open>The edited design\<close>

text \<open>The running design as the core's lists report it, and the designs that a core can run.\<close>

definition design_of :: "core \<Rightarrow> design_data" where
  "design_of c = \<lparr>dd_plugins = map snd (ps_plugins (view c)), dd_hardware = map snd (ps_hardware (view c)), dd_links = ps_links (view c)\<rparr>"

definition design_ids :: "design_data \<Rightarrow> string list" where
  "design_ids d = map pc_id (dd_plugins d) @ map hc_id (dd_hardware d) @ map fst (dd_links d)"

definition valid_design :: "plugin_type dict \<Rightarrow> design_data \<Rightarrow> bool" where
  "valid_design types d \<longleftrightarrow> distinct (design_ids d) \<and>
     (\<forall>p \<in> set (dd_plugins d). jget types (pc_type p) \<noteq> None) \<and> (\<forall>h \<in> set (dd_hardware d). hc_class h \<noteq> None) \<and>
     (\<forall>l \<in> set (dd_links d). fst l = makeId (snd l) \<and>
        {sourceComponent (snd l), destinationComponent (snd l)} \<subseteq> pc_id ` set (dd_plugins d) \<union> hc_id ` set (dd_hardware d))"

text \<open>What \<open>doMerge\<close> misses: an unchanged link that uses a changed plugin as its source or changed hardware as its destination.\<close>

definition no_missed_link :: "design_data \<Rightarrow> design_data \<Rightarrow> bool" where
  "no_missed_link old_d new_d \<longleftrightarrow> (\<forall>l \<in> set (dd_links old_d) \<inter> set (dd_links new_d).
     sourceComponent (snd l) \<notin> pc_id ` (set (dd_plugins old_d) - set (dd_plugins new_d)) \<and>
     destinationComponent (snd l) \<notin> hc_id ` (set (dd_hardware old_d) - set (dd_hardware new_d)))"

lemma serving_view:
  assumes "serving require icon types c"
  shows "ps_plugins (view c) = map (\<lambda>p. (pc_id p, p)) (dd_plugins (design_of c))"
    "ps_hardware (view c) = map (\<lambda>h. (hc_id h, h)) (dd_hardware (design_of c))"
    "ps_links (view c) = dd_links (design_of c)"
    "\<forall>l \<in> set (dd_links (design_of c)). fst l = makeId (snd l)"
proof -
  have "preg.well_keyed c" "hreg.well_keyed c" "lreg.well_keyed c"
    using servingD(1)[OF assms] by (simp_all add: core_inv_def running_inv_def)
  then have k: "keyed pc_id (ps_plugins (view c))" "keyed hc_id (ps_hardware (view c))" "keyed makeId (ps_links (view c))"
    by (simp_all add: preg.well_keyed_def hreg.well_keyed_def lreg.well_keyed_def view_def keyed_dmap)
  show "ps_plugins (view c) = map (\<lambda>p. (pc_id p, p)) (dd_plugins (design_of c))"
    "ps_hardware (view c) = map (\<lambda>h. (hc_id h, h)) (dd_hardware (design_of c))"
    using keyed_configs[OF k(1)] keyed_configs[OF k(2)] by (simp_all add: design_of_def)
  show "ps_links (view c) = dd_links (design_of c)" by (simp add: design_of_def)
  show "\<forall>l \<in> set (dd_links (design_of c)). fst l = makeId (snd l)" using k(3) by (auto simp: design_of_def keyed_def)
qed

text \<open>The links of the merge: recreated, destroyed, kept, created.\<close>

abbreviation without :: "'a list \<Rightarrow> 'a list \<Rightarrow> 'a list" where
  "without xs ys \<equiv> filter (\<lambda>x. x \<notin> set ys) xs"

abbreviation common :: "'a list \<Rightarrow> 'a list \<Rightarrow> 'a list" where
  "common xs ys \<equiv> filter (\<lambda>x. x \<in> set ys) xs"

definition again :: "design_data \<Rightarrow> design_data \<Rightarrow> api_link \<Rightarrow> bool" where
  "again old_d new_d = recreated (without (dd_plugins old_d) (dd_plugins new_d)) (without (dd_hardware old_d) (dd_hardware new_d))
     (without (dd_links old_d) (dd_links new_d))"

definition gone_links :: "design_data \<Rightarrow> design_data \<Rightarrow> api_link list" where
  "gone_links old_d new_d = without (dd_links old_d) (dd_links new_d) @ filter (again old_d new_d) (dd_links old_d)"

definition kept_links :: "design_data \<Rightarrow> design_data \<Rightarrow> api_link list" where
  "kept_links old_d new_d = filter (\<lambda>l. l \<in> set (dd_links new_d) \<and> \<not> again old_d new_d l) (dd_links old_d)"

definition made_links :: "design_data \<Rightarrow> design_data \<Rightarrow> api_link list" where
  "made_links old_d new_d = without (dd_links new_d) (dd_links old_d) @ filter (again old_d new_d) (dd_links old_d)"

text \<open>The six lists of the merge, when the ids of the design are distinct.\<close>

lemma merge_lists:
  fixes old_d new_d :: design_data
  assumes "distinct (design_ids old_d)"
  defines "md \<equiv> doMerge structural old_d new_d"
  shows "dd_plugins (md_destroy md) = without (dd_plugins old_d) (dd_plugins new_d)"
    "dd_plugins (md_create md) = without (dd_plugins new_d) (dd_plugins old_d)"
    "dd_hardware (md_destroy md) = without (dd_hardware old_d) (dd_hardware new_d)"
    "dd_hardware (md_create md) = without (dd_hardware new_d) (dd_hardware old_d)"
    "dd_links (md_destroy md) = gone_links old_d new_d" "dd_links (md_create md) = made_links old_d new_d"
proof -
  have w: "deepWithout (=) xs ys = without xs ys" for xs ys :: "'a list"
    by (auto simp: deepWithout_filter deepExists_iff intro!: filter_cong)
  note parts = doMerge_parts[of old_d new_d, folded md_def]
  show "dd_plugins (md_destroy md) = without (dd_plugins old_d) (dd_plugins new_d)"
    "dd_plugins (md_create md) = without (dd_plugins new_d) (dd_plugins old_d)"
    "dd_hardware (md_destroy md) = without (dd_hardware old_d) (dd_hardware new_d)"
    "dd_hardware (md_create md) = without (dd_hardware new_d) (dd_hardware old_d)"
    by (simp_all only: parts w)
  have "distinct (map fst (dd_links old_d))" using assms(1) by (simp add: design_ids_def)
  then show "dd_links (md_destroy md) = gone_links old_d new_d" "dd_links (md_create md) = made_links old_d new_d"
    using parts(5) by (simp_all only: w recreate_fold_filter prod.inject gone_links_def made_links_def again_def)
qed

subsection \<open>The run of the requests\<close>

text \<open>\<open>pd\<close> and \<open>hwd\<close> are the destroyed plugins and hardware.\<close>

lemma link_lists:
  fixes old_l new_l :: "api_link list" and pd :: "plugin_config list" and hwd :: "hw_config list"
  assumes "distinct (map fst old_l)" "distinct (map fst new_l)"
  defines "A \<equiv> filter (\<lambda>l. l \<notin> set new_l) old_l" and "B \<equiv> filter (\<lambda>l. l \<notin> set old_l) new_l"
  defines "R \<equiv> filter (recreated pd hwd A) old_l"
  shows "distinct (map fst (A @ R))" "set (A @ R) \<subseteq> set old_l" "distinct (map fst (B @ R))" "set (B @ R) \<subseteq> set new_l"
    "filter (\<lambda>x. fst x \<notin> fst ` set (A @ R)) old_l = filter (\<lambda>l. l \<in> set new_l \<and> \<not> recreated pd hwd A l) old_l"
    "fst ` set (B @ R) \<inter> fst ` set (filter (\<lambda>l. l \<in> set new_l \<and> \<not> recreated pd hwd A l) old_l) = {}"
    "set (filter (\<lambda>l. l \<in> set new_l \<and> \<not> recreated pd hwd A l) old_l @ B @ R) = set new_l"
    "l \<in> set old_l \<Longrightarrow> l \<in> set new_l \<Longrightarrow> \<not> recreated pd hwd A l \<Longrightarrow>
       sourceComponent (snd l) \<notin> hc_id ` set hwd \<and> destinationComponent (snd l) \<notin> pc_id ` set pd"
proof -
  have o: "inj_on fst (set old_l)" and n: "inj_on fst (set new_l)" using assms(1,2) by (simp_all add: distinct_map)
  have A: "l \<in> set old_l \<Longrightarrow> fst l \<in> fst ` set A \<longleftrightarrow> l \<notin> set new_l" for l
    using o by (auto simp: A_def dest: inj_onD)
  have rec: "recreated pd hwd A l \<Longrightarrow> l \<in> set new_l" if "l \<in> set old_l" for l
    using A[OF that] by (auto simp: recreated_def)
  have R: "set R \<subseteq> set old_l \<inter> set new_l" using rec by (auto simp: R_def)
  have d: "distinct (map fst (filter P xs))" if "distinct (map fst xs)" for P and xs :: "api_link list"
    using that by (simp add: distinct_map inj_on_def)
  have dis: "fst ` X \<inter> fst ` Y = {}" if "X \<inter> Y = {}" "X \<union> Y \<subseteq> S" "inj_on fst S" for X Y S :: "api_link set"
    using that by (auto dest: inj_onD)
  have AR: "set A \<inter> set R = {}" "set A \<union> set R \<subseteq> set old_l" using R by (auto simp: A_def)
  have BR: "set B \<inter> set R = {}" "set B \<union> set R \<subseteq> set new_l" using R by (auto simp: B_def)
  show "distinct (map fst (A @ R))" using d[OF assms(1)] dis[OF AR o] by (simp add: A_def R_def)
  show "distinct (map fst (B @ R))" using d[OF assms(1)] d[OF assms(2)] dis[OF BR n] by (simp add: B_def R_def)
  show "set (A @ R) \<subseteq> set old_l" "set (B @ R) \<subseteq> set new_l" using AR BR by simp_all
  have "fst l \<notin> fst ` set (A @ R) \<longleftrightarrow> l \<in> set new_l \<and> \<not> recreated pd hwd A l" if "l \<in> set old_l" for l
  proof -
    have "fst l \<in> fst ` set R \<longleftrightarrow> recreated pd hwd A l" using o that by (auto simp: R_def dest: inj_onD)
    then show ?thesis using A[OF that] by (simp add: image_Un)
  qed
  then show "filter (\<lambda>x. fst x \<notin> fst ` set (A @ R)) old_l = filter (\<lambda>l. l \<in> set new_l \<and> \<not> recreated pd hwd A l) old_l"
    by (simp cong: filter_cong)
  show "fst ` set (B @ R) \<inter> fst ` set (filter (\<lambda>l. l \<in> set new_l \<and> \<not> recreated pd hwd A l) old_l) = {}"
    by (rule dis[OF _ _ n]) (use BR in \<open>auto simp: B_def R_def\<close>)
  show "set (filter (\<lambda>l. l \<in> set new_l \<and> \<not> recreated pd hwd A l) old_l @ B @ R) = set new_l"
    using rec by (auto simp: B_def R_def)
  show "sourceComponent (snd l) \<notin> hc_id ` set hwd \<and> destinationComponent (snd l) \<notin> pc_id ` set pd"
    if "l \<in> set old_l" "l \<in> set new_l" "\<not> recreated pd hwd A l"
    using that A[OF that(1)] by (auto simp: recreated_def)
qed

lemma design_idsD:
  assumes "distinct (design_ids d)"
  shows "distinct (map pc_id (dd_plugins d))" "distinct (map hc_id (dd_hardware d))" "distinct (map fst (dd_links d))"
    "pc_id ` set (dd_plugins d) \<inter> hc_id ` set (dd_hardware d) = {}"
    "(pc_id ` set (dd_plugins d) \<union> hc_id ` set (dd_hardware d)) \<inter> fst ` set (dd_links d) = {}"
  using assms by (auto simp: design_ids_def)

lemma merge_links:
  fixes old_d new_d :: design_data
  assumes "distinct (design_ids old_d)" "valid_design types new_d" "no_missed_link old_d new_d"
  shows "distinct (map fst (gone_links old_d new_d))" "set (gone_links old_d new_d) \<subseteq> set (dd_links old_d)"
    "distinct (map fst (made_links old_d new_d))" "set (made_links old_d new_d) \<subseteq> set (dd_links new_d)"
    "filter (\<lambda>x. fst x \<notin> fst ` set (gone_links old_d new_d)) (dd_links old_d) = kept_links old_d new_d"
    "fst ` set (made_links old_d new_d) \<inter> fst ` set (kept_links old_d new_d) = {}"
    "set (kept_links old_d new_d @ made_links old_d new_d) = set (dd_links new_d)"
    "\<forall>l \<in> set (kept_links old_d new_d). {sourceComponent (snd l), destinationComponent (snd l)} \<inter>
       (pc_id ` set (without (dd_plugins old_d) (dd_plugins new_d)) \<union>
        hc_id ` set (without (dd_hardware old_d) (dd_hardware new_d))) = {}"
proof -
  have o: "distinct (map fst (dd_links old_d))" and n: "distinct (map fst (dd_links new_d))"
    using design_idsD(3)[OF assms(1)] design_idsD(3)[of new_d] assms(2) by (simp_all add: valid_design_def)
  note ll = link_lists[OF o n, where pd = "without (dd_plugins old_d) (dd_plugins new_d)"
      and hwd = "without (dd_hardware old_d) (dd_hardware new_d)"]
  show "distinct (map fst (gone_links old_d new_d))" "set (gone_links old_d new_d) \<subseteq> set (dd_links old_d)"
    "distinct (map fst (made_links old_d new_d))" "set (made_links old_d new_d) \<subseteq> set (dd_links new_d)"
    "filter (\<lambda>x. fst x \<notin> fst ` set (gone_links old_d new_d)) (dd_links old_d) = kept_links old_d new_d"
    "fst ` set (made_links old_d new_d) \<inter> fst ` set (kept_links old_d new_d) = {}"
    "set (kept_links old_d new_d @ made_links old_d new_d) = set (dd_links new_d)"
    unfolding gone_links_def made_links_def kept_links_def again_def by (fact ll(1-7))+
  show "\<forall>l \<in> set (kept_links old_d new_d). {sourceComponent (snd l), destinationComponent (snd l)} \<inter>
      (pc_id ` set (without (dd_plugins old_d) (dd_plugins new_d)) \<union>
       hc_id ` set (without (dd_hardware old_d) (dd_hardware new_d))) = {}"
  proof
    fix l assume "l \<in> set (kept_links old_d new_d)"
    then have l: "l \<in> set (dd_links old_d)" "l \<in> set (dd_links new_d)" "\<not> again old_d new_d l" by (simp_all add: kept_links_def)
    have "sourceComponent (snd l) \<notin> hc_id ` set (without (dd_hardware old_d) (dd_hardware new_d)) \<and>
        destinationComponent (snd l) \<notin> pc_id ` set (without (dd_plugins old_d) (dd_plugins new_d))"
      using ll(8)[of l] l by (simp only: again_def simp_thms)
    moreover have "sourceComponent (snd l) \<notin> pc_id ` set (without (dd_plugins old_d) (dd_plugins new_d)) \<and>
        destinationComponent (snd l) \<notin> hc_id ` set (without (dd_hardware old_d) (dd_hardware new_d))"
      using assms(3) l(1,2) by (auto simp: no_missed_link_def)
    ultimately show "{sourceComponent (snd l), destinationComponent (snd l)} \<inter>
        (pc_id ` set (without (dd_plugins old_d) (dd_plugins new_d)) \<union>
         hc_id ` set (without (dd_hardware old_d) (dd_hardware new_d))) = {}" by blast
  qed
qed

lemma disjoint_mono: "A \<subseteq> A' \<Longrightarrow> B \<subseteq> B' \<Longrightarrow> A' \<inter> B' = {} \<Longrightarrow> A \<inter> B = {}"
  by blast

lemma distinct_map_append:
  assumes "distinct (map f xs)" "distinct (map g ys)" "distinct (map h zs)" "set xs \<subseteq> X" "set ys \<subseteq> Y" "set zs \<subseteq> Z"
    and "f ` X \<inter> g ` Y = {}" "f ` X \<inter> h ` Z = {}" "g ` Y \<inter> h ` Z = {}"
  shows "distinct (map f xs @ map g ys @ map h zs)"
proof -
  have "f ` set xs \<subseteq> f ` X" "g ` set ys \<subseteq> g ` Y" "h ` set zs \<subseteq> h ` Z" using assms(4-6) by (simp_all add: image_mono)
  note sub = this
  have "f ` set xs \<inter> g ` set ys = {}" "f ` set xs \<inter> h ` set zs = {}" "g ` set ys \<inter> h ` set zs = {}"
    using disjoint_mono[OF sub(1,2) assms(7)] disjoint_mono[OF sub(1,3) assms(8)] disjoint_mono[OF sub(2,3) assms(9)] by simp_all
  then show ?thesis using assms(1-3) by (simp add: Int_Un_distrib)
qed

lemma merge_tasks:
  assumes o: "distinct (design_ids old_d)" and v: "valid_design types new_d" and m: "no_missed_link old_d new_d"
  shows "map snd (apply_tasks (doMerge structural old_d new_d)) =
    map (DeleteLink \<circ> fst) (gone_links old_d new_d) @
    map (DeletePlugin \<circ> pc_id) (without (dd_plugins old_d) (dd_plugins new_d)) @
    map (DeleteHardware \<circ> hc_id) (without (dd_hardware old_d) (dd_hardware new_d)) @
    map PostPlugin (without (dd_plugins new_d) (dd_plugins old_d)) @
    map PostHardware (without (dd_hardware new_d) (dd_hardware old_d)) @ map (PostLink \<circ> snd) (made_links old_d new_d)"
proof -
  have n: "distinct (design_ids new_d)" using v by (simp add: valid_design_def)
  note od = design_idsD[OF o] and nd = design_idsD[OF n] and ml = merge_links[OF o v m]
  have df: "distinct (map f (filter Q xs))" if "distinct (map f xs)" for f :: "'x \<Rightarrow> string" and Q xs
    using that by (simp add: distinct_map inj_on_def)
  have 1: "distinct (map fst (gone_links old_d new_d) @ map pc_id (without (dd_plugins old_d) (dd_plugins new_d)) @
      map hc_id (without (dd_hardware old_d) (dd_hardware new_d)))"
    by (rule distinct_map_append[OF ml(1) df[OF od(1)] df[OF od(2)] ml(2) filter_is_subset filter_is_subset])
      (use od(4,5) in blast)+
  have 2: "distinct (map pc_id (without (dd_plugins new_d) (dd_plugins old_d)) @
      map hc_id (without (dd_hardware new_d) (dd_hardware old_d)) @ map fst (made_links old_d new_d))"
    by (rule distinct_map_append[OF df[OF nd(1)] df[OF nd(2)] ml(3) filter_is_subset filter_is_subset ml(4)])
      (use nd(4,5) in blast)+
  show ?thesis
    using apply_sends_tasks[of "doMerge structural old_d new_d", unfolded merge_lists[OF o], OF 1 2] by (simp add: comp_def)
qed

text \<open>
  The six phases. \<open>P\<close>, \<open>H\<close> and \<open>L\<close> are the tables of the running design, the primed ones those of the edited one.
\<close>

lemma merge_phases:
  fixes P P' H H' and KL Lc :: "api_link list"
  assumes d: "ps_plugins d = map (\<lambda>p. (pc_id p, p)) P" "ps_hardware d = map (\<lambda>h. (hc_id h, h)) H" "ps_links d = KL"
    and dist: "distinct (map pc_id P)" "distinct (map hc_id H)" "distinct (map pc_id P' @ map hc_id H')"
    and kept: "\<forall>l \<in> set KL. {sourceComponent (snd l), destinationComponent (snd l)} \<inter>
       (pc_id ` set (without P P') \<union> hc_id ` set (without H H')) = {}"
    and types: "\<forall>p \<in> set P'. jget types (pc_type p) \<noteq> None" "\<forall>h \<in> set H'. hc_class h \<noteq> None"
  shows "spec_run types (map (DeletePlugin \<circ> pc_id) (without P P') @ map (DeleteHardware \<circ> hc_id) (without H H') @
      map PostPlugin (without P' P) @ map PostHardware (without H' H)) d =
    Some (d\<lparr>ps_plugins := map (\<lambda>p. (pc_id p, p)) (common P P' @ without P' P),
            ps_hardware := map (\<lambda>h. (hc_id h, h)) (common H H' @ without H' H)\<rparr>)"
proof -
  let ?p = "\<lambda>xs d. d\<lparr>ps_plugins := map (\<lambda>p. (pc_id p, p)) xs\<rparr>" and ?h = "\<lambda>xs d. d\<lparr>ps_hardware := map (\<lambda>h. (hc_id h, h)) xs\<rparr>"
  have new: "distinct (map pc_id P')" "distinct (map hc_id H')" "pc_id ` set P' \<inter> hc_id ` set H' = {}" using dist(3) by auto
  have dis: "distinct (map f (common xs ys @ without ys xs))" if "distinct (map f xs)" "distinct (map f ys)"
    for f :: "'x \<Rightarrow> string" and xs ys
    using that by (auto simp: distinct_map inj_on_def)
  have "spec_run types (map (DeletePlugin \<circ> pc_id) (without P P')) d = Some (?p (common P P') d)"
    using ptable.del_items[OF d(1) dist(1), where Q = "\<lambda>p. p \<notin> set P'" and types = types] kept
    by (fastforce simp: unused_def uses_component_def d(3))
  moreover have "spec_run types (map (DeleteHardware \<circ> hc_id) (without H H')) (?p (common P P') d) = Some (?h (common H H') (?p (common P P') d))"
    using htable.del_items[OF _ dist(2), where Q = "\<lambda>h. h \<notin> set H'" and types = types and d = "?p (common P P') d"] kept
    by (fastforce simp: unused_def uses_component_def d(2,3))
  moreover have "spec_run types (map PostPlugin (without P' P)) (?h (common H H') (?p (common P P') d)) =
      Some (?p (common P P' @ without P' P) (?h (common H H') (?p (common P P') d)))"
    using new(3) types(1) by (intro ptable.add_items dis dist(1) new(1)) auto
  moreover have "spec_run types (map PostHardware (without H' H)) (?p (common P P' @ without P' P) (?h (common H H') (?p (common P P') d))) =
      Some (?h (common H H' @ without H' H) (?p (common P P' @ without P' P) (?h (common H H') (?p (common P P') d))))"
    using new(3) types(2) by (intro htable.add_items dis dist(2) new(2)) auto
  ultimately show ?thesis by (simp add: spec_run_append)
qed

lemma merge_link_creation:
  assumes o: "distinct (design_ids old_d)" and v: "valid_design types new_d" and m: "no_missed_link old_d new_d"
    and d: "ps_links d = kept_links old_d new_d" "component_keys d = pc_id ` set (dd_plugins new_d) \<union> hc_id ` set (dd_hardware new_d)"
  shows "spec_run types (map (PostLink \<circ> snd) (made_links old_d new_d)) d =
    Some (d\<lparr>ps_links := kept_links old_d new_d @ made_links old_d new_d\<rparr>)"
proof -
  let ?Lc = "made_links old_d new_d"
  note ml = merge_links[OF o v m]
  have ln: "fst l = makeId (snd l) \<and> {sourceComponent (snd l), destinationComponent (snd l)} \<subseteq> component_keys d" if "l \<in> set ?Lc" for l
    using that ml(4) v d(2) by (auto simp: valid_design_def)
  then have mk: "map (\<lambda>l. (makeId l, l)) (map snd ?Lc) = ?Lc" by (auto simp: prod_eq_iff intro!: map_idI)
  have ids: "map makeId (map snd ?Lc) = map fst ?Lc" using ln by simp
  have "makeId ` set (map snd ?Lc) = fst ` set ?Lc" using arg_cong[OF ids, of set] by (simp only: set_map)
  then have "makeId ` set (map snd ?Lc) \<inter> set (jkeys (ps_links d)) = {}" using ml(6) d(1) by simp
  moreover have "distinct (map makeId (map snd ?Lc))" using ml(3) by (simp only: ids)
  moreover have "\<forall>l \<in> set (map snd ?Lc). {sourceComponent l, destinationComponent l} \<subseteq> component_keys d" using ln by auto
  ultimately show ?thesis using ltable.add_all[of "map snd ?Lc" d types] unfolding mk d(1) by simp
qed

lemma merge_spec_run:
  assumes d: "ps_plugins d = map (\<lambda>p. (pc_id p, p)) (dd_plugins old_d)" "ps_hardware d = map (\<lambda>h. (hc_id h, h)) (dd_hardware old_d)"
      "ps_links d = dd_links old_d"
    and o: "distinct (design_ids old_d)" and v: "valid_design types new_d" and m: "no_missed_link old_d new_d"
  shows "\<exists>d'. spec_run types (map snd (apply_tasks (doMerge structural old_d new_d))) d = Some d' \<and>
    set (map snd (ps_plugins d')) = set (dd_plugins new_d) \<and> set (map snd (ps_hardware d')) = set (dd_hardware new_d) \<and>
    set (ps_links d') = set (dd_links new_d)"
proof -
  have n: "distinct (design_ids new_d)" using v by (simp add: valid_design_def)
  note od = design_idsD[OF o] and nd = design_idsD[OF n] and ml = merge_links[OF o v m]
  define d1 where "d1 = d\<lparr>ps_links := kept_links old_d new_d\<rparr>"
  have 1: "spec_run types (map (DeleteLink \<circ> fst) (gone_links old_d new_d)) d = Some d1"
    using ltable.del_all[of "map fst (gone_links old_d new_d)" d types] ml(1,2,5) d(3) by (simp add: d1_def image_mono)
  define d2 where "d2 = d1\<lparr>ps_plugins := map (\<lambda>p. (pc_id p, p)) (common (dd_plugins old_d) (dd_plugins new_d) @ without (dd_plugins new_d) (dd_plugins old_d)),
      ps_hardware := map (\<lambda>h. (hc_id h, h)) (common (dd_hardware old_d) (dd_hardware new_d) @ without (dd_hardware new_d) (dd_hardware old_d))\<rparr>"
  have dn: "distinct (map pc_id (dd_plugins new_d) @ map hc_id (dd_hardware new_d))" using nd(1,2,4) by simp
  have 2: "spec_run types (map (DeletePlugin \<circ> pc_id) (without (dd_plugins old_d) (dd_plugins new_d)) @
      map (DeleteHardware \<circ> hc_id) (without (dd_hardware old_d) (dd_hardware new_d)) @
      map PostPlugin (without (dd_plugins new_d) (dd_plugins old_d)) @
      map PostHardware (without (dd_hardware new_d) (dd_hardware old_d))) d1 = Some d2"
    unfolding d2_def by (rule merge_phases[OF _ _ _ od(1,2) dn ml(8)]) (use d v in \<open>simp_all add: d1_def valid_design_def\<close>)
  have sets: "set (map snd (ps_plugins d2)) = set (dd_plugins new_d)" "set (map snd (ps_hardware d2)) = set (dd_hardware new_d)"
    "fst ` set (ps_plugins d2) = pc_id ` set (dd_plugins new_d)" "fst ` set (ps_hardware d2) = hc_id ` set (dd_hardware new_d)"
    by (auto simp: d2_def image_Un image_image)
  have "spec_run types (map (PostLink \<circ> snd) (made_links old_d new_d)) d2 =
      Some (d2\<lparr>ps_links := kept_links old_d new_d @ made_links old_d new_d\<rparr>)"
  proof (rule merge_link_creation[OF o v m])
    show "component_keys d2 = pc_id ` set (dd_plugins new_d) \<union> hc_id ` set (dd_hardware new_d)"
      unfolding component_keys_def set_map sets(3,4) ..
  qed (simp add: d2_def d1_def)
  then have "spec_run types (map snd (apply_tasks (doMerge structural old_d new_d))) d =
      Some (d2\<lparr>ps_links := kept_links old_d new_d @ made_links old_d new_d\<rparr>)"
    using spec_run_appendI[OF 1 spec_run_appendI[OF 2]] by (simp add: merge_tasks[OF o v m])
  then show ?thesis using sets(1,2) ml(7) by simp
qed

subsection \<open>Deployment\<close>

text \<open>
  Applying the merge of the running design and an edited one succeeds and the core then runs the
  edited design: every request is accepted in its turn. The edited design must be one the core can run
  and use no link that the merge misses.
\<close>

lemma merge_deploys_design:
  assumes "serving require icon types c" "distinct (design_ids (design_of c))" "valid_design types new_d"
    and "no_missed_link (design_of c) new_d"
  shows "\<exists>c'. apply_merge (direct depth require icon) (doMerge structural (design_of c) new_d) c = (None, c') \<and>
    serving require icon types c' \<and> set (dd_plugins (design_of c')) = set (dd_plugins new_d) \<and>
    set (dd_hardware (design_of c')) = set (dd_hardware new_d) \<and> set (dd_links (design_of c')) = set (dd_links new_d)"
proof -
  obtain d' where d': "spec_run types (map snd (apply_tasks (doMerge structural (design_of c) new_d))) (view c) = Some d'"
      "set (map snd (ps_plugins d')) = set (dd_plugins new_d)" "set (map snd (ps_hardware d')) = set (dd_hardware new_d)"
      "set (ps_links d') = set (dd_links new_d)"
    using merge_spec_run[OF serving_view(1-3)[OF assms(1)] assms(2-4)] by blast
  obtain c' where "run_tasks (direct depth require icon) (map snd (apply_tasks (doMerge structural (design_of c) new_d))) c = (None, c')"
      "serving require icon types c'" "view c' = d'"
    using run_tasks_spec[OF assms(1) d'(1)] by blast
  with d'(2-4) show ?thesis by (simp add: apply_merge_def design_of_def)
qed

lemma sample_design_of: "design_of sample_core = sample_design"
  by (simp add: design_of_def sample_view sample_design_def)

end
