(* ===== verification/DesignerServer.thy ===== *)
theory DesignerServer
  imports MergeApply UiPage
begin

section \<open>The server of the designer\<close>

text \<open>
  \<open>mylife-home-core-designer/app.js\<close> with \<open>componentManager.js\<close> and \<open>uiManager.js\<close>: each route asks the
  core's REST interface over a \<open>transport\<close>. \<open>async.parallel\<close> sends its requests in the order of its tasks; nothing
  else reaches the core in between. A hardware address is another device: what its answer
  holds is the parameter \<open>device\<close>, with what its parser does.
\<close>

definition coreUrl :: "string \<Rightarrow> string" where
  "coreUrl url = (if url \<noteq> [] \<and> last url = CHR ''/'' then url else url @ ''/'')"

text \<open>An operation with a callback calls it with an error or a value, or throws outside every \<open>try\<close>, which ends the process.\<close>

datatype 'a outcome = Called "js_error + 'a" | Thrown js_error

fun and_then :: "'a outcome \<Rightarrow> ('a \<Rightarrow> 'b outcome) \<Rightarrow> 'b outcome" where
  "and_then (Called (Inr x)) f = f x"
| "and_then (Called (Inl e)) f = Called (Inl e)"
| "and_then (Thrown e) f = Thrown e"

text \<open>
  \<open>fetch\<close> parses the body whatever the status. The routes that it asks for have no \<open>try\<close> in the core: what they throw
  is answered by the error handler of express, which writes the text of the error when the request, like these,
  accepts no type in particular, and express also answers an unknown path with a text. A text is no JSON: the parser throws in the
  callback of the request.
\<close>

fun parsed :: "js_error + response \<Rightarrow> response outcome" where
  "parsed (Inl e) = Called (Inl e)"
| "parsed (Inr (RError _)) = Thrown LoadFailed"
| "parsed (Inr (RText _)) = Thrown LoadFailed"
| "parsed (Inr r) = Called (Inr r)"

definition fetch :: "transport \<Rightarrow> request \<Rightarrow> core \<Rightarrow> response outcome \<times> core" where
  "fetch send q c = (case send q c of (r, c') \<Rightarrow> (parsed r, c'))"

subsection \<open>Components\<close>

record core_data =
  cd_plugins :: response
  cd_pluginTypes :: response
  cd_hardware :: response
  cd_links :: response

text \<open>
  \<open>data\<close>: all four requests are sent, and the answers come in their order: the first error is reported, unless an answer
  before it ended the process.
\<close>

definition component_data :: "transport \<Rightarrow> core \<Rightarrow> core_data outcome \<times> core" where
  "component_data send c =
     (case fetch send GetPlugins c of (r1, c1) \<Rightarrow>
        (case fetch send GetPluginTypes c1 of (r2, c2) \<Rightarrow>
           (case fetch send GetHardware c2 of (r3, c3) \<Rightarrow>
              (case fetch send GetLinks c3 of (r4, c4) \<Rightarrow>
                 (and_then r1 (\<lambda>ps. and_then r2 (\<lambda>ts. and_then r3 (\<lambda>hs. and_then r4 (\<lambda>ls.
                    Called (Inr \<lparr>cd_plugins = ps, cd_pluginTypes = ts, cd_hardware = hs, cd_links = ls\<rparr>))))),
                  c4)))))"

text \<open>\<open>merge\<close> reads the lists in the callback; an answer of another kind than a list is outside the model and taken for a throw.\<close>

definition merge :: "item_equality \<Rightarrow> transport \<Rightarrow> design_data \<Rightarrow> core \<Rightarrow> merge_data outcome \<times> core" where
  "merge deq send newData c =
     (case component_data send c of (r, c') \<Rightarrow>
        (and_then r (\<lambda>cd.
           case (cd_plugins cd, cd_hardware cd, cd_links cd) of
             (RPlugins ps, RHardware hs, RLinks ls) \<Rightarrow>
               Called (Inr (doMerge deq \<lparr>dd_plugins = ps, dd_hardware = hs, dd_links = ls\<rparr> newData))
           | _ \<Rightarrow> Thrown TypeErr),
         c'))"

subsection \<open>Interface\<close>

text \<open>\<open>set\<close> does not look at the status either; the package parses its answer.\<close>

definition ui_get :: "transport \<Rightarrow> core \<Rightarrow> response outcome \<times> core" where
  "ui_get send = fetch send GetUi"

definition ui_set :: "transport \<Rightarrow> string \<Rightarrow> core \<Rightarrow> response outcome \<times> core" where
  "ui_set send u c = (case send (PostUi u) c of (r, c') \<Rightarrow> (Called r, c'))"

definition ui_server_components :: "transport \<Rightarrow> core \<Rightarrow> d_component list outcome \<times> core" where
  "ui_server_components send c =
     (case fetch send GetPlugins c of (r1, c1) \<Rightarrow>
        (case fetch send GetPluginTypes c1 of (r2, c2) \<Rightarrow>
           (and_then r1 (\<lambda>ps. and_then r2 (\<lambda>ts.
              case (ps, ts) of
                (RPlugins ps, RTypes ts) \<Rightarrow> Called (Inr (ui_components ts ps))
              | _ \<Rightarrow> Thrown TypeErr)),
            c2)))"

subsection \<open>Routes\<close>

datatype designer_request =
    GetComponentData | PostHardwareUrl string | PostMerge design_data | PostApply merge_data
  | GetUiData | PostUiData string | GetUiComponents

datatype designer_response =
    DData core_data | DHardware "hw_config list" | DMerge merge_data | DApplied | DUi response | DComponents "d_component list"
  | DError js_error

text \<open>The handlers: the callback's error with status 500, or its value; the throw that ends the process instead.\<close>

fun reply :: "('a \<Rightarrow> designer_response) \<Rightarrow> 'a outcome \<times> core \<Rightarrow> (js_error + designer_response) \<times> core" where
  "reply f (Called (Inl e), c) = (Inr (DError e), c)"
| "reply f (Called (Inr x), c) = (Inr (f x), c)"
| "reply f (Thrown e, c) = (Inl e, c)"

fun designer_handle :: "item_equality \<Rightarrow> transport \<Rightarrow> (string \<Rightarrow> hw_config list outcome) \<Rightarrow> designer_request \<Rightarrow>
    core \<Rightarrow> (js_error + designer_response) \<times> core" where
  "designer_handle deq send device GetComponentData c = reply DData (component_data send c)"
| "designer_handle deq send device (PostHardwareUrl url) c = reply DHardware (device url, c)"
| "designer_handle deq send device (PostMerge newData) c = reply DMerge (merge deq send newData c)"
| "designer_handle deq send device (PostApply md) c =
     (case apply_merge send md c of (Some e, c') \<Rightarrow> (Inr (DError e), c') | (None, c') \<Rightarrow> (Inr DApplied, c'))"
| "designer_handle deq send device GetUiData c = reply DUi (ui_get send c)"
| "designer_handle deq send device (PostUiData u) c = reply DUi (ui_set send u c)"
| "designer_handle deq send device GetUiComponents c = reply DComponents (ui_server_components send c)"

subsection \<open>The whole way\<close>

lemma serving_lists:
  assumes "serving require icon types c"
  shows "map (pk_config \<circ> snd) (pluginContainers c) = dd_plugins (design_of c)"
    "map (hi_config \<circ> snd) (hardware c) = dd_hardware (design_of c)"
    "map (\<lambda>(k, li). (li_id li, li_config li)) (links c) = dd_links (design_of c)"
proof -
  show "map (pk_config \<circ> snd) (pluginContainers c) = dd_plugins (design_of c)"
    "map (hi_config \<circ> snd) (hardware c) = dd_hardware (design_of c)"
    by (simp_all add: design_of_def view_def map_snd_dmap)
  have "keyed li_id (links c)"
    using servingD(1)[OF assms] by (simp add: core_inv_def running_inv_def lreg.well_keyed_def)
  then show "map (\<lambda>(k, li). (li_id li, li_config li)) (links c) = dd_links (design_of c)"
    by (auto simp: design_of_def view_def dmap_def keyed_def)
qed

lemma component_data_serving:
  assumes "serving require icon types c"
  shows "component_data (direct depth require icon) c =
    (Called (Inr \<lparr>cd_plugins = RPlugins (dd_plugins (design_of c)), cd_pluginTypes = RTypes (map snd types),
       cd_hardware = RHardware (dd_hardware (design_of c)), cd_links = RLinks (dd_links (design_of c))\<rparr>), with_types types c)"
  using serving_lists[OF assms] checkPluginTypes_available[OF servingD(5)[OF assms]]
  by (simp add: component_data_def fetch_def direct_def respond_def getPlugins_def getPluginTypes_def plugin_types_def
      getHardware_def getLinks_def op_defs readE_def with_types_def)

lemma design_eta: "\<lparr>dd_plugins = dd_plugins d, dd_hardware = dd_hardware d, dd_links = dd_links d\<rparr> = d"
  by simp

lemma design_of_with_types [simp]: "design_of (with_types types c) = design_of c"
  by (simp add: design_of_def)

text \<open>
  The designer's two requests deploy a design: the merge of the running design with the edited one
  is answered, applying it succeeds, and the core then serves the edited design. The edited design
  must be one the core can run and use no link that the merge misses.
\<close>

theorem designer_deploys_design:
  assumes "serving require icon types c" "distinct (design_ids (design_of c))" "valid_design types new_d"
    and "no_missed_link (design_of c) new_d"
  shows "\<exists>md c1 c2. designer_handle structural (direct depth require icon) device (PostMerge new_d) c = (Inr (DMerge md), c1) \<and>
    designer_handle structural (direct depth require icon) device (PostApply md) c1 = (Inr DApplied, c2) \<and>
    serving require icon types c2 \<and> set (dd_plugins (design_of c2)) = set (dd_plugins new_d) \<and>
    set (dd_hardware (design_of c2)) = set (dd_hardware new_d) \<and> set (dd_links (design_of c2)) = set (dd_links new_d)"
proof -
  let ?md = "doMerge structural (design_of c) new_d" and ?c1 = "with_types types c"
  have m: "designer_handle structural (direct depth require icon) device (PostMerge new_d) c = (Inr (DMerge ?md), ?c1)"
    using component_data_serving[OF assms(1), of depth]
    by (simp add: merge_def design_eta)
  have "serving require icon types ?c1" using assms(1) by (rule serving_with_types)
  from merge_deploys_design[OF this, of new_d depth] assms(2-4)
  obtain c2 where "apply_merge (direct depth require icon) ?md ?c1 = (None, c2)" "serving require icon types c2"
      "set (dd_plugins (design_of c2)) = set (dd_plugins new_d)" "set (dd_hardware (design_of c2)) = set (dd_hardware new_d)"
      "set (dd_links (design_of c2)) = set (dd_links new_d)" by auto
  with m show ?thesis by (intro exI[of _ ?md] exI[of _ ?c1] exI[of _ c2]) simp
qed

theorem designer_deploys_design_witness:
  "\<exists>md c1 c2. designer_handle structural (direct 20 repo_require sample_icon) (\<lambda>url. Thrown LoadFailed)
      (PostMerge (moved ''lamp'' sample_design)) sample_core = (Inr (DMerge md), c1) \<and>
    designer_handle structural (direct 20 repo_require sample_icon) (\<lambda>url. Thrown LoadFailed) (PostApply md) c1 = (Inr DApplied, c2) \<and>
    serving repo_require sample_icon sample_types c2 \<and>
    set (dd_plugins (design_of c2)) = set (dd_plugins (moved ''lamp'' sample_design)) \<and>
    set (dd_hardware (design_of c2)) = set (dd_hardware (moved ''lamp'' sample_design)) \<and>
    set (dd_links (design_of c2)) = set (dd_links (moved ''lamp'' sample_design))"
proof (rule designer_deploys_design[OF sample_serving])
  show "distinct (design_ids (design_of sample_core))" unfolding sample_design_of by code_simp
  show "valid_design sample_types (moved ''lamp'' sample_design)" by code_simp
  show "no_missed_link (design_of sample_core) (moved ''lamp'' sample_design)" unfolding sample_design_of by code_simp
qed

text \<open>
  An error of the core ends the designer: without a stored description of the interface the request for it gets no answer, and a
  plugin directory that does not load takes every request for the component data with it.
\<close>

lemma missing_description_ends_designer:
  assumes "ui_cache c = None" "ui_file c = None"
  shows "designer_handle deq (direct depth require icon) device GetUiData c = (Inl LoadFailed, c)"
  using assms by (simp add: ui_get_def fetch_def direct_def respond_def data_getUi_def)

lemma failed_types_end_designer:
  assumes "pluginTypes c = None" "refresh_files require icon (plugin_dir c) [] = (Some e, ts)"
  shows "fst (designer_handle deq (direct depth require icon) device GetComponentData c) = Inl LoadFailed"
  using assms
  by (simp add: component_data_def fetch_def direct_def respond_def getPlugins_def getPluginTypes_def plugin_types_def
      checkPluginTypes_def refreshPluginTypes_def getHardware_def getLinks_def op_defs readE_def split: prod.split)

end
