(* ===== verification/UiServer.thy ===== *)
theory UiServer
  imports DesignerServer
begin

section \<open>The server of the interface\<close>

text \<open>
  \<open>mylife-home-ui/structure.js\<close> with its requests, and the route \<open>/structure\<close> of \<open>app.js\<close>. The interface description is text for
  the core; reading it as windows is the parameter \<open>decode\<close>, undefined for a value without the fields that the code
  reads. As in \<open>DesignerServer\<close> the three requests reach the core in the order in which they are sent.
\<close>

text \<open>The requests are made as in the designer: an error of the core comes as a text, whose parsing throws.\<close>

definition structure_fetch :: "transport \<Rightarrow> request \<Rightarrow> core \<Rightarrow> response outcome \<times> core" where
  "structure_fetch send q c = (case send q c of (r, c') \<Rightarrow> (parsed r, c'))"

text \<open>The filtering in the callback; a value that lacks what is read of it throws.\<close>

definition structure_data :: "(string \<Rightarrow> ui_data option) \<Rightarrow> response \<Rightarrow> response \<Rightarrow> response \<Rightarrow> ui_data outcome" where
  "structure_data decode ui ps ts =
     (case (ts, ps, ui) of
        (RTypes types, RPlugins plugins, RUi u) \<Rightarrow>
          (case decode u of None \<Rightarrow> Thrown TypeErr | Some d \<Rightarrow> Called (Inr (structure_get d plugins types)))
      | _ \<Rightarrow> Thrown TypeErr)"

definition structure_reply :: "(string \<Rightarrow> ui_data option) \<Rightarrow> transport \<Rightarrow> core \<Rightarrow> ui_data outcome \<times> core" where
  "structure_reply decode send c =
     (case structure_fetch send GetUi c of (r1, c1) \<Rightarrow>
        (case structure_fetch send GetPlugins c1 of (r2, c2) \<Rightarrow>
           (case structure_fetch send GetPluginTypes c2 of (r3, c3) \<Rightarrow>
              (and_then r1 (\<lambda>ui. and_then r2 (\<lambda>ps. and_then r3 (\<lambda>ts. structure_data decode ui ps ts))), c3))))"

text \<open>The route: status and body; nothing is answered when the callback threw.\<close>

fun structure_route :: "ui_data outcome \<Rightarrow> (nat \<times> (js_error + ui_data)) option" where
  "structure_route (Called (Inl e)) = Some (500, Inl e)"
| "structure_route (Called (Inr d)) = Some (200, Inr d)"
| "structure_route (Thrown e) = None"

subsection \<open>Lookups in the filtered lists\<close>

lemma refresh_files_keyed:
  "refresh_files require icon fs types = (e, types') \<Longrightarrow> keyed pt_id types \<Longrightarrow> keyed pt_id types'"
proof (induction fs arbitrary: types)
  case (Cons f fs)
  have "keyed pt_id (jset n (make_plugin_type icon n k) types)" for n k
    using Cons.prems(2) by (rule keyed_jset) (simp add: make_plugin_type_def)
  with Cons show ?case by (auto split: if_splits sum.splits)
qed simp

text \<open>Every entry of a keyed dictionary is found by its key among the kept values.\<close>

lemma keyed_find:
  assumes "keyed key d" "jget d k = Some x" "P x"
  shows "arrayFind (arrayKeepIf (map snd d) P) (\<lambda>y. k = key y) = Some x"
proof -
  have only: "y = x" if y: "y \<in> set (filter P (map snd d))" "k = key y" for y
  proof -
    obtain j where j: "(j, y) \<in> set d" using y(1) by auto
    then have "j = k" "distinct (jkeys d)" using assms(1) y(2) by (auto simp: keyed_def)
    with map_of_is_SomeI[of d k y] j assms(2) show ?thesis by simp
  qed
  have "(k, x) \<in> set d" using assms(2) by (rule map_of_SomeD)
  then have mem: "x \<in> set (filter P (map snd d))" "k = key x"
    using assms(1,3) by (force, auto simp: keyed_def)
  obtain y where y: "arrayFind (filter P (map snd d)) (\<lambda>y. k = key y) = Some y"
    using mem arrayFind_None[of "filter P (map snd d)" "\<lambda>y. k = key y"] by (metis not_Some_eq)
  have "y = x" using arrayFind_Some[OF y] only by blast
  with y show ?thesis by (simp add: arrayKeepIf_def)
qed

lemma kept_type:
  assumes "keyed pt_id types" "jget types (pc_type p) = Some t" "pt_ui t"
  shows "getPluginType (keep_ui_types (map snd types)) p = Some t"
  using keyed_find[where P = pt_ui, OF assms] by (simp add: getPluginType_def keep_ui_types_def)

lemma kept_plugin:
  assumes "keyed (pc_id \<circ> pk_config) ks" "jget ks i = Some k" "getPluginType ts (pk_config k) = Some t"
  shows "getComponentPlugin (keep_ui_plugins ts (map (pk_config \<circ> snd) ks)) i = Some (pk_config k)"
proof -
  have "keyed pc_id (dmap pk_config ks)" using assms(1) by (auto simp: keyed_def dmap_def case_prod_beta comp_def)
  moreover have "list_ex (\<lambda>t. pc_type (pk_config k) = pt_id t) ts"
    using assms(3) by (auto simp: getPluginType_def list_ex_iff dest: arrayFind_Some)
  ultimately show ?thesis
    using keyed_find[of pc_id "dmap pk_config ks" i "pk_config k" "\<lambda>p. list_ex (\<lambda>t. pc_type p = pt_id t) ts"] assms(2)
    by (simp add: getComponentPlugin_def keep_ui_plugins_def map_snd_dmap)
qed

subsection \<open>What is served\<close>

lemma getUi_frame:
  assumes "data_getUi c = (r, c1)"
  shows "view c1 = view c" "core_inv c \<Longrightarrow> core_inv c1" "pluginContainers c1 = pluginContainers c"
    "types_available require icon types c1 = types_available require icon types c"
  using assms
  by (auto simp: data_getUi_def view_def types_available_def intro: core_inv_cong split: option.splits)

text \<open>The three answers of a core with a stored description: its plugins and types, and nothing changes.\<close>

lemma structure_served:
  assumes "types_available require icon types c" "data_getUi c = (Inr u, c1)" "decode u = Some d"
  shows "structure_reply decode (direct depth require icon) c =
    (Called (Inr (structure_get d (map (pk_config \<circ> snd) (pluginContainers c)) (map snd types))), with_types types c1)"
proof -
  have "types_available require icon types c1" using assms(1) getUi_frame(4)[OF assms(2)] by simp
  from checkPluginTypes_available[OF this] show ?thesis
    using assms(2,3) getUi_frame(3)[OF assms(2)]
    by (simp add: structure_reply_def structure_fetch_def direct_def respond_def structure_data_def getPlugins_def
        getPluginTypes_def plugin_types_def op_defs readE_def with_types_def)
qed

text \<open>A core without a stored description answers an error, and the server ends.\<close>

lemma missing_description_throws:
  assumes "types_available require icon types c" "ui_cache c = None" "ui_file c = None"
  shows "structure_route (fst (structure_reply decode (direct depth require icon) c)) = None"
  using checkPluginTypes_available[OF assms(1)] assms(2,3)
  by (simp add: structure_reply_def structure_fetch_def direct_def respond_def structure_data_def getPlugins_def data_getUi_def
      getPluginTypes_def plugin_types_def op_defs readE_def)

text \<open>
  C20: What the page shows is what the core announces, through the three processes: the interface server
  answers with the windows stored in the core, without changing the configuration; and when a
  command displays an attribute of a running plugin made for the interface, the browser that has received the nick of the
  component finds, under the index in the answer, the value that the component announced.
\<close>

theorem page_shows_announced_value:
  assumes inv: "core_inv c" and types: "types_available require icon types c" "keyed pt_id types"
    and ui: "data_getUi c = (Inr u, c1)" "decode u = Some d"
    and shown: "w \<in> set (ui_windows d)" "cmd \<in> set (win_commands w)" "dsp_component (cmd_display cmd) = i"
      "dsp_attribute (cmd_display cmd) = a" "i \<noteq> []" "a \<noteq> []"
    and running: "jget (pluginContainers c) i = Some k" "jget types (pc_type (pk_config k)) = Some t" "pt_ui t"
      "heap (net c) (ct_object (pk_net k)) = Some ob" "obj_class ob = pt_class t" "a \<in> set (attribute_names (members (pt_class t)))"
    and nick: "makeNick ob = Inr nick" "wf_class (obj_class ob)" "CHR ''|'' \<notin> set i"
      "\<forall>n \<in> set (attribute_names (members (obj_class ob))). CHR ''|'' \<notin> set (to_str (attr_value ob n))"
  shows "\<exists>served c'. structure_reply decode (direct depth require icon) c = (Called (Inr served), c') \<and>
    view c' = view c \<and> core_inv c' \<and>
    (\<exists>w' \<in> set (ui_windows served). \<exists>cmd' \<in> set (win_commands w'). win_id w' = win_id w \<and> cmd_id cmd' = cmd_id cmd \<and>
       componentAttribute (snd (net_receive (SJoin nick) seen)) i (dsp_attributeIndex (cmd_display cmd')) =
         VStr (to_str (attr_value ob a)))"
proof -
  let ?ts = "keep_ui_types (map snd types)"
  let ?ps = "keep_ui_plugins ?ts (map (pk_config \<circ> snd) (pluginContainers c))"
  let ?index = "getAttributeIndex ?ts ?ps"
  have "keyed (pc_id \<circ> pk_config) (pluginContainers c)" "has_id (net c) (ct_object (pk_net k)) i"
    using inv running(1) by (auto simp: core_inv_def running_inv_def preg.well_keyed_def objects_owned_def dest: map_of_SomeD)
  then have id: "obj_id ob = i" and found: "getPluginType ?ts (pk_config k) = Some t" "getComponentPlugin ?ps i = Some (pk_config k)"
    using running(4) kept_type[OF types(2) running(2,3)] kept_plugin[OF _ running(1)] by (auto simp: has_id_def)
  have read: "componentAttribute (snd (net_receive (SJoin nick) seen)) i (?index i a) = VStr (to_str (attr_value ob a))"
    by (rule received_value[of ob nick ?ps "pk_config k" ?ts t a "SJoin nick", unfolded id])
      (use nick found running(5,6) in auto)
  let ?served = "structure_get d (map (pk_config \<circ> snd) (pluginContainers c)) (map snd types)"
  let ?cmd = "cmd\<lparr>cmd_display := fill_display ?index (cmd_display cmd)\<rparr>"
  have shown': "fill_window ?index w \<in> set (ui_windows ?served)" "?cmd \<in> set (win_commands (fill_window ?index w))"
    "win_id (fill_window ?index w) = win_id w" "cmd_id ?cmd = cmd_id cmd"
    using shown(1,2) by (simp_all add: structure_get_def fill_window_def Let_def)
  have "dsp_attributeIndex (cmd_display ?cmd) = ?index i a"
    using shown(3-6) by (simp add: fill_display_def)
  with shown' read have "\<exists>w' \<in> set (ui_windows ?served). \<exists>cmd' \<in> set (win_commands w'). win_id w' = win_id w \<and> cmd_id cmd' = cmd_id cmd \<and>
       componentAttribute (snd (net_receive (SJoin nick) seen)) i (dsp_attributeIndex (cmd_display cmd')) =
         VStr (to_str (attr_value ob a))"
    by (intro bexI[of _ "fill_window ?index w"] bexI[of _ ?cmd]) (simp_all only: simp_thms)
  moreover have "view (with_types types c1) = view c" "core_inv (with_types types c1)"
    using getUi_frame(1,2)[OF ui(1)] inv by (simp, simp add: with_types_def)
  ultimately show ?thesis
    using structure_served[where decode = decode, OF types(1) ui, of depth] by (intro exI[of _ ?served] exI[of _ "with_types types c1"]) simp
qed

text \<open>A core with the light \<open>lamp\<close> and the button \<open>btn\<close>, and a page that shows the light.\<close>

definition lamp_entry :: "string \<Rightarrow> string \<Rightarrow> container \<Rightarrow> plugin_container" where
  "lamp_entry i ty ct = \<lparr>pk_id = i, pk_typeId = ty, pk_config = sample_plugin i ty, pk_net = ct\<rparr>"

definition lamp_plugins :: "plugin_container dict" where
  "lamp_plugins =
     [(''btn'', lamp_entry ''btn'' ''button'' (plugin_publication (sample_pt Button) 0)),
      (''lamp'', lamp_entry ''lamp'' ''light'' (plugin_publication (sample_pt Light) 2))]"

definition lamp_data :: persisted where
  "lamp_data = \<lparr>ps_hardware = [], ps_plugins = dmap pk_config lamp_plugins, ps_links = []\<rparr>"

definition lamp_core :: core where
  "lamp_core = (fresh_process ''node-1'' repo_plugin_dir (Some lamp_data) (Some ''ui''))
     \<lparr>net := sample_net, pluginContainers := lamp_plugins, data_cache := Some lamp_data\<rparr>"

definition lamp_command :: ui_command where
  "lamp_command = \<lparr>cmd_id = ''light'', cmd_display = lamp_display, cmd_primary = ActNone, cmd_secondary = ActNone\<rparr>"

definition lamp_window :: ui_window where
  "lamp_window = \<lparr>win_id = ''main'', win_background = [], win_commands = [lamp_command], win_texts = []\<rparr>"

lemma lamp_core_inv: "core_inv lamp_core"
proof -
  have "jkeys (repository sample_net) = [''btn'', ''lamp'']"
    by (simp add: sample_net_def plugin_published_def empty_world_def)
  then show ?thesis
    using sample_net_typed
    by (simp add: core_inv_def running_inv_def data_synced_def lamp_core_def fresh_process_def preg.well_keyed_def hreg.well_keyed_def
        lreg.well_keyed_def links_connected_def published_owned_def objects_owned_def component_ids_def lamp_plugins_def
        lamp_entry_def keyed_def sample_plugin_def sample_net_heap has_id_def plugin_object_def plugin_publication_def
        sample_net_repository lamp_data_def)
qed

theorem page_shows_announced_value_witness:
  "\<exists>served c'. structure_reply (\<lambda>u. Some (lamp_ui\<lparr>ui_windows := [lamp_window]\<rparr>)) (direct 20 repo_require sample_icon) lamp_core =
      (Called (Inr served), c') \<and> view c' = view lamp_core \<and> core_inv c' \<and>
    (\<exists>w' \<in> set (ui_windows served). \<exists>cmd' \<in> set (win_commands w'). win_id w' = win_id lamp_window \<and> cmd_id cmd' = cmd_id lamp_command \<and>
       componentAttribute (snd (net_receive (SJoin ''lamp|off'') empty_net)) ''lamp'' (dsp_attributeIndex (cmd_display cmd')) =
         VStr (to_str (attr_value (plugin_object ''lamp'' Light 3 (initial_values Light)) ''output'')))"
proof (rule page_shows_announced_value[OF lamp_core_inv])
  show "types_available repo_require sample_icon sample_types lamp_core"
    using sample_files by (simp add: types_available_def lamp_core_def fresh_process_def)
  show "keyed pt_id sample_types" using refresh_files_keyed[OF sample_files] by simp
  show "data_getUi lamp_core = (Inr ''ui'', lamp_core\<lparr>ui_cache := Some ''ui''\<rparr>)"
    by (simp add: data_getUi_def lamp_core_def fresh_process_def)
  show "(\<lambda>u. Some (lamp_ui\<lparr>ui_windows := [lamp_window]\<rparr>)) ''ui'' = Some (lamp_ui\<lparr>ui_windows := [lamp_window]\<rparr>)" by simp
  show "lamp_window \<in> set (ui_windows (lamp_ui\<lparr>ui_windows := [lamp_window]\<rparr>))" by simp
  show "jget (pluginContainers lamp_core) ''lamp'' = Some (lamp_entry ''lamp'' ''light'' (plugin_publication (sample_pt Light) 2))"
    by (simp add: lamp_core_def fresh_process_def lamp_plugins_def)
  show "jget sample_types (pc_type (pk_config (lamp_entry ''lamp'' ''light'' (plugin_publication (sample_pt Light) 2)))) =
      Some (make_plugin_type sample_icon ''light'' Light)"
    by code_simp
  show "heap (net lamp_core) (ct_object (pk_net (lamp_entry ''lamp'' ''light'' (plugin_publication (sample_pt Light) 2)))) =
      Some (plugin_object ''lamp'' Light 3 (initial_values Light))"
    by (simp add: lamp_core_def lamp_entry_def plugin_publication_def sample_net_heap)
  show "makeNick (plugin_object ''lamp'' Light 3 (initial_values Light)) = Inr ''lamp|off''"
    by (simp add: makeNick_plugin plugin_nick_def plugin_value_def plugin_class_defs net_builders initial_values_def)
qed (simp_all add: lamp_window_def lamp_command_def lamp_display_def lamp_defs make_plugin_type_def wf_class_def initial_values_def plugin_value_def)

end
