(* ===== verification/PageTools.thy ===== *)
theory PageTools
  imports UiPage
begin

section \<open>Splitters, dialogs and file input of the designer's pages\<close>

text \<open>
  \<open>public/app/tools.js\<close> of the designer (the directive \<open>splitter\<close> and what its dialogs show) and
  \<open>public/app/ui/fileReader.js\<close>. Sizes are whole pixels. A box has a content size and, on each axis, the space
  of its padding and border; the panes that can be dragged have neither, so their CSS width is the
  content width under both box models.
\<close>

subsection \<open>Splitters\<close>

record box =
  bx_width :: int
  bx_height :: int
  bx_hextra :: int       \<comment> \<open>horizontal padding and border\<close>
  bx_vextra :: int
  bx_left :: int
  bx_top :: int

definition outerWidth :: "box \<Rightarrow> int" where
  "outerWidth b = bx_width b + bx_hextra b"

definition outerHeight :: "box \<Rightarrow> int" where
  "outerHeight b = bx_height b + bx_vextra b"

text \<open>jQuery's \<open>width(value)\<close> and \<open>height(value)\<close> set the content size, never below zero (\<open>setPositiveNumber\<close>).\<close>

definition set_width :: "int \<Rightarrow> box \<Rightarrow> box" where
  "set_width v b = b\<lparr>bx_width := max 0 v\<rparr>"

definition set_height :: "int \<Rightarrow> box \<Rightarrow> box" where
  "set_height v b = b\<lparr>bx_height := max 0 v\<rparr>"

record panes =
  pn_container :: "int \<times> int"    \<comment> \<open>content width and height\<close>
  pn_first :: box
  pn_second :: box

definition resizeRight :: "panes \<Rightarrow> panes" where
  "resizeRight p =
     (let remainingSpace = fst (pn_container p) - outerWidth (pn_first p);
          rightPos = outerWidth (pn_first p);
          rightWidth = remainingSpace - (outerWidth (pn_second p) - bx_width (pn_second p))
      in p\<lparr>pn_second := (set_width rightWidth (pn_second p))\<lparr>bx_left := rightPos, bx_top := 0\<rparr>\<rparr>)"

definition resizeBottom :: "panes \<Rightarrow> panes" where
  "resizeBottom p =
     (let remainingSpace = snd (pn_container p) - outerHeight (pn_first p);
          bottomPos = outerHeight (pn_first p);
          bottomHeight = remainingSpace - (outerHeight (pn_second p) - bx_height (pn_second p))
      in p\<lparr>pn_second := (set_height bottomHeight (pn_second p))\<lparr>bx_top := bottomPos, bx_left := 0\<rparr>\<rparr>)"

datatype direction = Horizontal | Vertical

text \<open>The object that the attribute evaluates to; \<open>None\<close> for an attribute without a value.\<close>

record splitter_options =
  so_direction :: "string option"
  so_min :: "int option"
  so_max :: "int option"

definition splitter_direction :: "splitter_options option \<Rightarrow> direction" where
  "splitter_direction options =
     (case options of
        None \<Rightarrow> Vertical
      | Some o' \<Rightarrow> if so_direction o' = Some ''horizontal'' then Horizontal else Vertical)"

definition splitter_min :: "splitter_options option \<Rightarrow> int option" where
  "splitter_min options = Option.bind options so_min"

definition splitter_max :: "splitter_options option \<Rightarrow> int option" where
  "splitter_max options = Option.bind options so_max"

text \<open>
  What the resizable makes of a size asked for (\<open>_respectSize\<close>): its default lower bound is 10, a bound of zero is none,
  both tests look at the size asked for, and the upper bound is applied last.
\<close>

definition respectSize :: "int option \<Rightarrow> int option \<Rightarrow> int \<Rightarrow> int" where
  "respectSize minSize maxSize v =
     (let lo = (case minSize of None \<Rightarrow> 10 | Some k \<Rightarrow> k)
      in case maxSize of
           Some hi \<Rightarrow> if hi \<noteq> 0 \<and> hi < v then hi else if lo \<noteq> 0 \<and> lo > v then lo else v
         | None \<Rightarrow> if lo \<noteq> 0 \<and> lo > v then lo else v)"

text \<open>A drag of the edge: the handler of \<open>resize\<close> runs only when the size changed.\<close>

definition drag_edge :: "direction \<Rightarrow> splitter_options option \<Rightarrow> int \<Rightarrow> panes \<Rightarrow> panes" where
  "drag_edge dir options v p =
     (let size = respectSize (splitter_min options) (splitter_max options) v
      in case dir of
           Vertical \<Rightarrow>
             if size = bx_width (pn_first p) then p
             else resizeRight (p\<lparr>pn_first := set_width size (pn_first p)\<rparr>)
         | Horizontal \<Rightarrow>
             if size = bx_height (pn_first p) then p
             else resizeBottom (p\<lparr>pn_first := set_height size (pn_first p)\<rparr>))"

text \<open>What happens to a splitter: its first layout, a new size of the window, another tab, a drag.\<close>

datatype split_event = LayoutTimeout | WindowResize int int | TabSelect | DragEdge int

definition second_resized :: "direction \<Rightarrow> panes \<Rightarrow> panes" where
  "second_resized dir = (case dir of Vertical \<Rightarrow> resizeRight | Horizontal \<Rightarrow> resizeBottom)"

fun split_step :: "splitter_options option \<Rightarrow> panes \<Rightarrow> split_event \<Rightarrow> panes" where
  "split_step options p LayoutTimeout = second_resized (splitter_direction options) p"
| "split_step options p (WindowResize w h) =
     second_resized (splitter_direction options) (p\<lparr>pn_container := (w, h)\<rparr>)"
| "split_step options p TabSelect = second_resized (splitter_direction options) p"
| "split_step options p (DragEdge v) = drag_edge (splitter_direction options) options v p"

definition split_run :: "splitter_options option \<Rightarrow> panes \<Rightarrow> split_event list \<Rightarrow> panes" where
  "split_run options = foldl (split_step options)"

text \<open>The second pane starts where the first ends, and both fill the container when they fit.\<close>

definition tiled :: "direction \<Rightarrow> panes \<Rightarrow> bool" where
  "tiled dir p =
     (case dir of
        Vertical \<Rightarrow>
          bx_left (pn_second p) = outerWidth (pn_first p) \<and> bx_top (pn_second p) = 0 \<and>
          outerWidth (pn_first p) + outerWidth (pn_second p) =
            max (fst (pn_container p)) (outerWidth (pn_first p) + bx_hextra (pn_second p))
      | Horizontal \<Rightarrow>
          bx_top (pn_second p) = outerHeight (pn_first p) \<and> bx_left (pn_second p) = 0 \<and>
          outerHeight (pn_first p) + outerHeight (pn_second p) =
            max (snd (pn_container p)) (outerHeight (pn_first p) + bx_vextra (pn_second p)))"

lemma resize_tiles: "tiled Vertical (resizeRight p)" "tiled Horizontal (resizeBottom p)"
  by (simp_all add: tiled_def resizeRight_def resizeBottom_def set_width_def set_height_def outerWidth_def
      outerHeight_def Let_def max_def)

lemma split_step_tiled:
  "(\<forall>v. e \<noteq> DragEdge v) \<or> tiled (splitter_direction options) p \<Longrightarrow>
     tiled (splitter_direction options) (split_step options p e)"
  by (cases "splitter_direction options"; cases e)
    (auto simp: second_resized_def drag_edge_def Let_def resize_tiles)

lemma split_run_tiled:
  "tiled (splitter_direction options) p \<Longrightarrow> tiled (splitter_direction options) (split_run options p es)"
  by (induction es arbitrary: p) (auto simp: split_run_def split_step_tiled)

lemma respectSize_bounds:
  "0 \<le> respectSize (Some lo) (Some hi) v" "lo \<le> respectSize (Some lo) (Some hi) v"
  "respectSize (Some lo) (Some hi) v \<le> hi" if "0 < lo" "lo \<le> hi"
  using that by (auto simp: respectSize_def)

definition first_size :: "direction \<Rightarrow> panes \<Rightarrow> int" where
  "first_size dir p = (case dir of Vertical \<Rightarrow> bx_width (pn_first p) | Horizontal \<Rightarrow> bx_height (pn_first p))"

lemma split_step_first_size:
  assumes "splitter_min options = Some lo" "splitter_max options = Some hi" "0 < lo" "lo \<le> hi"
    and "first_size (splitter_direction options) p \<in> {lo..hi}"
  shows "first_size (splitter_direction options) (split_step options p e) \<in> {lo..hi}"
  using assms respectSize_bounds[OF assms(3,4)]
  by (cases "splitter_direction options"; cases e)
    (auto simp: first_size_def second_resized_def resizeRight_def resizeBottom_def drag_edge_def set_width_def
      set_height_def Let_def max_def)

lemma split_run_first_size:
  assumes "splitter_min options = Some lo" "splitter_max options = Some hi" "0 < lo" "lo \<le> hi"
    and "first_size (splitter_direction options) p \<in> {lo..hi}"
  shows "first_size (splitter_direction options) (split_run options p es) \<in> {lo..hi}"
  using assms(5)
proof (induction es arbitrary: p)
  case (Cons e es)
  show ?case using Cons.IH[OF split_step_first_size[OF assms(1-4) Cons.prems]] by (simp add: split_run_def)
qed (simp add: split_run_def)

lemma split_run_append: "split_run options p (es @ es') = split_run options (split_run options p es) es'"
  by (simp add: split_run_def)

text \<open>
  After the first layout the panes are laid out side by side whatever the user does: the second starts where the first
  ends and they fill the container exactly, unless the first alone is larger; and the first keeps to the bounds of the page.
\<close>

theorem panes_fill_container:
  assumes "splitter_min options = Some lo" "splitter_max options = Some hi" "0 < lo" "lo \<le> hi"
    and "first_size (splitter_direction options) p \<in> {lo..hi}"
  shows "tiled (splitter_direction options) (split_run options p (es @ LayoutTimeout # es')) \<and>
    first_size (splitter_direction options) (split_run options p (es @ LayoutTimeout # es')) \<in> {lo..hi}"
proof
  have "tiled (splitter_direction options) (split_step options (split_run options p es) LayoutTimeout)"
    by (rule split_step_tiled) simp
  from split_run_tiled[OF this, of es']
  show "tiled (splitter_direction options) (split_run options p (es @ LayoutTimeout # es'))"
    by (simp add: split_run_def)
qed (rule split_run_first_size[OF assms])

text \<open>The left pane of the component page, 200 pixels wide at first.\<close>

definition leftpane_options :: "splitter_options option" where
  "leftpane_options = Some \<lparr>so_direction = Some ''vertical'', so_min = Some 110, so_max = Some 500\<rparr>"

definition page_panes :: panes where
  "page_panes = \<lparr>pn_container = (1024, 700), pn_first = \<lparr>bx_width = 200, bx_height = 700, bx_hextra = 0, bx_vextra = 0, bx_left = 0, bx_top = 0\<rparr>,
     pn_second = \<lparr>bx_width = 500, bx_height = 698, bx_hextra = 2, bx_vextra = 2, bx_left = 0, bx_top = 0\<rparr>\<rparr>"

theorem panes_fill_container_witness:
  "tiled (splitter_direction leftpane_options)
     (split_run leftpane_options page_panes ([] @ LayoutTimeout # [DragEdge 50, WindowResize 640 480, DragEdge 900])) \<and>
   first_size (splitter_direction leftpane_options)
     (split_run leftpane_options page_panes ([] @ LayoutTimeout # [DragEdge 50, WindowResize 640 480, DragEdge 900])) \<in> {110..500}"
  by (rule panes_fill_container)
    (simp_all add: leftpane_options_def splitter_min_def splitter_max_def first_size_def splitter_direction_def page_panes_def)

subsection \<open>What a dialog shows\<close>

text \<open>Parameters of a dialog; absent ones and empty texts give way to the defaults.\<close>

record dialog_params =
  dp_title :: jsval
  dp_text :: jsval
  dp_labelOk :: jsval
  dp_labelCancel :: jsval
  dp_defaultValue :: jsval

definition checkParam :: "jsval \<Rightarrow> jsval \<Rightarrow> jsval" where
  "checkParam param defaultValue = (if truthy param then param else defaultValue)"

record dialog_scope =
  dl_title :: jsval
  dl_text :: jsval
  dl_labelOk :: jsval

definition alert_scope :: "string \<Rightarrow> dialog_params \<Rightarrow> dialog_scope" where
  "alert_scope appTitle params =
     \<lparr>dl_title = checkParam (dp_title params) (VStr appTitle), dl_text = checkParam (dp_text params) (VStr []),
      dl_labelOk = checkParam (dp_labelOk params) (VStr ''Ok'')\<rparr>"

text \<open>Confirmation and prompt have a second button, the prompt an initial value.\<close>

definition confirm_scope :: "string \<Rightarrow> dialog_params \<Rightarrow> dialog_scope \<times> jsval" where
  "confirm_scope appTitle params = (alert_scope appTitle params, checkParam (dp_labelCancel params) (VStr ''Annuler''))"

definition prompt_scope :: "string \<Rightarrow> dialog_params \<Rightarrow> jsval \<times> dialog_scope \<times> jsval" where
  "prompt_scope appTitle params = (checkParam (dp_defaultValue params) (VStr []), confirm_scope appTitle params)"

text \<open>The scope and its ancestors, from the inside out, with their \<open>$id\<close>.\<close>

fun findScopeAncestor :: "(nat \<times> string) list \<Rightarrow> string \<Rightarrow> nat option" where
  "findScopeAncestor [] i = None"
| "findScopeAncestor ((s, sid) # parents) i = (if sid = i then Some s else findScopeAncestor parents i)"

subsection \<open>Reading a chosen file\<close>

text \<open>
  The directive \<open>inputData\<close>: a change of the chosen file starts a reader, whose data URL is assigned when it has loaded; a
  change to no file empties the value at once. A failed reader rejects its promise, for which there is no
  handler. \<open>url\<close> is what a reader makes of a file; several readers can be pending.
\<close>

record file_input =
  fi_files :: "string option"              \<comment> \<open>\<open>files[0]\<close>\<close>
  fi_value :: string                       \<comment> \<open>what the setter assigned\<close>
  fi_readers :: "(nat \<times> string) list"     \<comment> \<open>pending readers and their files\<close>
  fi_next :: nat

definition readAsDataURL :: "string \<Rightarrow> file_input \<Rightarrow> file_input" where
  "readAsDataURL f s = s\<lparr>fi_readers := fi_readers s @ [(fi_next s, f)], fi_next := Suc (fi_next s)\<rparr>"

definition file_change :: "string option \<Rightarrow> file_input \<Rightarrow> file_input" where
  "file_change files s =
     (case files of
        None \<Rightarrow> s\<lparr>fi_files := None, fi_value := []\<rparr>
      | Some f \<Rightarrow> readAsDataURL f (s\<lparr>fi_files := Some f\<rparr>))"

definition onLoad :: "(string \<Rightarrow> string) \<Rightarrow> nat \<Rightarrow> file_input \<Rightarrow> file_input" where
  "onLoad url k s =
     (case map_of (fi_readers s) k of
        None \<Rightarrow> s
      | Some f \<Rightarrow> s\<lparr>fi_value := url f, fi_readers := filter (\<lambda>(j, _). j \<noteq> k) (fi_readers s)\<rparr>)"

definition onError :: "nat \<Rightarrow> file_input \<Rightarrow> file_input" where
  "onError k s = s\<lparr>fi_readers := filter (\<lambda>(j, _). j \<noteq> k) (fi_readers s)\<rparr>"

inductive file_step :: "(string \<Rightarrow> string) \<Rightarrow> file_input \<Rightarrow> file_input \<Rightarrow> bool" for url where
  change: "file_step url s (file_change files s)"
| loaded: "file_step url s (onLoad url k s)"
| failed: "file_step url s (onError k s)"

text \<open>A user who waits: a file is chosen only when no reader is pending. Readers do not fail.\<close>

inductive waiting_step :: "(string \<Rightarrow> string) \<Rightarrow> file_input \<Rightarrow> file_input \<Rightarrow> bool" for url where
  change: "fi_readers s = [] \<Longrightarrow> waiting_step url s (file_change files s)"
| loaded: "waiting_step url s (onLoad url k s)"

inductive_simps waiting_step_iff: "waiting_step url s s'"

definition new_file_input :: file_input where
  "new_file_input = \<lparr>fi_files = None, fi_value = [], fi_readers = [], fi_next = 0\<rparr>"

text \<open>The value that the page should have for the chosen file.\<close>

definition file_value :: "(string \<Rightarrow> string) \<Rightarrow> file_input \<Rightarrow> string" where
  "file_value url s = (case fi_files s of None \<Rightarrow> [] | Some f \<Rightarrow> url f)"

definition file_settling :: "(string \<Rightarrow> string) \<Rightarrow> file_input \<Rightarrow> bool" where
  "file_settling url s \<longleftrightarrow>
     fi_readers s = [] \<and> fi_value s = file_value url s \<or>
     (\<exists>k f. fi_readers s = [(k, f)] \<and> fi_files s = Some f)"

lemma waiting_step_settling: "waiting_step url s s' \<Longrightarrow> file_settling url s \<Longrightarrow> file_settling url s'"
  by (auto simp: waiting_step_iff file_settling_def file_change_def readAsDataURL_def onLoad_def file_value_def
      split: option.splits if_splits)

lemma waiting_is_step: "waiting_step url s s' \<Longrightarrow> file_step url s s'"
  by (auto simp: waiting_step_iff intro: file_step.intros)

text \<open>While a file is being read the waiting user only sees readers end.\<close>

lemma waiting_pending: "waiting_step url s s' \<Longrightarrow> fi_readers s \<noteq> [] \<Longrightarrow> fi_files s' = fi_files s"
  by (auto simp: waiting_step_iff onLoad_def split: option.splits)

text \<open>
  For a user who waits for each file to be read, whatever is chosen, replaced or taken back, the value of the input
  is the data of the file that is chosen, and empty when none is, as soon as no reader is pending.
\<close>

theorem waited_file_is_value:
  assumes "(waiting_step url)\<^sup>*\<^sup>* new_file_input s" "fi_readers s = []"
  shows "fi_value s = file_value url s"
proof -
  have "file_settling url s"
    using assms(1)
  proof (induction rule: rtranclp_induct)
    case base
    show ?case by (simp add: new_file_input_def file_settling_def file_value_def)
  qed (rule waiting_step_settling)
  with assms(2) show ?thesis by (simp add: file_settling_def)
qed

theorem waited_file_is_value_witness:
  "fi_value (onLoad rev 0 (file_change (Some ''a.png'') new_file_input)) = ''gnp.a''"
proof -
  let ?s = "file_change (Some ''a.png'') new_file_input"
  have "waiting_step rev new_file_input ?s"
    by (rule waiting_step.intros) (simp add: new_file_input_def)
  then have "(waiting_step rev)\<^sup>*\<^sup>* new_file_input (onLoad rev 0 ?s)"
    using waiting_step.loaded[of rev ?s 0] by (meson converse_rtranclp_into_rtranclp r_into_rtranclp)
  from waited_file_is_value[OF this] show ?thesis
    by (simp add: file_change_def readAsDataURL_def onLoad_def new_file_input_def file_value_def)
qed

text \<open>A user who does not wait can end with the data of a file that is not the chosen one, or of one that was taken back.\<close>

inductive_cases file_stepE: "file_step url s s'"

lemma file_steps:
  "(file_step url)\<^sup>*\<^sup>* s0 s \<Longrightarrow> (file_step url)\<^sup>*\<^sup>* s0 (file_change files s)"
  "(file_step url)\<^sup>*\<^sup>* s0 s \<Longrightarrow> (file_step url)\<^sup>*\<^sup>* s0 (onLoad url k s)"
  by (auto intro: rtranclp.rtrancl_into_rtrancl file_step.intros)

lemmas file_defs = file_change_def readAsDataURL_def onLoad_def new_file_input_def file_value_def

lemma stale_file_wins:
  "\<exists>s. (file_step url)\<^sup>*\<^sup>* new_file_input s \<and> fi_readers s = [] \<and> fi_files s = Some ''b.png'' \<and> fi_value s = url ''a.png''"
  by (rule exI[of _ "onLoad url 0 (onLoad url 1 (file_change (Some ''b.png'') (file_change (Some ''a.png'') new_file_input)))"])
    (intro conjI file_steps, simp_all add: file_defs)

lemma removed_file_returns:
  "\<exists>s. (file_step url)\<^sup>*\<^sup>* new_file_input s \<and> fi_readers s = [] \<and> fi_files s = None \<and> fi_value s = url ''a.png''"
  by (rule exI[of _ "onLoad url 0 (file_change None (file_change (Some ''a.png'') new_file_input))"])
    (intro conjI file_steps, simp_all add: file_defs)

text \<open>Still, every value that is ever shown is empty or the data of a file that was chosen before.\<close>

definition file_known :: "(string \<Rightarrow> string) \<Rightarrow> string set \<Rightarrow> file_input \<Rightarrow> bool" where
  "file_known url chosen s \<longleftrightarrow> (fi_value s = [] \<or> fi_value s \<in> url ` chosen) \<and> snd ` set (fi_readers s) \<subseteq> chosen"

lemma reader_file: "map_of rs k = Some f \<Longrightarrow> f \<in> snd ` set rs"
  by (force dest: map_of_SomeD)

lemma file_step_known:
  assumes "file_step url s s'" "file_known url chosen s" "set_option (fi_files s') \<subseteq> chosen"
  shows "file_known url chosen s'"
  using assms
  by (elim file_stepE)
    (auto simp: file_known_def file_defs onError_def dest!: reader_file split: option.splits)

end
