(* ===== verification/AnnounceLaws.thy ===== *)
theory AnnounceLaws
  imports NetProps
begin

section \<open>What is announced on IRC\<close>

text \<open>
  A published component tells its attributes in the nick of its client. Between the change of a value and the
  nick message, other listeners run; they can change more values, here or elsewhere, and each change
  is announced in turn. This theory follows the announcements through the dispatch: as long as no listener throws,
  every client's last nick is that of its object when the dispatch ends. Operations that neither change a published value
  nor rename a client move the world along the relation \<open>silent\<close>.
\<close>

subsection \<open>The last nick of a client\<close>

fun nick_after :: "nat \<Rightarrow> string option \<Rightarrow> irc_call \<Rightarrow> string option" where
  "nick_after client p (IrcConnect k nick chs) = (if k = client then Some nick else p)"
| "nick_after client p (IrcNick k nick) = (if k = client then Some nick else p)"
| "nick_after client p _ = p"

definition last_nick :: "nat \<Rightarrow> irc_call list \<Rightarrow> string option" where
  "last_nick client log = foldl (nick_after client) None log"

lemma last_nick_snoc [simp]: "last_nick client (log @ [x]) = nick_after client (last_nick client log) x"
  by (simp add: last_nick_def)

fun renames :: "irc_call \<Rightarrow> bool" where
  "renames (IrcConnect k nick chs) = True"
| "renames (IrcNick k nick) = True"
| "renames _ = False"

lemma nick_after_silent [simp]: "\<not> renames x \<Longrightarrow> nick_after client p x = p"
  by (cases x) simp_all

text \<open>Which objects have a nick listener, and for which client.\<close>

definition has_nick_listener :: "world \<Rightarrow> oref \<Rightarrow> event \<Rightarrow> nat \<Rightarrow> bool" where
  "has_nick_listener w r ev c \<longleftrightarrow> (\<exists>ob. heap w r = Some ob \<and> (ev, NickListener c) \<in> set (listeners ob))"

abbreviation announcer :: "world \<Rightarrow> oref \<Rightarrow> nat \<Rightarrow> bool" where
  "announcer w r c \<equiv> has_nick_listener w r EvAttribute c"

definition announces :: "world \<Rightarrow> oref \<Rightarrow> nat \<Rightarrow> bool" where
  "announces w r c \<longleftrightarrow>
     (\<exists>ob nick. heap w r = Some ob \<and> makeNick ob = Inr nick \<and> last_nick c (irc_log w) = Some nick)"

definition nicks_ok :: "world \<Rightarrow> bool" where
  "nicks_ok w \<longleftrightarrow>
     (\<forall>r ev c. has_nick_listener w r ev c \<longrightarrow> ev = EvAttribute \<and> r < fresh w \<and> c < fresh w) \<and>
     (\<forall>r r' c. announcer w r c \<longrightarrow> announcer w r' c \<longrightarrow> r = r')"

text \<open>Every client announces its object, except those in \<open>T\<close>, which may lag behind.\<close>

definition current :: "(oref \<times> nat) set \<Rightarrow> world \<Rightarrow> bool" where
  "current T w \<longleftrightarrow> (\<forall>r c. announcer w r c \<longrightarrow> (r, c) \<in> T \<or> announces w r c)"

lemma current_mono: "current T w \<Longrightarrow> T \<subseteq> T' \<Longrightarrow> current T' w"
  by (auto simp: current_def)

definition announced :: "world \<Rightarrow> bool" where
  "announced w \<longleftrightarrow> nicks_ok w \<and> current {} w"

text \<open>The nick of an object does not depend on its listeners.\<close>

definition obj_core :: "nobject \<Rightarrow> string \<times> net_class \<times> (string \<rightharpoonup> jsval)" where
  "obj_core ob = (obj_id ob, obj_class ob, attr_values ob)"

lemma makeNick_cong:
  assumes "obj_core ob = obj_core ob'"
  shows "makeNick ob = makeNick ob'"
proof -
  have "object_attribute ob n = object_attribute ob' n" for n
    using assms by (auto simp: object_attribute_def getMember_def obj_core_def split: option.split member.split)
  then have "nick_values ob ms = nick_values ob' ms" for ms
    by (induction ob ms rule: nick_values.induct) (auto split: sum.splits)
  then show ?thesis using assms by (simp add: makeNick_def obj_core_def split: sum.split)
qed

subsection \<open>Silent operations\<close>

text \<open>\<open>quieter\<close>: no new announcer, no change of a value that is announced, no new nick of an old client.\<close>

definition quieter :: "world \<Rightarrow> world \<Rightarrow> bool" where
  "quieter w w' \<longleftrightarrow> fresh w \<le> fresh w' \<and>
     (\<forall>r ev c. has_nick_listener w' r ev c \<longrightarrow>
        has_nick_listener w r ev c \<and> map_option obj_core (heap w' r) = map_option obj_core (heap w r)) \<and>
     (\<forall>c < fresh w. last_nick c (irc_log w') = last_nick c (irc_log w))"

definition silent :: "world \<Rightarrow> world \<Rightarrow> bool" where
  "silent w w' \<longleftrightarrow> quieter w w' \<and> (\<forall>r ev c. has_nick_listener w r ev c \<longrightarrow> r < fresh w \<longrightarrow> has_nick_listener w' r ev c)"

lemma silent_quieter: "silent w w' \<Longrightarrow> quieter w w'"
  by (simp add: silent_def)

interpretation silent: state_order silent
proof unfold_locales
  show "silent w w" for w by (simp add: silent_def quieter_def)
  show "silent w w2" if "silent w w1" "silent w1 w2" for w w1 w2
    using that unfolding silent_def quieter_def by (metis (no_types, lifting) dual_order.strict_trans1 order.trans)
qed

lemma quieter_announces:
  assumes "quieter w w'" "announcer w' r c" "announces w r c" "c < fresh w"
  shows "announces w' r c"
proof -
  obtain ob nick where ob: "heap w r = Some ob" "makeNick ob = Inr nick" "last_nick c (irc_log w) = Some nick"
    using assms(3) by (auto simp: announces_def)
  have core: "map_option obj_core (heap w' r) = Some (obj_core ob)"
    using assms(1,2) ob(1) by (auto simp: quieter_def)
  then obtain ob' where ob': "heap w' r = Some ob'" "obj_core ob' = obj_core ob" by auto
  then have "makeNick ob' = Inr nick" using makeNick_cong[OF ob'(2)] ob(2) by simp
  moreover have "last_nick c (irc_log w') = Some nick" using assms(1,4) ob(3) by (auto simp: quieter_def)
  ultimately show ?thesis using ob'(1) by (simp add: announces_def)
qed

lemma quieter_nicks_ok: "quieter w w' \<Longrightarrow> nicks_ok w \<Longrightarrow> nicks_ok w'"
  unfolding nicks_ok_def quieter_def by (meson less_le_trans)

lemma quieter_current:
  assumes "quieter w w'" "nicks_ok w" "current T w"
  shows "current T w'"
  unfolding current_def
proof (intro allI impI)
  fix r c assume a: "announcer w' r c"
  then have "announcer w r c" using assms(1) by (auto simp: quieter_def)
  with assms(2,3) have "(r, c) \<in> T \<or> announces w r c" "c < fresh w"
    by (auto simp: current_def nicks_ok_def)
  then show "(r, c) \<in> T \<or> announces w' r c" using quieter_announces[OF assms(1) a] by blast
qed

lemma quieter_announced: "quieter w w' \<Longrightarrow> announced w \<Longrightarrow> announced w'"
  by (auto simp: announced_def intro: quieter_nicks_ok quieter_current)

lemmas silent_announced = silent_quieter[THEN quieter_announced]

lemma silent_announcer: "silent w w' \<Longrightarrow> nicks_ok w \<Longrightarrow> announcer w' r c \<longleftrightarrow> announcer w r c"
  unfolding silent_def quieter_def nicks_ok_def by blast

text \<open>Updates that leave the heap and the last nicks alone.\<close>

lemma silentI:
  assumes "heap w' = heap w" "fresh w \<le> fresh w'" "\<And>c. c < fresh w \<Longrightarrow> last_nick c (irc_log w') = last_nick c (irc_log w)"
  shows "silent w w'"
  using assms by (simp add: silent_def quieter_def has_nick_listener_def)

lemma silent_update [simp]:
  "silent w (w\<lparr>timers := ts\<rparr>)" "silent w (w\<lparr>timeouts := tt\<rparr>)" "silent w (w\<lparr>watchers := ws\<rparr>)"
  "silent w (w\<lparr>watcher := wo\<rparr>)" "silent w (w\<lparr>clock := t\<rparr>)" "silent w (w\<lparr>repository := rp\<rparr>)"
  "silent w (w\<lparr>fresh := Suc (fresh w)\<rparr>)"
  "silent w (w\<lparr>timers := ts, timeouts := tt, fresh := Suc (fresh w)\<rparr>)"
  "\<not> renames x \<Longrightarrow> silent w (w\<lparr>irc_log := irc_log w @ [x]\<rparr>)"
  by (auto intro!: silentI)

lemma silent_log: "\<not> renames x \<Longrightarrow> along silent (log_irc x)"
  unfolding log_irc_def by (rule silent.along_modifyE) simp

lemma silent_new_id: "along silent new_id"
  by (simp add: along_def new_id_def)

lemma silent_netObject: "along silent (netObject i c)"
  by (auto simp: along_def netObject_def silent_def quieter_def has_nick_listener_def)

lemma silent_map_listeners:
  assumes "\<And>ls ev c. (ev, NickListener c) \<in> set (f ls) \<longleftrightarrow> (ev, NickListener c) \<in> set ls"
  shows "along silent (map_listeners r f)"
proof -
  have "has_nick_listener (snd (map_listeners r f w)) q ev c = has_nick_listener w q ev c" for w q ev c
    using assms by (auto simp: has_nick_listener_def map_listeners_def modifyE_def)
  moreover have "map_option obj_core (heap (snd (map_listeners r f w)) q) = map_option obj_core (heap w q)" for w q
    by (cases "heap w q") (auto simp: map_listeners_def modifyE_def obj_core_def)
  ultimately show ?thesis by (simp add: along_def silent_def quieter_def)
qed

lemma silent_listeners:
  assumes "\<And>c. l \<noteq> NickListener c"
  shows "along silent (add_listener r ev l)" "along silent (remove_listener r ev l)"
proof -
  show "along silent (add_listener r ev l)"
    unfolding add_listener_def by (rule silent_map_listeners) (use assms in auto)
  have "(e, NickListener c) \<in> set (remove1 (ev, l) ls) \<longleftrightarrow> (e, NickListener c) \<in> set ls" for e c ls
    using assms by (metis Pair_inject in_set_remove1)
  then show "along silent (remove_listener r ev l)"
    unfolding remove_listener_def by (rule silent_map_listeners)
qed

lemma silent_with_object: "(\<And>ob. along silent (f ob)) \<Longrightarrow> along silent (with_object r f)"
  by (auto simp: along_def with_object_def silent.R_refl split: option.split)

lemma silent_with_watcher: "(\<And>wt. along silent (f wt)) \<Longrightarrow> along silent (with_watcher wid f)"
  by (auto simp: along_def with_watcher_def silent.R_refl split: option.split)

lemma silent_put_watcher: "along silent (put_watcher wid wt)"
  unfolding put_watcher_def by (rule silent.along_modifyE) simp

lemma silent_loadWatcher: "along silent loadWatcher"
  by (auto simp: along_def loadWatcher_def Let_def silent.R_refl intro!: silentI split: option.split)

lemmas silent_intros =
  silent.along_rules silent_log silent_new_id silent_netObject silent_listeners silent_with_object
  silent_with_watcher silent_put_watcher silent_loadWatcher

lemma silent_addChannel: "along silent (addChannel wid ch)"
  unfolding addChannel_def by (intro silent_with_watcher) (auto split: option.split nat.split intro!: silent_intros)

lemma silent_removeChannel: "along silent (removeChannel wid ch)"
  unfolding removeChannel_def by (intro silent_with_watcher) (auto split: option.split nat.split intro!: silent_intros)

lemma silent_publishRemote: "along silent (publishRemote r chs)"
  unfolding publishRemote_def addObject_def
  by (intro silent_intros silent_addChannel) simp_all

lemma silent_destroyRemote: "along silent (destroyRemote ct)"
  unfolding destroyRemote_def removeObject_def checkClean_def
  by (intro silent_intros silent_removeChannel) simp_all

lemma silent_repository_object: "along silent (repository_object i)"
  by (auto simp: along_def repository_object_def silent.R_refl split: option.split)

lemma silent_connect_link: "along silent (connect_link cfg)"
  unfolding connect_link_def Let_def by (intro silent_intros silent_repository_object) simp_all

subsection \<open>The dispatch announces what it changes\<close>

text \<open>
  \<open>settles m\<close>: when \<open>m\<close> returns, the same clients announce the same objects and none lags behind that did not before.
\<close>

definition settles :: "'a wop \<Rightarrow> bool" where
  "settles m \<longleftrightarrow> (\<forall>T w x w'. nicks_ok w \<longrightarrow> current T w \<longrightarrow> m w = (Inr x, w') \<longrightarrow>
     nicks_ok w' \<and> current T w' \<and> (\<forall>r c. announcer w' r c = announcer w r c))"

lemma settlesI:
  assumes "\<And>T w x w'. nicks_ok w \<Longrightarrow> current T w \<Longrightarrow> m w = (Inr x, w') \<Longrightarrow>
     nicks_ok w' \<and> current T w' \<and> (\<forall>r c. announcer w' r c = announcer w r c)"
  shows "settles m"
  using assms unfolding settles_def by blast

lemma settlesD:
  assumes "settles m" "nicks_ok w" "current T w" "m w = (Inr x, w')"
  shows "nicks_ok w'" "current T w'" "announcer w' r c = announcer w r c"
  using assms unfolding settles_def by blast+

lemma settles_silent:
  assumes "along silent m"
  shows "settles m"
proof (rule settlesI)
  fix T w x w' assume "nicks_ok w" "current T w" "m w = (Inr x, w')"
  moreover from this(3) have "silent w w'" using along_result[OF assms] by blast
  ultimately show "nicks_ok w' \<and> current T w' \<and> (\<forall>r c. announcer w' r c = announcer w r c)"
    using silent_quieter[OF \<open>silent w w'\<close>]
    by (simp add: quieter_nicks_ok quieter_current silent_announcer)
qed

lemma settles_bindE:
  assumes "settles m" "\<And>x. settles (f x)"
  shows "settles (bindE m f)"
proof (rule settlesI)
  fix T w y w2 assume w: "nicks_ok w" "current T w" "bindE m f w = (Inr y, w2)"
  then obtain x w1 where m: "m w = (Inr x, w1)" and f: "f x w1 = (Inr y, w2)" by (auto simp: bindE_Inr_iff)
  note s1 = settlesD[OF assms(1) w(1,2) m]
  from settlesD[OF assms(2) s1(1,2) f] s1(3)
  show "nicks_ok w2 \<and> current T w2 \<and> (\<forall>r c. announcer w2 r c = announcer w r c)" by simp
qed

lemma settles_seqE: "settles m \<Longrightarrow> settles k \<Longrightarrow> settles (seqE m k)"
  by (simp add: seqE_def settles_bindE)

lemma settles_throw: "settles (throw e)"
  by (simp add: settles_def)

lemma settles_forE: "(\<And>x. x \<in> set xs \<Longrightarrow> settles (f x)) \<Longrightarrow> settles (forE xs f)"
  by (induction xs) (auto intro: settles_seqE settles_silent silent.along_ret)

lemma settles_with_object: "(\<And>ob. settles (f ob)) \<Longrightarrow> settles (with_object r f)"
proof -
  assume f: "\<And>ob. settles (f ob)"
  show ?thesis
  proof (rule settlesI)
    fix T w x w' assume w: "nicks_ok w" "current T w" "with_object r f w = (Inr x, w')"
    then obtain ob where "f ob w = (Inr x, w')" by (auto simp: with_object_def split: option.splits)
    from settlesD[OF f w(1,2) this] show "nicks_ok w' \<and> current T w' \<and> (\<forall>r c. announcer w' r c = announcer w r c)"
      by simp
  qed
qed

lemma settles_with_watcher: "(\<And>wt. settles (f wt)) \<Longrightarrow> settles (with_watcher wid f)"
proof -
  assume f: "\<And>wt. settles (f wt)"
  show ?thesis
  proof (rule settlesI)
    fix T w x w' assume w: "nicks_ok w" "current T w" "with_watcher wid f w = (Inr x, w')"
    then obtain wt where "f wt w = (Inr x, w')" by (auto simp: with_watcher_def split: option.splits)
    from settlesD[OF f w(1,2) this] show "nicks_ok w' \<and> current T w' \<and> (\<forall>r c. announcer w' r c = announcer w r c)"
      by simp
  qed
qed

lemma settles_getAttribute: "settles (getAttribute r n)"
  unfolding getAttribute_def by (intro settles_with_object) (auto simp: settles_def)

lemma settles_ret: "settles (ret x)"
  by (intro settles_silent silent.along_ret)

lemma settles_modify: "(\<And>w. silent w (f w)) \<Longrightarrow> settles (modifyE f)"
  by (intro settles_silent silent.along_modifyE)

lemmas settles_intros = settles_bindE settles_seqE settles_throw settles_forE settles_with_object
  settles_with_watcher settles_getAttribute settles_ret settles_modify

text \<open>What is required of the calls of listeners: the nick listener of a client brings this client up to date.\<close>

definition refreshing :: "calls \<Rightarrow> bool" where
  "refreshing call \<longleftrightarrow>
     (\<forall>r l p. (\<forall>c. l \<noteq> NickListener c) \<longrightarrow> settles (call r l p)) \<and>
     (\<forall>r c p T w w'. nicks_ok w \<longrightarrow> current T w \<longrightarrow> announcer w r c \<longrightarrow> call r (NickListener c) p w = (Inr (), w') \<longrightarrow>
        nicks_ok w' \<and> current (T - {(r, c)}) w' \<and> (\<forall>r c. announcer w' r c = announcer w r c))"

lemma refreshing_other: "refreshing call \<Longrightarrow> (\<And>c. l \<noteq> NickListener c) \<Longrightarrow> settles (call r l p)"
  unfolding refreshing_def by blast

lemma refreshing_nick:
  assumes "refreshing call" "nicks_ok w" "current T w" "announcer w r c" "call r (NickListener c) p w = (Inr (), w')"
  shows "nicks_ok w'" "current (T - {(r, c)}) w'" "announcer w' q d = announcer w q d"
  using assms unfolding refreshing_def by blast+

definition nick_pairs :: "oref \<Rightarrow> listener list \<Rightarrow> (oref \<times> nat) set" where
  "nick_pairs r ls = {(r, c) |c. NickListener c \<in> set ls}"

lemma emission_refreshes:
  assumes "refreshing call" "nicks_ok w" "current T w" "\<forall>c. NickListener c \<in> set ls \<longrightarrow> announcer w r c"
    and "forE ls (\<lambda>l. call r l p) w = (Inr (), w')"
  shows "nicks_ok w' \<and> current (T - nick_pairs r ls) w' \<and> (\<forall>r c. announcer w' r c = announcer w r c)"
  using assms(2-)
proof (induction ls arbitrary: w T)
  case Nil
  then show ?case by (simp add: nick_pairs_def)
next
  case (Cons l ls)
  then obtain w1 where w1: "call r l p w = (Inr (), w1)" and rest: "forE ls (\<lambda>l. call r l p) w1 = (Inr (), w')"
    by (auto simp: seqE_Inr_iff)
  have "nicks_ok w1 \<and> current (T - nick_pairs r [l]) w1 \<and> (\<forall>q d. announcer w1 q d = announcer w q d)"
  proof (cases "\<exists>c. l = NickListener c")
    case True
    then obtain c where l: "l = NickListener c" ..
    then have "announcer w r c" using Cons.prems(3) by simp
    from refreshing_nick[OF assms(1) Cons.prems(1,2) this] w1
    show ?thesis by (simp add: l nick_pairs_def)
  next
    case False
    then have "settles (call r l p)" using refreshing_other[OF assms(1)] by blast
    moreover have "nick_pairs r [l] = {}" using False by (auto simp: nick_pairs_def)
    ultimately show ?thesis using settlesD[where m = "call r l p", OF _ Cons.prems(1,2) w1] by simp
  qed
  moreover from this have "\<forall>c. NickListener c \<in> set ls \<longrightarrow> announcer w1 r c" using Cons.prems(3) by simp
  ultimately have "nicks_ok w' \<and> current (T - nick_pairs r [l] - nick_pairs r ls) w' \<and> (\<forall>q d. announcer w' q d = announcer w q d)"
    using Cons.IH[of w1 "T - nick_pairs r [l]"] rest by simp
  moreover have "T - nick_pairs r [l] - nick_pairs r ls = T - nick_pairs r (l # ls)"
    by (auto simp: nick_pairs_def)
  ultimately show ?case by simp
qed

lemma listener_announcer:
  assumes "nicks_ok w" "heap w r = Some ob" "NickListener c \<in> set (listeners_of ob ev)"
  shows "announcer w r c"
proof -
  have "has_nick_listener w r ev c" using assms(2,3) by (auto simp: has_nick_listener_def listeners_of_def)
  with assms(1) show ?thesis by (auto simp: nicks_ok_def)
qed

lemma emit_refreshes:
  assumes "refreshing call" "nicks_ok w" "current T w" "heap w r = Some ob" "emit_with call r ev p w = (Inr (), w')"
  shows "nicks_ok w' \<and> current (T - nick_pairs r (listeners_of ob ev)) w' \<and> (\<forall>r c. announcer w' r c = announcer w r c)"
  using emission_refreshes[OF assms(1-3), of "listeners_of ob ev" r p w'] listener_announcer[OF assms(2,4)] assms(4,5)
  by (auto simp: emit_with_def with_object_def)

lemma settles_emit: "refreshing call \<Longrightarrow> settles (emit_with call r ev p)"
proof (rule settlesI)
  fix T w x w' assume a: "refreshing call" "nicks_ok w" "current T w" "emit_with call r ev p w = (Inr x, w')"
  then obtain ob where ob: "heap w r = Some ob" by (auto simp: emit_with_def with_object_def split: option.splits)
  from emit_refreshes[OF a(1-3) ob] a(4)
  show "nicks_ok w' \<and> current T w' \<and> (\<forall>r c. announcer w' r c = announcer w r c)"
    by (auto intro: current_mono)
qed

lemma put_value_listeners: "has_nick_listener (put_value r n v w) q ev c = has_nick_listener w q ev c"
  by (cases "heap w r") (auto simp: has_nick_listener_def put_value_def)

lemma put_value_current:
  assumes "nicks_ok w" "current T w"
  shows "nicks_ok (put_value r n v w)" "current (T \<union> {r} \<times> UNIV) (put_value r n v w)"
proof -
  show "nicks_ok (put_value r n v w)" using assms(1) by (simp add: nicks_ok_def put_value_listeners)
  have "announces (put_value r n v w) q c = announces w q c" if "q \<noteq> r" for q c
    using that by (simp add: announces_def) (simp add: put_value_def)
  then show "current (T \<union> {r} \<times> UNIV) (put_value r n v w)"
    using assms(2) by (auto simp: current_def put_value_listeners)
qed

lemma settles_set_attribute:
  assumes call: "refreshing call"
  shows "settles (set_attribute_with call r name v)"
proof (rule settlesI)
  fix T w x w3 assume w: "nicks_ok w" "current T w" "set_attribute_with call r name v w = (Inr x, w3)"
  then obtain ob n t where ob: "heap w r = Some ob" "getMember ob name = Some (Attribute n t)"
      and run: "seqE (emit_with call r (EvAttributeOf n) (PValue v)) (emit_with call r EvAttribute (PAttribute n v))
        (put_value r n v w) = (Inr (), w3)"
    by (auto simp: set_attribute_with_def with_object_def seqE_Inr_iff split: option.splits member.splits)
  let ?w1 = "put_value r n v w" and ?T = "T \<union> {r} \<times> UNIV"
  note w1 = put_value_current[OF w(1,2), of r n v]
  obtain w2 where e1: "emit_with call r (EvAttributeOf n) (PValue v) ?w1 = (Inr (), w2)"
      and e2: "emit_with call r EvAttribute (PAttribute n v) w2 = (Inr (), w3)"
    using run by (auto simp: seqE_Inr_iff)
  note s2 = settlesD[OF settles_emit[OF call] w1 e1]
  obtain ob2 where ob2: "heap w2 r = Some ob2" using e2 by (auto simp: emit_with_def with_object_def split: option.splits)
  from emit_refreshes[OF call s2(1,2) ob2 e2]
  have s3: "nicks_ok w3" "current (?T - nick_pairs r (listeners_of ob2 EvAttribute)) w3"
      "\<And>q c. announcer w3 q c = announcer w2 q c" by simp_all
  have "current T w3"
    unfolding current_def
  proof (intro allI impI)
    fix q c assume a: "announcer w3 q c"
    then have "(q, c) \<in> ?T - nick_pairs r (listeners_of ob2 EvAttribute) \<or> announces w3 q c"
      using s3(2) by (auto simp: current_def)
    moreover have "NickListener c \<in> set (listeners_of ob2 EvAttribute)" if "q = r"
    proof -
      have "announcer w2 r c" using a s3(3) that by simp
      then have "(EvAttribute, NickListener c) \<in> set (listeners ob2)" using ob2 by (simp add: has_nick_listener_def)
      then show ?thesis by (force simp: listeners_of_def)
    qed
    ultimately show "(q, c) \<in> T \<or> announces w3 q c" by (auto simp: nick_pairs_def)
  qed
  then show "nicks_ok w3 \<and> current T w3 \<and> (\<forall>r c. announcer w3 r c = announcer w r c)"
    using s3 s2(3) by (simp add: put_value_listeners)
qed

lemma settles_execute_action: "refreshing call \<Longrightarrow> settles (execute_action_with call r name args)"
  unfolding execute_action_with_def
  by (intro settles_with_object) (auto split: option.split member.split intro!: settles_intros settles_emit)

lemma settles_run_plugin: "refreshing call \<Longrightarrow> settles (run_plugin call h r args)"
  by (cases h)
    (auto simp: button_input_def switch_to_button_input_def hub_bool_input_def light_input_def
      step_relay_input_def step_relay_on_def step_relay_off_def step_relay_set_def
      music_setstate_def music_setvolume_def music_state_switch_def music_volume_more_def
      music_volume_less_def delay_attribute_def Let_def
      intro!: settles_intros settles_set_attribute)

lemma settles_listener_body:
  assumes "refreshing call" "\<And>c. l \<noteq> NickListener c"
  shows "settles (listener_body call r l p)"
proof (cases l)
  case (RemoteListener wid chs)
  have "along silent (watcher_send wid chs msg)" for msg
    using silent_log by (auto simp: along_def watcher_send_def silent.R_refl split: option.split)
  with RemoteListener show ?thesis
    by (auto simp: listener_body_def remote_execute_def split: payload.split intro!: settles_with_object settles_ret intro: settles_silent)
next
  case (LinkListener u src dst cfg)
  then show ?thesis using assms(1)
    by (auto simp: listener_body_def link_handler_def intro!: settles_intros settles_execute_action)
qed (use assms in \<open>auto simp: listener_body_def intro: settles_run_plugin\<close>)

lemma attributeChanged_refreshes:
  assumes "nicks_ok w" "current T w" "announcer w r c" "attributeChanged c r w = (Inr (), w')"
  shows "nicks_ok w' \<and> current (T - {(r, c)}) w' \<and> (\<forall>r c. announcer w' r c = announcer w r c)"
proof -
  obtain ob nick where ob: "heap w r = Some ob" "makeNick ob = Inr nick" and w': "w' = w\<lparr>irc_log := irc_log w @ [IrcNick c nick]\<rparr>"
    using assms(4) by (auto simp: attributeChanged_def with_object_def log_irc_def split: option.splits sum.splits)
  have same: "has_nick_listener w' q ev d = has_nick_listener w q ev d" for q ev d
    by (simp add: w' has_nick_listener_def)
  have "current (T - {(r, c)}) w'"
    unfolding current_def
  proof (intro allI impI)
    fix q d assume "announcer w' q d"
    then have a: "announcer w q d" by (simp add: same)
    show "(q, d) \<in> T - {(r, c)} \<or> announces w' q d"
    proof (cases "d = c")
      case True
      then have "q = r" using a assms(1,3) by (auto simp: nicks_ok_def)
      with True ob show ?thesis by (simp add: announces_def w')
    next
      case False
      moreover have "(q, d) \<in> T \<or> announces w q d" using a assms(2) by (simp add: current_def)
      ultimately show ?thesis by (auto simp: announces_def w')
    qed
  qed
  with assms(1) same show ?thesis by (simp add: nicks_ok_def w')
qed

lemma refreshing_call_listener: "refreshing (call_listener depth)"
proof (induction depth)
  case 0
  then show ?case by (simp add: refreshing_def settles_throw)
next
  case (Suc depth)
  have "listener_body (call_listener depth) r (NickListener c) p = attributeChanged c r" for r c p
    by (simp add: listener_body_def)
  note nick = this
  show ?case
    unfolding refreshing_def call_listener.simps nick
  proof (intro conjI allI impI)
    show "settles (listener_body (call_listener depth) r l p)" if "\<forall>c. l \<noteq> NickListener c" for r l p
      using settles_listener_body[OF Suc.IH] that by blast
  qed (rule attributeChanged_refreshes[THEN conjunct1] attributeChanged_refreshes[THEN conjunct2, THEN conjunct1]
      attributeChanged_refreshes[THEN conjunct2, THEN conjunct2, rule_format]; assumption)+
qed

lemma settles_setAttribute: "settles (setAttribute depth r n v)"
  unfolding setAttribute_def by (rule settles_set_attribute[OF refreshing_call_listener])

lemma settles_executeAction: "settles (executeAction depth r name args)"
  unfolding executeAction_def by (rule settles_execute_action[OF refreshing_call_listener])

lemma settles_emit_event: "settles (emit depth r ev p)"
  unfolding emit_def by (rule settles_emit[OF refreshing_call_listener])

lemma settles_fire_timer: "settles (fire_timer depth tid)"
proof (rule settlesI)
  fix T w x w' assume w: "nicks_ok w" "current T w" "fire_timer depth tid w = (Inr x, w')"
  show "nicks_ok w' \<and> current T w' \<and> (\<forall>r c. announcer w' r c = announcer w r c)"
  proof (cases "find (\<lambda>t. tm_id t = tid \<and> tm_due t \<le> clock w) (timers w)")
    case None
    with w show ?thesis by (simp add: fire_timer_def)
  next
    case (Some t)
    let ?m = "seqE (modifyE (\<lambda>w. w\<lparr>timers := filter (\<lambda>t. tm_id t \<noteq> tid) (timers w)\<rparr>))
            (seqE (setAttribute depth (tm_obj t) (tm_attr t) (tm_value t))
               (modifyE (\<lambda>w. w\<lparr>timeouts := (timeouts w)(tm_obj t := (timeouts w (tm_obj t))(tm_attr t := None))\<rparr>)))"
    have "settles ?m" by (intro settles_intros settles_setAttribute) simp_all
    from settlesD[OF this w(1,2)] w(3) Some show ?thesis by (simp add: fire_timer_def)
  qed
qed

lemma settles_setAttributes: "settles (setAttributes depth r values)"
  unfolding setAttributes_def by (intro settles_with_object settles_forE) (auto intro: settles_setAttribute)

lemma settles_watched: "(\<And>r. settles (f r)) \<Longrightarrow> settles (watched wid i f)"
  unfolding watched_def by (intro settles_with_watcher) (auto split: option.split intro: settles_ret)

lemma settles_nick:
  "settles (nickOnline depth wid nick)" "settles (nickOffline depth wid nick)" "settles (nickChanged depth wid old new)"
  unfolding nickOnline_def nickOffline_def nickChanged_def
  by (intro settles_watched settles_seqE settles_setAttributes settles_emit_event)+

lemma settles_put_watcher: "settles (put_watcher wid wt)"
  by (rule settles_silent[OF silent_put_watcher])

lemma settles_watcher_event: "settles (watcher_event depth wid ev)"
proof (cases ev)
  case (NamesEvent ch arg)
  then show ?thesis by (cases arg) (auto intro!: settles_intros settles_nick)
next
  case RegisteredEvent
  then show ?thesis
    by (auto simp: registered_def intro!: settles_intros settles_put_watcher settles_silent[OF silent_log])
next
  case ConnectionEndEvent
  then show ?thesis by (auto simp: connectionClosed_def intro!: settles_intros settles_put_watcher settles_nick)
qed (auto intro!: settles_nick)

end
