(* ===== verification/AnnounceCore.thy ===== *)
theory AnnounceCore
  imports AnnounceLaws
begin

section \<open>Running components are announced\<close>

text \<open>
  The announcements of a core process: publication makes the nick of the new client that of its object, removal ends it,
  and everything else a process does keeps both, as long as no listener throws.
\<close>

subsection \<open>Publication\<close>

lemma publishLocal_announced:
  assumes "announced w" "r < fresh w" "publishLocal r chs w = (x, w')"
  shows "announced w'" "\<And>q c. announcer w q c \<Longrightarrow> announcer w' q c"
    "\<And>ct. x = Inr ct \<Longrightarrow> announcer w' (ct_object ct) (ct_link ct)"
proof -
  have "announced w' \<and> (\<forall>q c. announcer w q c \<longrightarrow> announcer w' q c) \<and>
      (\<forall>ct. x = Inr ct \<longrightarrow> announcer w' (ct_object ct) (ct_link ct))"
  proof (cases "\<exists>ob nick. heap w r = Some ob \<and> makeNick ob = Inr nick")
    case False
    then have "w' = w" "\<exists>e. x = Inl e" using assms(3)
      by (auto simp: publishLocal_def with_object_def split: option.splits sum.splits)
    with assms(1) show ?thesis by auto
  next
    case True
    then obtain ob nick where ob: "heap w r = Some ob" "makeNick ob = Inr nick" by auto
    let ?k = "fresh w" and ?ob = "ob\<lparr>listeners := listeners ob @ [(EvAttribute, NickListener (fresh w))]\<rparr>"
    have w': "x = Inr \<lparr>ct_object = r, ct_channels = chs, ct_local = True, ct_link = ?k\<rparr>"
        "heap w' = (heap w)(r \<mapsto> ?ob)" "irc_log w' = irc_log w @ [IrcConnect ?k nick chs]" "fresh w' = Suc ?k"
      using assms(3) ob
      by (auto simp: publishLocal_def with_object_def op_defs new_id_def log_irc_def add_listener_def map_listeners_def)
    have nl: "has_nick_listener w' q ev c \<longleftrightarrow> has_nick_listener w q ev c \<or> (q, ev, c) = (r, EvAttribute, ?k)" for q ev c
      using ob(1) by (auto simp: has_nick_listener_def w')
    have ok: "nicks_ok w" "current {} w" using assms(1) by (simp_all add: announced_def)
    then have "nicks_ok w'"
      using assms(2) unfolding nicks_ok_def nl w'(4) by (metis Pair_inject less_SucI less_irrefl lessI)
    moreover have "current {} w'"
      unfolding current_def
    proof (intro allI impI)
      fix q c assume "announcer w' q c"
      then consider "announcer w q c" | "q = r" "c = ?k" by (auto simp: nl)
      then show "(q, c) \<in> {} \<or> announces w' q c"
      proof cases
        case 1
        then have "announces w q c" "c < ?k" using ok by (auto simp: current_def nicks_ok_def)
        moreover have "makeNick ?ob = makeNick ob" by (rule makeNick_cong) (simp add: obj_core_def)
        ultimately show ?thesis using ob by (auto simp: announces_def w')
      next
        case 2
        moreover have "makeNick ?ob = makeNick ob" by (rule makeNick_cong) (simp add: obj_core_def)
        ultimately show ?thesis using ob(2) by (simp add: announces_def w')
      qed
    qed
    ultimately show ?thesis by (simp add: announced_def nl w'(1))
  qed
  then show "announced w'" "\<And>q c. announcer w q c \<Longrightarrow> announcer w' q c"
    "\<And>ct. x = Inr ct \<Longrightarrow> announcer w' (ct_object ct) (ct_link ct)" by blast+
qed

lemma publish_local_announced:
  assumes "announced w" "has_id w r i" "publish r chs True w = (x, w')"
  shows "announced w'" "\<And>q c. announcer w q c \<Longrightarrow> announcer w' q c"
    "\<And>ct. x = Inr ct \<Longrightarrow> announcer w' (ct_object ct) (ct_link ct)"
proof -
  obtain y w1 where p: "publishLocal r chs w = (y, w1)" by force
  note pl = publishLocal_announced[OF assms(1) _ p]
  have "r < fresh w" using assms(2) by (simp add: has_id_def)
  note pl = pl[OF this]
  have "(y, w1) = (x, w') \<or> (\<exists>rp. w' = w1\<lparr>repository := rp\<rparr>) \<and> (\<forall>ct. x = Inr ct \<longrightarrow> y = Inr ct)"
    using assms(3) p
    by (cases y) (auto simp: publish_def op_defs with_object_def split: option.splits intro: exI[of _ "repository w1"])
  then have q: "w' = w1 \<or> (\<exists>rp. w' = w1\<lparr>repository := rp\<rparr>)" "\<And>ct. x = Inr ct \<Longrightarrow> y = Inr ct" by auto
  then have "has_nick_listener w' = has_nick_listener w1" by (auto simp: fun_eq_iff has_nick_listener_def)
  moreover have "announced w'" using q(1) pl(1) silent_announced[of w1] by auto
  ultimately show "announced w'" "\<And>q c. announcer w q c \<Longrightarrow> announcer w' q c"
    "\<And>ct. x = Inr ct \<Longrightarrow> announcer w' (ct_object ct) (ct_link ct)"
    using pl(2,3) q(2) by simp_all
qed

subsection \<open>Plugin instances\<close>

text \<open>An object without listeners: its values can be set and listeners other than nicks added silently.\<close>

definition bare :: "oref \<Rightarrow> world \<Rightarrow> bool" where
  "bare r w \<longleftrightarrow> (\<exists>ob. heap w r = Some ob \<and> listeners ob = [])"

lemma bare_setAttribute:
  assumes "bare r w" "setAttribute depth r n v w = (x, w')"
  shows "silent w w'" "bare r w'"
proof -
  obtain ob where ob: "heap w r = Some ob" "listeners ob = []" using assms(1) by (auto simp: bare_def)
  have "listeners_of ob' ev = []" if "listeners ob' = []" for ob' ev using that by (simp add: listeners_of_def)
  then have w': "w' = w \<or> (\<exists>n. w' = put_value r n v w)"
    using assms(2) ob
    by (auto simp: setAttribute_def set_attribute_with_def with_object_def op_defs emit_with_def put_value_def
        split: option.splits member.splits)
  have "silent w (put_value r n v w)" "bare r (put_value r n v w)" for n
    using ob by (auto simp: silent_def quieter_def has_nick_listener_def put_value_def bare_def)
  with w' assms(1) show "silent w w'" "bare r w'" by (auto simp: silent.R_refl)
qed

lemma bare_setAttributes:
  assumes "bare r w" "forE xs (\<lambda>(n, v). setAttribute depth r n v) w = (x, w')"
  shows "silent w w'"
  using assms
proof (induction xs arbitrary: w)
  case Nil
  then show ?case by (simp add: silent.R_refl)
next
  case (Cons nv xs)
  obtain n v where nv: "nv = (n, v)" by (cases nv)
  obtain y w1 where y: "setAttribute depth r n v w = (y, w1)" by force
  note b = bare_setAttribute[OF Cons.prems(1) y]
  show ?case
  proof (cases y)
    case (Inl e)
    with Cons.prems(2) y b(1) nv show ?thesis by (auto simp: seqE_def bindE_def)
  next
    case (Inr u)
    with Cons.prems(2) y nv have "forE xs (\<lambda>(n, v). setAttribute depth r n v) w1 = (x, w')"
      by (auto simp: seqE_def bindE_def)
    from Cons.IH[OF b(2) this] b(1) show ?thesis by (rule silent.R_trans[rotated])
  qed
qed

lemma plugin_create_silent:
  assumes "bare r w" "plugin_create depth k r w = (x, w')"
  shows "silent w w'"
proof -
  obtain y w1 where y: "forE (plugin_initial k) (\<lambda>(n, v). setAttribute depth r n v) w = (y, w1)" by force
  have s: "silent w w1" by (rule bare_setAttributes[OF assms(1) y])
  have h: "along silent (forE (plugin_handlers k) (\<lambda>(a, h). add_listener r (EvActionOf a) (PluginListener h)))"
    by (intro silent.along_forE) (auto intro: silent_listeners)
  have "silent w1 w2" if "forE (plugin_handlers k) (\<lambda>(a, h). add_listener r (EvActionOf a) (PluginListener h)) w1 = (z, w2)" for z w2
    by (rule along_result[OF h that])
  with s y assms(2) show ?thesis
    by (cases y) (auto simp: plugin_create_def seqE_def bindE_def intro: silent.R_trans)
qed

lemma instantiate_announced:
  assumes "announced w" "instantiate_plugin depth i pt w = (x, w')"
  shows "announced w'" "\<And>q c. announcer w q c \<Longrightarrow> announcer w' q c"
    "\<And>ct. x = Inr ct \<Longrightarrow> announcer w' (ct_object ct) (ct_link ct)"
proof -
  obtain w1 where n: "netObject i (pt_class pt) w = (Inr (fresh w), w1)" by (simp add: netObject_def)
  let ?r = "fresh w"
  obtain y w2 where p: "plugin_create depth (pt_kind pt) ?r w1 = (y, w2)" by force
  have "bare ?r w1" using n by (auto simp: netObject_def bare_def)
  then have "silent w1 w2" using p by (rule plugin_create_silent)
  then have s: "silent w w2" using along_result[OF silent_netObject n] by (rule silent.R_trans[rotated])
  note ann = silent_announced[OF s assms(1)] and same = silent_announcer[OF s]
  have ok: "nicks_ok w" using assms(1) by (simp add: announced_def)
  have h: "has_id w2 ?r i"
    using netObject_has_id[OF n] along_result[OF plugin_create_along(1) p] by (auto dest: ids_keptD)
  have "announced w' \<and> (\<forall>q c. announcer w q c \<longrightarrow> announcer w' q c) \<and>
      (\<forall>ct. x = Inr ct \<longrightarrow> announcer w' (ct_object ct) (ct_link ct))"
  proof (cases y)
    case (Inl e)
    with assms(2) n p have "x = Inl e" "w' = w2" by (auto simp: instantiate_plugin_def bindE_def seqE_def)
    with ann same[OF ok] show ?thesis by simp
  next
    case (Inr u)
    with assms(2) n p have "publish ?r (plugin_channels pt) True w2 = (x, w')"
      by (auto simp: instantiate_plugin_def bindE_def seqE_def)
    from publish_local_announced[OF ann h this] same[OF ok] show ?thesis by simp
  qed
  then show "announced w'" "\<And>q c. announcer w q c \<Longrightarrow> announcer w' q c"
    "\<And>ct. x = Inr ct \<Longrightarrow> announcer w' (ct_object ct) (ct_link ct)" by blast+
qed

subsection \<open>Removal\<close>

lemma remove_listener_heap:
  "snd (remove_listener r ev l w) = w\<lparr>heap := (heap w)(r := map_option (\<lambda>ob. ob\<lparr>listeners := remove1 (ev, l) (listeners ob)\<rparr>) (heap w r))\<rparr>"
  by (simp add: remove_listener_def map_listeners_def modifyE_def)

lemma remove_listener_announced:
  assumes "announced w"
  shows "announced (snd (remove_listener r ev l w))"
    "announcer w q c \<Longrightarrow> (q, ev, l) \<noteq> (r, EvAttribute, NickListener c) \<Longrightarrow> announcer (snd (remove_listener r ev l w)) q c"
proof -
  let ?w = "snd (remove_listener r ev l w)"
  have "has_nick_listener ?w p e d \<Longrightarrow> has_nick_listener w p e d" for p e d
    by (auto simp: has_nick_listener_def remove_listener_heap split: if_splits dest: set_remove1_subset[THEN subsetD])
  moreover have "map_option obj_core (heap ?w p) = map_option obj_core (heap w p)" for p
    by (cases "heap w p") (auto simp: remove_listener_heap obj_core_def)
  ultimately have "quieter w ?w" by (simp add: quieter_def remove_listener_heap)
  then show "announced ?w" using assms by (rule quieter_announced)
  show "announcer ?w q c" if "announcer w q c" "(q, ev, l) \<noteq> (r, EvAttribute, NickListener c)"
    using that by (auto simp: has_nick_listener_def remove_listener_heap)
qed

lemma unpublish_announced:
  assumes "announced w" "unpublish ct w = (x, w')"
  shows "announced w'" "announcer w q c \<Longrightarrow> q \<noteq> ct_object ct \<Longrightarrow> announcer w' q c"
    "x = Inl e \<or> \<not> ct_local ct \<Longrightarrow> announcer w q c \<Longrightarrow> announcer w' q c"
proof -
  have "announced w' \<and> (announcer w q c \<longrightarrow> q \<noteq> ct_object ct \<or> (\<exists>e. x = Inl e) \<or> \<not> ct_local ct \<longrightarrow> announcer w' q c)"
  proof (cases "heap w (ct_object ct)")
    case None
    with assms show ?thesis by (simp add: unpublish_def with_object_def)
  next
    case (Some ob)
    let ?w1 = "w\<lparr>repository := jdel (obj_id ob) (repository w)\<rparr>"
    have s1: "silent w ?w1" by simp
    note ok = assms(1)[unfolded announced_def, THEN conjunct1]
    show ?thesis
    proof (cases "ct_local ct")
      case True
      let ?w2 = "?w1\<lparr>irc_log := irc_log w @ [IrcDisconnect (ct_link ct)]\<rparr>"
      have "silent ?w1 ?w2" using silent_update(9)[of "IrcDisconnect (ct_link ct)" ?w1] by simp
      with s1 have s2: "silent w ?w2" by (rule silent.R_trans)
      have w': "x = Inr ()" "w' = snd (remove_listener (ct_object ct) EvAttribute (NickListener (ct_link ct)) ?w2)"
        using assms(2) Some True remove_listener_result
        by (auto simp: unpublish_def with_object_def op_defs destroyLocal_def log_irc_def remove_listener_def map_listeners_def)
      note rm = remove_listener_announced[OF silent_announced[OF s2 assms(1)],
          where r = "ct_object ct" and ev = EvAttribute and l = "NickListener (ct_link ct)"]
      have "announcer w q c \<Longrightarrow> q \<noteq> ct_object ct \<Longrightarrow> announcer w' q c"
        unfolding w'(2) by (rule rm(2)) (auto simp: silent_announcer[OF s2 ok])
      with rm(1) True show ?thesis by (simp add: w')
    next
      case False
      then have "destroyRemote ct ?w1 = (x, w')"
        using assms(2) Some by (simp add: unpublish_def with_object_def op_defs)
      then have "silent ?w1 w'" by (rule along_result[OF silent_destroyRemote])
      with s1 have "silent w w'" by (rule silent.R_trans)
      then show ?thesis using assms(1) silent_announced silent_announcer[OF _ ok] by blast
    qed
  qed
  then show "announced w'" "announcer w q c \<Longrightarrow> q \<noteq> ct_object ct \<Longrightarrow> announcer w' q c"
    "x = Inl e \<or> \<not> ct_local ct \<Longrightarrow> announcer w q c \<Longrightarrow> announcer w' q c" by blast+
qed

subsection \<open>The process\<close>

text \<open>
  The clients of the plugins' components announce them; hardware components are copies of those of another process,
  announced there.
\<close>

definition announcing :: "core \<Rightarrow> bool" where
  "announcing c \<longleftrightarrow> announced (net c) \<and>
     (\<forall>(i, k) \<in> set (pluginContainers c). announcer (net c) (ct_object (pk_net k)) (ct_link (pk_net k))) \<and>
     (\<forall>(i, h) \<in> set (hardware c). \<not> ct_local (hi_container h))"

lemma announcing_fresh: "announcing (fresh_process nick files df uf)"
  by (simp add: announcing_def fresh_process_def announced_def nicks_ok_def current_def has_nick_listener_def empty_world_def)

lemma announcing_net:
  assumes "announcing c" "announced (net c')" "\<And>q d. announcer (net c) q d \<Longrightarrow> announcer (net c') q d"
    and "set (pluginContainers c') \<subseteq> set (pluginContainers c)" "set (hardware c') \<subseteq> set (hardware c)"
  shows "announcing c'"
  using assms unfolding announcing_def by blast

lemma announcing_cong:
  assumes "announcing c" "net c' = net c" "pluginContainers c' = pluginContainers c" "hardware c' = hardware c"
  shows "announcing c'"
  using assms by (simp add: announcing_def)

lemma announcing_silent:
  assumes "announcing c" "silent (net c) (net c')" "set (pluginContainers c') \<subseteq> set (pluginContainers c)"
    and "set (hardware c') \<subseteq> set (hardware c)"
  shows "announcing c'"
  by (rule announcing_net[OF assms(1) _ _ assms(3,4)])
    (use assms(1) silent_announced[OF assms(2)] silent_announcer[OF assms(2)] in
      \<open>auto simp: announcing_def announced_def\<close>)

lemma announcing_create_plugin:
  assumes ann: "announcing c" and eq: "create_plugin depth require icon cfg c = (x, c')"
  shows "announcing c'"
  using eq
proof (cases rule: create_plugin_cases)
  case (failed pt e ts w)
  then show ?thesis
    using ann instantiate_announced[OF _ failed(3)] by (intro announcing_net[OF ann]) (auto simp: announcing_def)
next
  case (made pt ct ts w)
  have "announced (net c)" using ann by (simp add: announcing_def)
  note i = instantiate_announced[OF this made(2)]
  with made ann show ?thesis by (auto simp: announcing_def dest!: set_jset_cases)
qed (use ann in \<open>auto simp: announcing_def\<close>)

lemma silent_publish_remote: "along silent (publish r chs False)"
  unfolding publish_def by (auto intro!: silent_intros silent_publishRemote)

lemma announcing_create_hardware:
  assumes ann: "announcing c" and eq: "create_hardware cfg c = (x, c')"
  shows "announcing c'"
  using eq
proof (cases rule: create_hardware_cases)
  case (failed cl r0 e w1 w)
  have "silent (net c) w"
    using along_result[OF silent_netObject failed(2)] along_result[OF silent_publish_remote failed(3)] by (rule silent.R_trans)
  with failed show ?thesis by (intro announcing_silent[OF ann]) auto
next
  case (made cl r0 ct w1 w)
  have s: "silent (net c) w"
    using along_result[OF silent_netObject made(3)] along_result[OF silent_publish_remote made(4)] by (rule silent.R_trans)
  have "announcing (c\<lparr>net := w\<rparr>)" by (rule announcing_silent[OF ann]) (simp_all add: s)
  moreover have "\<not> ct_local ct" using publish_ok(2)[OF made(4) netObject_has_id[OF made(3)]] by simp
  ultimately show ?thesis using made by (auto simp: announcing_def dest!: set_jset_cases)
qed (use ann in \<open>auto simp: announcing_def\<close>)

lemma announcing_create_link:
  assumes ann: "announcing c" and eq: "create_link cfg c = (x, c')"
  shows "announcing c'"
  using eq
  by (cases rule: create_link_cases)
    (use ann announcing_silent[OF ann] along_result[OF silent_connect_link] in auto)

lemma announcing_destroy_link:
  assumes ann: "announcing c" and eq: "destroy_link i c = (x, c')"
  shows "announcing c'"
  using eq
proof (cases rule: destroy_link_cases)
  case missing
  with ann show ?thesis by simp
next
  case (gone li w)
  have "announced (net c)" using ann by (simp add: announcing_def)
  note rm = remove_listener_announced[OF this]
  show ?thesis by (rule announcing_net[OF ann]) (simp_all add: gone rm)
qed

lemma announcing_destroy_hardware:
  assumes ann: "announcing c" and eq: "destroy_hardware i c = (x, c')"
  shows "announcing c'"
  using eq
proof (cases rule: destroy_hardware_cases)
  case missing
  with ann show ?thesis by simp
next
  case (failed k e w)
  have "announced (net c)" using ann by (simp add: announcing_def)
  note un = unpublish_announced[OF this failed(2)]
  show ?thesis by (rule announcing_net[OF ann]) (use failed un(1,3) in auto)
next
  case (gone k w)
  have "announced (net c)" "\<not> ct_local (hi_container k)"
    using ann map_of_SomeD[OF gone(1)] by (auto simp: announcing_def)
  then show ?thesis
    using unpublish_announced[OF _ gone(2)] set_jdel_subset[of i "hardware c"]
    by (intro announcing_net[OF ann]) (auto simp: gone(4))
qed

lemma announcing_destroy_plugin:
  assumes ann: "announcing c" and inv: "running_inv c" and eq: "destroy_plugin i c = (x, c')"
  shows "announcing c'"
  using eq
proof (cases rule: destroy_plugin_cases)
  case missing
  with ann show ?thesis by simp
next
  case (failed k e w)
  have "announced (net c)" using ann by (simp add: announcing_def)
  note un = unpublish_announced[OF this failed(2)]
  show ?thesis by (rule announcing_net[OF ann]) (use failed un(1,3) in auto)
next
  case (gone k w)
  have "announced (net c)" using ann by (simp add: announcing_def)
  note un = unpublish_announced[OF this gone(2)]
  have own: "has_id (net c) (ct_object (pk_net p)) j" if "(j, p) \<in> set (pluginContainers c)" for j p
    using inv that by (auto simp: running_inv_def objects_owned_def)
  have rest: "j \<noteq> i \<and> (j, p) \<in> set (pluginContainers c)" if "(j, p) \<in> set (jdel i (pluginContainers c))" for j p
    using that by (auto simp: AList.delete_eq)
  have "(i, k) \<in> set (pluginContainers c)" using gone(1) by (rule map_of_SomeD)
  then have "ct_object (pk_net p) \<noteq> ct_object (pk_net k)" if "(j, p) \<in> set (jdel i (pluginContainers c))" for j p
    using own[of i k] own[of j p] rest[OF that] by (auto simp: has_id_def)
  then show ?thesis
    using ann un(1,2) gone(4) rest unfolding announcing_def by fastforce
qed

subsection \<open>The manager\<close>

lemma announcing_op: "(\<And>c x c'. announcing c \<Longrightarrow> m c = (x, c') \<Longrightarrow> announcing c') \<Longrightarrow> along (keeps announcing) m"
  unfolding along_def keeps_def by (metis prod.collapse)

text \<open>Operations that touch neither the network nor the components.\<close>

lemma announcing_frame:
  assumes "\<And>c x c'. m c = (x, c') \<Longrightarrow> net c' = net c \<and> pluginContainers c' = pluginContainers c \<and> hardware c' = hardware c"
  shows "along (keeps announcing) m"
  by (rule announcing_op) (metis announcing_cong assms)

lemma announcing_updateData: "along (keeps announcing) (updateData g)"
  by (rule announcing_frame) (simp add: updateData_frame)

lemma announcing_data:
  "along (keeps announcing) (data_addPlugin i p)" "along (keeps announcing) (data_removePlugin i)"
  "along (keeps announcing) (data_addHardware i h)" "along (keeps announcing) (data_removeHardware i)"
  "along (keeps announcing) (data_addLink i l)" "along (keeps announcing) (data_removeLink i)"
  unfolding data_addPlugin_def data_removePlugin_def data_addHardware_def data_removeHardware_def data_addLink_def
    data_removeLink_def
  by (rule announcing_updateData)+

lemma announcing_ops:
  "along (keeps announcing) (create_plugin depth require icon p)" "along (keeps announcing) (create_hardware h)"
  "along (keeps announcing) (create_link l)" "along (keeps announcing) (destroy_hardware i)"
  "along (keeps announcing) (destroy_link i)"
  by (intro announcing_op; erule (1) announcing_create_plugin announcing_create_hardware announcing_create_link
      announcing_destroy_hardware announcing_destroy_link)+

lemma announcing_getData: "along (keeps announcing) (getData f)"
  by (rule announcing_frame)
    (auto simp: getData_def checkData_def seqE_def bindE_def readE_def modifyE_def split: option.splits)

lemma announcing_initialize: "along (keeps announcing) (initialize depth require icon)"
  unfolding initialize_def data_getHardware_def data_getPlugins_def data_getLinks_def
  by (intro keeps.along_bindE keeps.along_seqE keeps.along_forE keeps.along_ret announcing_getData announcing_ops)

lemma announcing_checkLink: "along (keeps announcing) (checkLink i)"
  by (rule announcing_frame) (metis checkLink_state snd_conv)

lemma announcing_manager:
  "along (keeps announcing) (addPlugin depth require icon p)" "along (keeps announcing) (addHardware h)"
  "along (keeps announcing) (addLink l)" "along (keeps announcing) (removeHardware i)"
  "along (keeps announcing) (removeLink i)"
  unfolding addPlugin_def addHardware_def addLink_def removeHardware_def removeLink_def
  by (intro keeps.along_bindE keeps.along_seqE keeps.along_if keeps.along_throw keeps.along_ret announcing_ops
      announcing_data announcing_checkLink)+

lemma announcing_removePlugin:
  assumes "announcing c" "core_inv c" "removePlugin i c = (x, c')"
  shows "announcing c'"
proof (cases "checkLink i c")
  case (Pair y c1)
  then have c1: "c1 = c" using checkLink_state[of i c] by simp
  show ?thesis
  proof (cases y)
    case (Inl e)
    with assms Pair c1 show ?thesis by (auto simp: removePlugin_def seqE_def bindE_def)
  next
    case (Inr u)
    obtain z c2 where d: "destroy_plugin i c = (z, c2)" by force
    have ann2: "announcing c2" using announcing_destroy_plugin[OF assms(1) _ d] assms(2) by (simp add: core_inv_def)
    have "along (keeps announcing) (if \<not> ok then throw PluginNotFound else data_removePlugin i)" for ok
      by (intro keeps.along_if keeps.along_throw announcing_data)
    then have "announcing (snd ((if \<not> ok then throw PluginNotFound else data_removePlugin i) c2))" for ok
      using ann2 unfolding along_def keeps_def by blast
    then show ?thesis
      using assms(3) Pair c1 Inr d ann2 by (cases z) (auto simp: removePlugin_def seqE_def bindE_def, metis snd_conv)
  qed
qed

lemma announcing_types:
  "along (keeps announcing) (refreshPluginTypes require icon)" "along (keeps announcing) (checkPluginTypes require icon)"
  by (rule announcing_frame; erule refreshPluginTypes_frame checkPluginTypes_frame; simp)+

lemma announcing_handle:
  assumes "announcing c" "core_inv c"
  shows "announcing (snd (handle depth require icon q c))"
proof -
  have op: "announcing (snd (m c))" if "along (keeps announcing) m" for m :: "'b cop"
    using that assms(1) unfolding along_def keeps_def by blast
  show ?thesis
  proof (cases q)
    case (DeletePlugin i)
    then show ?thesis using announcing_removePlugin[OF assms] by (simp add: snd_respond) (metis prod.collapse)
  next
    case GetUi
    then show ?thesis using assms(1)
      by (auto simp: snd_respond data_getUi_def split: option.split intro: announcing_cong)
  next
    case (PostUi u)
    then show ?thesis using assms(1) by (auto simp: snd_respond data_setUi_def modifyE_def intro: announcing_cong)
  next
    case GetPluginTypes
    have "along (keeps announcing) (getPluginTypes require icon)"
      unfolding getPluginTypes_def plugin_types_def
      by (intro keeps.along_seqE keeps.along_bindE announcing_types keeps_readE keeps.along_ret)
    with GetPluginTypes show ?thesis by (simp add: snd_respond op)
  next
    case (PostPluginType name)
    have "along (keeps announcing) (register_plugin require icon name)"
      unfolding register_plugin_def
      by (intro keeps.along_seqE keeps.along_bindE announcing_types keeps_readE keeps.along_if
          keeps.along_throw announcing_frame) (auto simp: modifyE_def)
    with PostPluginType show ?thesis by (simp add: snd_respond addPluginType_def op)
  qed (use assms(1) in \<open>simp_all add: snd_respond getPlugins_def getHardware_def getLinks_def readE_def op announcing_manager announcing_types\<close>)
qed

subsection \<open>Messages, presence and timers\<close>

text \<open>
  Inputs after which no listener has thrown. A message whose action is unknown or gets wrong arguments is refused
  before any listener runs.
\<close>

definition refused :: "nobject \<Rightarrow> string \<Rightarrow> jsval list \<Rightarrow> bool" where
  "refused ob name args \<longleftrightarrow>
     (case getMember ob name of Some (Action n ts) \<Rightarrow> check_call args ts \<noteq> None | _ \<Rightarrow> True)"

definition calm_message :: "nat \<Rightarrow> container \<Rightarrow> string \<Rightarrow> string \<Rightarrow> world \<Rightarrow> bool" where
  "calm_message depth ct to text w =
     (case heap w (ct_object ct) of
        None \<Rightarrow> True
      | Some ob \<Rightarrow>
          (case message_args ob to text of
             None \<Rightarrow> True
           | Some args \<Rightarrow> refused ob (hd args) (map VStr (tl args)) \<or>
               fst (executeAction depth (ct_object ct) (hd args) (map VStr (tl args)) w) = Inr ()))"

fun calm_input :: "nat \<Rightarrow> input \<Rightarrow> core \<Rightarrow> bool" where
  "calm_input depth (IncomingMessage i from to text) c =
     (case jget (pluginContainers c) i of None \<Rightarrow> True | Some k \<Rightarrow> calm_message depth (pk_net k) to text (net c))"
| "calm_input depth (WatcherEvent ev) c = (fst (deliver_event depth ev (net c)) = Inr ())"
| "calm_input depth (TimerDue tid) c = (fst (fire_timer depth tid (net c)) = Inr ())"
| "calm_input depth _ c = True"

fun calm_run :: "nat \<Rightarrow> (string \<Rightarrow> js_error + plugin_kind) \<Rightarrow> (string \<Rightarrow> string) \<Rightarrow> input list \<Rightarrow> core \<Rightarrow> bool" where
  "calm_run depth require icon [] c = True"
| "calm_run depth require icon (i # is) c =
     (calm_input depth i c \<and> calm_run depth require icon is (core_step depth require icon i c))"

lemma settled_announcing:
  assumes "announcing c" "settles m" "m (net c) = (Inr x, w)"
  shows "announcing (c\<lparr>net := w\<rparr>)"
proof -
  have "nicks_ok (net c)" "current {} (net c)" using assms(1) by (simp_all add: announcing_def announced_def)
  note s = settlesD[OF assms(2) this assms(3)]
  then have "announced w" by (simp add: announced_def)
  then show ?thesis by (intro announcing_net[OF assms(1)]) (simp_all add: s(3))
qed

lemma refused_execute:
  "heap w r = Some ob \<Longrightarrow> refused ob name args \<Longrightarrow> \<exists>e. executeAction depth r name args w = (Inl e, w)"
  by (auto simp: refused_def executeAction_def execute_action_with_def with_object_def op_defs
      split: option.splits member.splits)

lemma announcing_message:
  assumes "announcing c" "calm_message depth ct to text (net c)"
  shows "announcing (c\<lparr>net := snd (message depth ct from to text (net c))\<rparr>)"
proof -
  have same: "announcing (c\<lparr>net := net c\<rparr>)" using assms(1) by simp
  have log: "silent w (snd (log_irc (IrcNotice k from e) w))" for w k e
    using silent_log[of "IrcNotice k from e"] by (simp add: along_def)
  show ?thesis
  proof (cases "heap (net c) (ct_object ct)")
    case None
    with same show ?thesis by (simp add: message_def with_object_def)
  next
    case (Some ob)
    show ?thesis
    proof (cases "message_args ob to text")
      case None
      with Some same show ?thesis by (simp add: message_def with_object_def ret_def)
    next
      case args: (Some args)
      let ?act = "executeAction depth (ct_object ct) (hd args) (map VStr (tl args))"
      have m: "message depth ct from to text (net c) = catch_notice (ct_link ct) from ?act (net c)"
        using Some args by (simp add: message_def with_object_def)
      show ?thesis
      proof (cases "refused ob (hd args) (map VStr (tl args))")
        case True
        then obtain e where "?act (net c) = (Inl e, net c)" using refused_execute[OF Some] by blast
        then have "message depth ct from to text (net c) = log_irc (IrcNotice (ct_link ct) from e) (net c)"
          by (simp add: m catch_notice_def)
        with log show ?thesis by (intro announcing_silent[OF assms(1)]) simp_all
      next
        case False
        then obtain w where w: "?act (net c) = (Inr (), w)"
          using assms(2) Some args by (cases "?act (net c)") (auto simp: calm_message_def)
        then have "message depth ct from to text (net c) = (Inr (), w)" by (simp add: m catch_notice_def)
        then show ?thesis using settled_announcing[OF assms(1) settles_executeAction w] by simp
      qed
    qed
  qed
qed

lemma snd_lift_net: "snd (lift_net m c) = c\<lparr>net := snd (m (net c))\<rparr>"
  by (simp add: lift_net_def split: prod.split)

lemma settles_deliver_event: "settles (deliver_event depth ev)"
proof (rule settlesI)
  fix T w x w' assume w: "nicks_ok w" "current T w" "deliver_event depth ev w = (Inr x, w')"
  show "nicks_ok w' \<and> current T w' \<and> (\<forall>r c. announcer w' r c = announcer w r c)"
  proof (cases "watcher w")
    case None
    with w show ?thesis by (simp add: deliver_event_def)
  next
    case (Some wid)
    with w(3) have "watcher_event depth wid ev w = (Inr x, w')" by (simp add: deliver_event_def)
    from settlesD[OF settles_watcher_event w(1,2) this] show ?thesis by simp
  qed
qed

lemma announcing_step:
  assumes "announcing c" "core_inv c" "calm_input depth i c"
  shows "announcing (core_step depth require icon i c)"
proof (cases i)
  case (Request q)
  with assms show ?thesis by (simp add: announcing_handle)
next
  case (IncomingMessage j sndr tgt msg)
  with assms show ?thesis
    by (auto simp: deliver_message_def snd_lift_net announcing_message split: option.splits)
next
  case (WatcherEvent ev)
  then obtain w where w: "deliver_event depth ev (net c) = (Inr (), w)"
    using assms(3) by (cases "deliver_event depth ev (net c)") simp
  from settled_announcing[OF assms(1) settles_deliver_event this] WatcherEvent w show ?thesis
    by (simp add: snd_lift_net)
next
  case (TimerDue tid)
  then obtain w where w: "fire_timer depth tid (net c) = (Inr (), w)"
    using assms(3) by (cases "fire_timer depth tid (net c)") simp
  from settled_announcing[OF assms(1) settles_fire_timer this] TimerDue w show ?thesis
    by (simp add: snd_lift_net)
next
  case (TimePasses ms)
  then show ?thesis
    by (intro announcing_silent[OF assms(1)]) (simp_all add: snd_lift_net advance_clock_def modifyE_def)
qed

lemma announcing_run:
  assumes "announcing c" "core_inv c" "calm_run depth require icon ins c"
  shows "announcing (core_run depth require icon ins c)"
  using assms by (induction ins arbitrary: c) (simp_all add: announcing_step core_inv_step)

lemma announcing_current:
  assumes "announcing c" "jget (pluginContainers c) i = Some k"
  shows "announces (net c) (ct_object (pk_net k)) (ct_link (pk_net k))"
  using assms map_of_SomeD[OF assms(2)] by (auto simp: announcing_def announced_def current_def)

end
