(* ===== verification/AnnounceProps.thy ===== *)
theory AnnounceProps
  imports AnnounceCore PluginProps
begin

section \<open>Properties of the announcements\<close>

text \<open>
  Two properties of the core as a whole: what IRC knows of the components is what their objects hold, as long
  as no listener throws; and a listener that throws, a link to an action without arguments, keeps a value from IRC.
\<close>

text \<open>
  C6: The announcements are up to date. From the start of the process on its data file, whatever sequence of REST requests,
  messages, connection events and timers it handles, if none of them ends in an error of a listener, the
  last nick told to IRC by the client of each running plugin spells the id and the present values of all attributes of its component.
\<close>

theorem announcements_current:
  assumes start: "c0 = snd (initialize depth0 require icon (fresh_process nick files df uf))" "core_inv c0"
    and calm: "calm_run depth require icon ins c0"
    and running: "jget (pluginContainers (core_run depth require icon ins c0)) i = Some k"
  shows "\<exists>ob nick. heap (net (core_run depth require icon ins c0)) (ct_object (pk_net k)) = Some ob \<and> obj_id ob = i \<and>
    makeNick ob = Inr nick \<and>
    last_nick (ct_link (pk_net k)) (irc_log (net (core_run depth require icon ins c0))) = Some nick"
proof -
  let ?c = "core_run depth require icon ins c0"
  have "announcing c0"
    using announcing_initialize[of depth0 require icon] announcing_fresh start(1) unfolding along_def keeps_def by blast
  then have "announcing ?c" using start(2) calm by (rule announcing_run)
  then have "announces (net ?c) (ct_object (pk_net k)) (ct_link (pk_net k))" using running by (rule announcing_current)
  moreover have "core_inv ?c" using start(2) by (rule core_inv_run)
  then have "has_id (net ?c) (ct_object (pk_net k)) i"
    using map_of_SomeD[OF running] by (auto simp: core_inv_def running_inv_def objects_owned_def)
  ultimately show ?thesis by (auto simp: announces_def has_id_def)
qed

text \<open>A process without components, to which a light is added.\<close>

definition no_data :: persisted where
  "no_data = \<lparr>ps_hardware = [], ps_plugins = [], ps_links = []\<rparr>"

definition idle_core :: core where
  "idle_core = (fresh_process ''node-1'' repo_plugin_dir (Some no_data) None)\<lparr>data_cache := Some no_data\<rparr>"

lemma idle_start: "initialize 20 repo_require sample_icon (fresh_process ''node-1'' repo_plugin_dir (Some no_data) None) = (Inr (), idle_core)"
  by (simp add: initialize_def data_getHardware_def data_getPlugins_def data_getLinks_def getData_def checkData_def
      idle_core_def fresh_process_def op_defs readE_def no_data_def)

lemma idle_inv: "core_inv idle_core"
  by (simp add: idle_core_def core_inv_def running_inv_def data_synced_def fresh_process_def no_data_def preg.well_keyed_def
      hreg.well_keyed_def lreg.well_keyed_def links_connected_def published_owned_def objects_owned_def world_typed_def
      empty_world_def keyed_def)

definition light_type :: plugin_type where
  "light_type = make_plugin_type sample_icon ''light'' Light"

definition light_container :: plugin_container where
  "light_container = \<lparr>pk_id = ''lamp'', pk_typeId = ''light'', pk_config = sample_plugin ''lamp'' ''light'',
     pk_net = plugin_publication light_type 0\<rparr>"

definition light_core :: core where
  "light_core = idle_core\<lparr>net := plugin_published ''lamp'' light_type (empty_world ''node-1''), pluginTypes := Some sample_types,
     pluginContainers := [(''lamp'', light_container)],
     data_cache := Some (no_data\<lparr>ps_plugins := [(''lamp'', sample_plugin ''lamp'' ''light'')]\<rparr>),
     data_file := Some (no_data\<lparr>ps_plugins := [(''lamp'', sample_plugin ''lamp'' ''light'')]\<rparr>)\<rparr>"

lemma light_added:
  "core_step 20 repo_require sample_icon (Request (PostPlugin (sample_plugin ''lamp'' ''light''))) idle_core = light_core"
proof -
  have ty: "jget sample_types ''light'' = Some light_type" by code_simp
  have "types_available repo_require sample_icon sample_types idle_core"
    using sample_files by (simp add: types_available_def idle_core_def fresh_process_def)
  note check = checkPluginTypes_available[OF this]
  have "pt_class light_type = plugin_class (pt_kind light_type)" by (simp add: light_type_def make_plugin_type_def)
  note inst = instantiate_plugin_result[OF this]
  have "create_plugin 20 repo_require sample_icon (sample_plugin ''lamp'' ''light'') idle_core =
      (Inr light_container, idle_core\<lparr>net := plugin_published ''lamp'' light_type (empty_world ''node-1''),
        pluginTypes := Some sample_types, pluginContainers := [(''lamp'', light_container)]\<rparr>)"
    using check ty inst[of 20 "''lamp''" "empty_world ''node-1''"]
    by (simp add: create_plugin_def op_defs readE_def lift_net_def sample_plugin_def light_container_def light_type_def
        make_plugin_type_def idle_core_def fresh_process_def empty_world_def Let_def)
  then show ?thesis
    by (simp add: snd_respond addPlugin_def op_defs data_addPlugin_def updateData_loaded[of _ no_data] light_core_def idle_core_def
        light_container_def sample_plugin_def no_data_def)
qed

definition light_on :: input where
  "light_on = IncomingMessage ''lamp'' ''ui'' ''lamp'' ''input on''"

lemma light_switched:
  "message_args (plugin_object ''lamp'' Light 1 (initial_values Light)) ''lamp'' ''input on'' = Some [''input'', ''on'']"
  "executeAction 20 0 ''input'' [v_on] (net light_core) =
     (Inr (), announce ''lamp'' Light 1 0 ((initial_values Light)(''output'' \<mapsto> v_on)) (net light_core))"
proof -
  show "message_args (plugin_object ''lamp'' Light 1 (initial_values Light)) ''lamp'' ''input on'' = Some [''input'', ''on'']"
    by (simp add: message_args_def)
  have "heap (net light_core) 0 = Some (plugin_object ''lamp'' Light 1 (initial_values Light))"
    by (simp add: light_core_def plugin_published_def empty_world_def light_type_def make_plugin_type_def)
  from light_follows_input[OF this, of 18 v_on]
  show "executeAction 20 0 ''input'' [v_on] (net light_core) =
     (Inr (), announce ''lamp'' Light 1 0 ((initial_values Light)(''output'' \<mapsto> v_on)) (net light_core))"
    by simp
qed

theorem announcements_current_witness:
  "\<exists>ob nick. heap (net (core_run 20 repo_require sample_icon
        [Request (PostPlugin (sample_plugin ''lamp'' ''light'')), light_on] idle_core)) 0 = Some ob \<and> obj_id ob = ''lamp'' \<and>
      makeNick ob = Inr nick \<and>
      last_nick 1 (irc_log (net (core_run 20 repo_require sample_icon
        [Request (PostPlugin (sample_plugin ''lamp'' ''light'')), light_on] idle_core))) = Some nick"
proof -
  have heap: "heap (net light_core) 0 = Some (plugin_object ''lamp'' Light 1 (initial_values Light))"
    and lamp: "jget (pluginContainers light_core) ''lamp'' = Some light_container"
    by (simp_all add: light_core_def plugin_published_def empty_world_def light_type_def make_plugin_type_def)
  have ct: "ct_object (pk_net light_container) = 0" "ct_link (pk_net light_container) = 1"
    by (simp_all add: light_container_def plugin_publication_def)
  have calm: "calm_run 20 repo_require sample_icon [Request (PostPlugin (sample_plugin ''lamp'' ''light'')), light_on] idle_core"
    unfolding calm_run.simps light_added
    using light_switched by (simp add: light_on_def lamp calm_message_def ct heap)
  have "pluginContainers (core_run 20 repo_require sample_icon [Request (PostPlugin (sample_plugin ''lamp'' ''light'')), light_on] idle_core)
      = pluginContainers light_core"
    unfolding core_run.simps light_added by (simp add: light_on_def deliver_message_def lamp snd_lift_net)
  then have k: "jget (pluginContainers (core_run 20 repo_require sample_icon
      [Request (PostPlugin (sample_plugin ''lamp'' ''light'')), light_on] idle_core)) ''lamp'' = Some light_container"
    using lamp by (simp only:)
  have start: "idle_core = snd (initialize 20 repo_require sample_icon (fresh_process ''node-1'' repo_plugin_dir (Some no_data) None))"
    by (simp add: idle_start)
  from announcements_current[OF start idle_inv calm k] show ?thesis by (simp only: ct)
qed

subsection \<open>A link that throws\<close>

text \<open>
  The first listener of the attribute is a link to an action without arguments: the editor and the core accept such links,
  and the link calls the action with the value.
\<close>

definition muted :: "oref \<Rightarrow> string \<Rightarrow> net_type \<Rightarrow> world \<Rightarrow> bool" where
  "muted r n t w \<longleftrightarrow> (\<exists>ob u src dst cfg ls target m.
     heap w r = Some ob \<and> getMember ob n = Some (Attribute n t) \<and>
     listeners_of ob (EvAttributeOf n) = LinkListener u src dst cfg # ls \<and>
     heap w dst = Some target \<and> getMember target (destinationAction cfg) = Some (Action m []))"

lemma getMember_values [simp]: "getMember (ob\<lparr>attr_values := vs\<rparr>) a = getMember ob a"
  by (simp add: getMember_def)

lemma listeners_of_values [simp]: "listeners_of (ob\<lparr>attr_values := vs\<rparr>) ev = listeners_of ob ev"
  by (simp add: listeners_of_def)

lemma muted_put_value: "muted r n t w \<Longrightarrow> muted r n t (put_value r a v w)"
proof -
  assume "muted r n t w"
  then obtain ob u src dst cfg ls target m where m: "heap w r = Some ob" "getMember ob n = Some (Attribute n t)"
      "listeners_of ob (EvAttributeOf n) = LinkListener u src dst cfg # ls" "heap w dst = Some target"
      "getMember target (destinationAction cfg) = Some (Action m [])"
    unfolding muted_def by blast
  let ?put = "\<lambda>q. if q = r then map_option (\<lambda>ob. ob\<lparr>attr_values := (attr_values ob)(a \<mapsto> v)\<rparr>) (heap w q) else heap w q"
  have put: "heap (put_value r a v w) = ?put" by (auto simp: put_value_def)
  obtain target' where "heap (put_value r a v w) dst = Some target'" "getMember target' (destinationAction cfg) = Some (Action m [])"
    using m(4,5) by (cases "dst = r") (auto simp: put)
  moreover have "heap (put_value r a v w) r = Some (ob\<lparr>attr_values := (attr_values ob)(a \<mapsto> v)\<rparr>)" using m(1) by (simp add: put)
  ultimately show ?thesis unfolding muted_def using m(2,3) by (metis getMember_values listeners_of_values)
qed

lemma muted_set:
  assumes "muted r n t w" "checkArg v t = None" "v \<noteq> VUndefined"
  shows "\<exists>e. setAttribute (Suc depth) r n v w = (Inl e, put_value r n v w)"
proof -
  have "muted r n t (put_value r n v w)" using assms(1) by (rule muted_put_value)
  then obtain ob u src dst cfg ls target m where m: "heap (put_value r n v w) r = Some ob"
      "listeners_of ob (EvAttributeOf n) = LinkListener u src dst cfg # ls" "heap (put_value r n v w) dst = Some target"
      "getMember target (destinationAction cfg) = Some (Action m [])"
    unfolding muted_def by blast
  have "\<exists>e. execute_action_with (call_listener depth) dst (destinationAction cfg) [v] (put_value r n v w) = (Inl e, put_value r n v w)"
    using m(3,4) by (simp add: execute_action_with_def with_object_def check_call_def throw_def)
  then obtain e where "emit_with (call_listener (Suc depth)) r (EvAttributeOf n) (PValue v) (put_value r n v w) =
      (Inl e, put_value r n v w)"
    using m(1,2) assms(3) by (auto simp: emit_with_def with_object_def listener_body_def link_handler_def op_defs)
  moreover obtain ob0 where "heap w r = Some ob0" "getMember ob0 n = Some (Attribute n t)" using assms(1) by (auto simp: muted_def)
  ultimately show ?thesis
    using assms(2) by (simp add: setAttribute_def set_attribute_with_def with_object_def op_defs)
qed

text \<open>
  C14: An accepted link can silence its source. When the first link of an attribute leads to an action without arguments, every change of
  the attribute throws after the value is stored and before the nick is sent: whatever values it
  takes from then on, the object holds the last one and IRC hears of none.
\<close>

theorem throwing_link_hides_values:
  assumes "muted r n t w" "vs \<noteq> []" "\<forall>v \<in> set vs. checkArg v t = None \<and> v \<noteq> VUndefined"
  shows "\<exists>ob. heap (foldl (\<lambda>w v. snd (setAttribute (Suc depth) r n v w)) w vs) r = Some ob \<and>
    attr_values ob n = Some (last vs) \<and>
    irc_log (foldl (\<lambda>w v. snd (setAttribute (Suc depth) r n v w)) w vs) = irc_log w"
  using assms
proof (induction vs arbitrary: w)
  case (Cons v vs)
  have w1: "snd (setAttribute (Suc depth) r n v w) = put_value r n v w"
    using muted_set[OF Cons.prems(1), of v depth] Cons.prems(3) by auto
  have next_world: "muted r n t (put_value r n v w)" using Cons.prems(1) by (rule muted_put_value)
  have log: "irc_log (put_value r n v w) = irc_log w" by (simp add: put_value_def)
  show ?case
  proof (cases "vs = []")
    case True
    obtain ob where "heap w r = Some ob" using Cons.prems(1) by (auto simp: muted_def)
    with True log show ?thesis by (simp add: w1) (simp add: put_value_def)
  next
    case False
    from Cons.IH[OF next_world this] Cons.prems(3) log show ?thesis by (simp add: w1 False)
  qed
qed simp

text \<open>The light linked to the button: every command of the light is stored and none is told.\<close>

definition link_muting :: link_config where
  "link_muting = sample_link ''lamp'' ''output'' ''btn'' ''input''"

definition muted_core :: core where
  "muted_core = snd (create_link link_muting sample_pair)"

theorem throwing_link_hides_values_witness:
  "\<exists>ob. heap (foldl (\<lambda>w v. snd (setAttribute (Suc 20) 2 ''output'' v w)) (net muted_core) [v_on, v_off, v_on]) 2 = Some ob \<and>
    attr_values ob ''output'' = Some (last [v_on, v_off, v_on]) \<and>
    irc_log (foldl (\<lambda>w v. snd (setAttribute (Suc 20) 2 ''output'' v w)) (net muted_core) [v_on, v_off, v_on]) = irc_log (net muted_core)"
proof (rule throwing_link_hides_values)
  let ?src = "(plugin_object ''lamp'' Light 3 (initial_values Light))\<lparr>listeners :=
        listeners (plugin_object ''lamp'' Light 3 (initial_values Light)) @
        [(EvAttributeOf ''output'', LinkListener 4 2 0 link_muting), (EvConnected, LinkListener 4 2 0 link_muting)]\<rparr>"
  have heap: "heap (net muted_core) = (heap sample_net)(2 \<mapsto> ?src)"
    by (simp add: muted_core_def create_link_def sample_pair_def fresh_process_def lift_net_def
      connect_link_def op_defs repository_object_def sample_net_repository link_muting_def sample_link_def
      Let_def new_id_def plugin_publication_def add_listener_def map_listeners_def sample_net_heap)
  have "listeners_of ?src (EvAttributeOf ''output'') = [LinkListener 4 2 0 link_muting]"
    by (simp add: listeners_of_def plugin_object_def)
  moreover have "getMember ?src ''output'' = Some (Attribute ''output'' boolean_type)"
    by (simp add: getMember_def plugin_object_def plugin_class_defs net_builders)
  moreover have "getMember (plugin_object ''btn'' Button 1 (initial_values Button)) (destinationAction link_muting) = Some (Action ''input'' [])"
    by (simp add: getMember_def plugin_object_def plugin_class_defs net_builders link_muting_def sample_link_def)
  ultimately show "muted 2 ''output'' boolean_type (net muted_core)"
    unfolding muted_def heap using sample_net_heap(1) by fastforce
qed (simp_all add: checkArg_def boolean_type_def netEnum_def)

end
