(* ===== verification/Replica.thy ===== *)
theory Replica
  imports CoreSteps NetProps
begin

section \<open>Copies of remote components\<close>

text \<open>
  A hardware component in a core is a copy of a component of another process: an object without plugin,
  whose values only the watcher sets. The theory shows that nothing else in the process
  changes them, whatever runs and throws, and that the events of the watcher do what an
  abstract observer of the IRC channel does: the copy follows the presence of the component and the last nick it has used.
\<close>

subsection \<open>Nothing else sets the values of a copy\<close>

definition a_copy :: "oref \<Rightarrow> world \<Rightarrow> bool" where
  "a_copy r w \<longleftrightarrow> (\<exists>ob. heap w r = Some ob \<and> (\<forall>ev h. (ev, PluginListener h) \<notin> set (listeners ob))) \<and>
     (\<forall>t \<in> set (timers w). tm_obj t \<noteq> r)"

definition copied_values :: "oref \<Rightarrow> world \<Rightarrow> (string \<rightharpoonup> jsval) option" where
  "copied_values r w = map_option attr_values (heap w r)"

definition spare :: "oref \<Rightarrow> world \<Rightarrow> world \<Rightarrow> bool" where
  "spare r w w' \<longleftrightarrow> (a_copy r w \<longrightarrow> a_copy r w' \<and> copied_values r w' = copied_values r w)"

interpretation spare: state_order "spare r" for r
  by unfold_locales (auto simp: spare_def)

lemma spareD:
  "along (spare r) m \<Longrightarrow> m w = (x, w') \<Longrightarrow> a_copy r w \<Longrightarrow> a_copy r w' \<and> copied_values r w' = copied_values r w"
  using along_result[of "spare r" m w x w'] by (simp add: spare_def)

lemma spare_update [simp]:
  "spare r w (w\<lparr>irc_log := l\<rparr>)" "spare r w (w\<lparr>timeouts := tt\<rparr>)" "spare r w (w\<lparr>clock := t\<rparr>)"
  "spare r w (w\<lparr>watchers := ws\<rparr>)"
  "set ts \<subseteq> set (timers w) \<Longrightarrow> spare r w (w\<lparr>timers := ts\<rparr>)"
  by (auto simp: spare_def a_copy_def copied_values_def)

lemma spare_put_value: "q \<noteq> r \<Longrightarrow> spare r w (put_value q n v w)"
  by (simp add: spare_def a_copy_def copied_values_def put_value_def)

lemma spare_log: "along (spare r) (log_irc c)"
  unfolding log_irc_def by (rule spare.along_modifyE) simp

lemma spare_with_object: "(\<And>ob. along (spare r) (f ob)) \<Longrightarrow> along (spare r) (with_object q f)"
  by (auto simp: along_def with_object_def spare.R_refl split: option.split)

lemma spare_getAttribute: "along (spare r) (getAttribute q n)"
  unfolding getAttribute_def by (rule spare_with_object) (simp add: along_def spare.R_refl)

text \<open>The calls of listeners: only a plugin of \<open>r\<close> itself could set its attributes.\<close>

definition sparing :: "oref \<Rightarrow> calls \<Rightarrow> bool" where
  "sparing r call \<longleftrightarrow> (\<forall>q l p. (\<forall>h. q = r \<longrightarrow> l \<noteq> PluginListener h) \<longrightarrow> along (spare r) (call q l p))"

lemma spare_emit:
  assumes "sparing r call"
  shows "along (spare r) (emit_with call q ev p)"
  unfolding along_def
proof
  fix w
  show "spare r w (snd (emit_with call q ev p w))"
  proof (cases "a_copy r w")
    case False
    then show ?thesis by (simp add: spare_def)
  next
    case True
    show ?thesis
    proof (cases "heap w q")
      case None
      then show ?thesis by (simp add: emit_with_def with_object_def spare.R_refl)
    next
      case (Some ob)
      have "q = r \<longrightarrow> l \<noteq> PluginListener h" if "l \<in> set (listeners_of ob ev)" for l h
        using True Some that by (auto simp: a_copy_def listeners_of_def)
      then have "along (spare r) (forE (listeners_of ob ev) (\<lambda>l. call q l p))"
        using assms unfolding sparing_def by (intro spare.along_forE) blast
      then show ?thesis using Some by (simp add: emit_with_def with_object_def along_def)
    qed
  qed
qed

lemma spare_set_attribute:
  assumes "sparing r call" "q \<noteq> r"
  shows "along (spare r) (set_attribute_with call q n v)"
  unfolding set_attribute_with_def
  by (intro spare_with_object)
    (auto split: option.split member.split intro!: spare.along_rules spare_emit[OF assms(1)] spare_put_value[OF assms(2)])

lemma spare_execute_action: "sparing r call \<Longrightarrow> along (spare r) (execute_action_with call q n args)"
  unfolding execute_action_with_def
  by (intro spare_with_object) (auto split: option.split member.split intro!: spare.along_rules spare_emit)

lemma spare_delay:
  assumes "q \<noteq> r"
  shows "along (spare r) (delay_attribute q n v)"
proof -
  have "spare r w (w\<lparr>timers := ts @ [t], timeouts := tt, fresh := k\<rparr>)"
    if "set ts \<subseteq> set (timers w)" "tm_obj t = q" for w ts t tt k
    using assms that by (auto simp: spare_def a_copy_def copied_values_def)
  then show ?thesis
    unfolding delay_attribute_def Let_def by (intro spare.along_modifyE) (auto split: option.split)
qed

lemma spare_run_plugin: "sparing r call \<Longrightarrow> q \<noteq> r \<Longrightarrow> along (spare r) (run_plugin call h q args)"
  by (cases h)
    (auto simp: button_input_def switch_to_button_input_def hub_bool_input_def light_input_def
      step_relay_input_def step_relay_on_def step_relay_off_def step_relay_set_def
      music_setstate_def music_setvolume_def music_state_switch_def music_volume_more_def
      music_volume_less_def
      intro!: spare.along_rules spare_set_attribute spare_getAttribute spare_delay)

lemma spare_listener_body:
  assumes "sparing r call" "\<And>h. q = r \<Longrightarrow> l \<noteq> PluginListener h"
  shows "along (spare r) (listener_body call q l p)"
proof (cases l)
  case (NickListener client)
  then show ?thesis
    by (auto simp: listener_body_def attributeChanged_def intro!: spare_with_object spare.along_throw spare_log split: sum.split)
next
  case (RemoteListener wid chs)
  have "along (spare r) (watcher_send wid chs msg)" for msg
    using spare_log by (auto simp: along_def watcher_send_def spare.R_refl split: option.split)
  with RemoteListener show ?thesis
    by (auto simp: listener_body_def remote_execute_def intro!: spare_with_object spare.along_ret split: payload.split)
next
  case (LinkListener u src dst cfg)
  with assms(1) show ?thesis
    by (auto simp: listener_body_def link_handler_def intro!: spare.along_rules spare_getAttribute spare_execute_action)
next
  case (PluginListener h)
  with assms show ?thesis by (auto simp: listener_body_def intro: spare_run_plugin)
qed

lemma sparing_call_listener: "sparing r (call_listener depth)"
proof (induction depth)
  case 0
  then show ?case by (simp add: sparing_def spare.along_throw)
next
  case (Suc depth)
  then show ?case unfolding sparing_def[of r "call_listener (Suc depth)"] by (simp add: spare_listener_body)
qed

lemma spare_setAttribute: "q \<noteq> r \<Longrightarrow> along (spare r) (setAttribute depth q n v)"
  unfolding setAttribute_def by (rule spare_set_attribute[OF sparing_call_listener])

lemma spare_executeAction: "along (spare r) (executeAction depth q n args)"
  unfolding executeAction_def by (rule spare_execute_action[OF sparing_call_listener])

lemma spare_emit_event: "along (spare r) (emit depth q ev p)"
  unfolding emit_def by (rule spare_emit[OF sparing_call_listener])

lemma spare_message: "along (spare r) (message depth ct from to text)"
proof -
  have "along (spare r) (catch_notice client who m)" if "along (spare r) m" for client who m
  proof -
    have log: "spare r w (snd (log_irc c w))" for w c using spare_log by (simp add: along_def)
    have "spare r w (snd (m w))" for w using that by (simp add: along_def)
    then show ?thesis
      unfolding along_def catch_notice_def
      by (auto split: prod.split sum.split) (metis log snd_conv spare.R_trans, metis snd_conv)
  qed
  then show ?thesis
    unfolding message_def
    by (intro spare_with_object) (auto split: option.split intro: spare.along_ret spare_executeAction)
qed

lemma spare_fire_timer: "along (spare r) (fire_timer depth tid)"
  unfolding along_def
proof
  fix w
  show "spare r w (snd (fire_timer depth tid w))"
  proof (cases "find (\<lambda>t. tm_id t = tid \<and> tm_due t \<le> clock w) (timers w)")
    case None
    then show ?thesis by (simp add: fire_timer_def spare.R_refl)
  next
    case (Some t)
    let ?m = "seqE (modifyE (\<lambda>w. w\<lparr>timers := filter (\<lambda>t. tm_id t \<noteq> tid) (timers w)\<rparr>))
            (seqE (setAttribute depth (tm_obj t) (tm_attr t) (tm_value t))
               (modifyE (\<lambda>w. w\<lparr>timeouts := (timeouts w)(tm_obj t := (timeouts w (tm_obj t))(tm_attr t := None))\<rparr>)))"
    show ?thesis
    proof (cases "a_copy r w")
      case True
      then have "tm_obj t \<noteq> r" using Some by (auto simp: a_copy_def find_Some_iff)
      then have "along (spare r) ?m"
        by (intro spare.along_seqE spare.along_modifyE spare_setAttribute) auto
      then show ?thesis using Some by (simp add: fire_timer_def along_def)
    qed (simp add: spare_def)
  qed
qed

subsection \<open>What the watcher does to a copy\<close>

lemma copy_set:
  assumes "a_copy r w" "setAttribute depth r n v w = (Inr (), w')"
  shows "a_copy r w' \<and> copied_values r w' = map_option (\<lambda>f. f(n \<mapsto> v)) (copied_values r w)"
proof -
  obtain ob m t where ob: "heap w r = Some ob" "getMember ob n = Some (Attribute m t)"
      and run: "seqE (emit_with (call_listener depth) r (EvAttributeOf m) (PValue v))
        (emit_with (call_listener depth) r EvAttribute (PAttribute m v)) (put_value r m v w) = (Inr (), w')"
    using assms(2) by (auto simp: setAttribute_def set_attribute_with_def with_object_def seqE_Inr_iff split: option.splits member.splits)
  have m: "m = n" using getMember_attribute_name[OF ob(2)] .
  have "a_copy r (put_value r m v w)" using assms(1) by (auto simp: a_copy_def put_value_def)
  moreover have "along (spare r) (seqE (emit_with (call_listener depth) r (EvAttributeOf m) (PValue v))
        (emit_with (call_listener depth) r EvAttribute (PAttribute m v)))"
    by (intro spare.along_seqE spare_emit sparing_call_listener)
  ultimately have "a_copy r w' \<and> copied_values r w' = copied_values r (put_value r m v w)"
    using run by (blast dest: spareD)
  then show ?thesis using ob(1) by (simp add: copied_values_def put_value_def m)
qed

lemma copy_set_all:
  assumes "a_copy r w" "forE nvs (\<lambda>(n, v). setAttribute depth r n v) w = (Inr (), w')"
  shows "a_copy r w' \<and> copied_values r w' = map_option (\<lambda>f. foldl (\<lambda>f (n, v). f(n \<mapsto> v)) f nvs) (copied_values r w)"
  using assms
proof (induction nvs arbitrary: w)
  case (Cons nv nvs)
  obtain n v where nv: "nv = (n, v)" by (cases nv)
  with Cons.prems(2) obtain w1 where "setAttribute depth r n v w = (Inr (), w1)"
      "forE nvs (\<lambda>(n, v). setAttribute depth r n v) w1 = (Inr (), w')"
    by (auto simp: seqE_Inr_iff)
  with Cons.IH[of w1] copy_set[OF Cons.prems(1)] nv show ?case by (simp add: option.map_comp comp_def del: fun_upd_apply)
qed (simp add: op_defs option.map_ident)

text \<open>The values of a copy after a nick with the given parts, or after the component has left.\<close>

definition shows_parts :: "net_class \<Rightarrow> (string \<rightharpoonup> jsval) \<Rightarrow> string list option \<Rightarrow> bool" where
  "shows_parts cl vals p \<longleftrightarrow> (\<forall>(n, v) \<in> set (attribute_updates (members cl) p). vals n = Some v)"

lemma update_names: "map fst (attribute_updates ms p) = attribute_names ms"
  by (induction ms p rule: attribute_updates.induct) auto

lemma foldl_shows:
  assumes "distinct (map fst nvs)" "(n, v) \<in> set nvs"
  shows "foldl (\<lambda>f (n, v). f(n \<mapsto> v)) f nvs n = Some v"
proof -
  have keep: "foldl (\<lambda>f (n, v). f(n \<mapsto> v)) f nvs n = f n" if "n \<notin> fst ` set nvs" for f :: "'a \<rightharpoonup> 'b" and nvs n
    using that by (induction nvs arbitrary: f) auto
  show ?thesis
    using assms by (induction nvs arbitrary: f) (auto simp: keep)
qed

lemma copy_setAttributes:
  assumes "a_copy r w" "setAttributes depth r p w = (Inr (), w')" "heap w r = Some ob" "wf_class (obj_class ob)"
  shows "a_copy r w' \<and> (\<exists>vals. copied_values r w' = Some vals \<and> shows_parts (obj_class ob) vals p)"
proof -
  let ?nvs = "attribute_updates (members (obj_class ob)) p"
  have "forE ?nvs (\<lambda>(n, v). setAttribute depth r n v) w = (Inr (), w')"
    using assms(2,3) by (simp add: setAttributes_def with_object_def)
  from copy_set_all[OF assms(1) this] assms(3)
  have c: "a_copy r w'" "copied_values r w' = Some (foldl (\<lambda>f (n, v). f(n \<mapsto> v)) (attr_values ob) ?nvs)"
    by (simp_all add: copied_values_def)
  have "distinct (map fst ?nvs)" using attribute_names_distinct[OF assms(4)] by (simp add: update_names)
  then have "shows_parts (obj_class ob) (foldl (\<lambda>f (n, v). f(n \<mapsto> v)) (attr_values ob) ?nvs) p"
    by (auto simp: shows_parts_def intro: foldl_shows)
  with c show ?thesis by blast
qed

subsection \<open>The abstract observer\<close>

text \<open>
  What an observer of the channels knows of the component \<open>i\<close>: whether he is connected, and the parts of the last
  nick of the component while it is online.
\<close>

definition seen_nick :: "string \<Rightarrow> string list option \<Rightarrow> string \<Rightarrow> string list option" where
  "seen_nick i p nick = (if nick_id nick = i then Some (nick_attrs nick) else p)"

definition gone_nick :: "string \<Rightarrow> string list option \<Rightarrow> string \<Rightarrow> string list option" where
  "gone_nick i p nick = (if nick_id nick = i then None else p)"

fun observe :: "string \<Rightarrow> bool \<times> string list option \<Rightarrow> irc_event \<Rightarrow> bool \<times> string list option" where
  "observe i (on, p) (JoinEvent ch nick) = (on, seen_nick i p nick)"
| "observe i (on, p) (PartEvent ch nick) = (on, gone_nick i p nick)"
| "observe i (on, p) (KickEvent ch nick) = (on, gone_nick i p nick)"
| "observe i (on, p) (KillEvent nick) = (on, gone_nick i p nick)"
| "observe i (on, p) (QuitEvent nick) = (on, gone_nick i p nick)"
| "observe i (on, p) (NamesEvent ch (NamesArray users)) = (on, foldl (seen_nick i) p users)"
| "observe i (on, p) (NamesEvent ch (NamesObject users)) = (on, p)"
| "observe i (on, p) (NickEvent oldNick newNick) = (on, seen_nick i p newNick)"
| "observe i (on, p) RegisteredEvent = (True, p)"
| "observe i (on, p) ConnectionEndEvent = (False, if on then None else p)"

text \<open>The events that concern the component: its handler must not be cut short by a listener that throws.\<close>

fun concerns :: "string \<Rightarrow> irc_event \<Rightarrow> bool" where
  "concerns i (JoinEvent ch nick) = (nick_id nick = i)"
| "concerns i (PartEvent ch nick) = (nick_id nick = i)"
| "concerns i (KickEvent ch nick) = (nick_id nick = i)"
| "concerns i (KillEvent nick) = (nick_id nick = i)"
| "concerns i (QuitEvent nick) = (nick_id nick = i)"
| "concerns i (NamesEvent ch (NamesArray users)) = (i \<in> nick_id ` set users)"
| "concerns i (NamesEvent ch (NamesObject users)) = False"
| "concerns i (NickEvent oldNick newNick) = (nick_id newNick = i)"
| "concerns i RegisteredEvent = False"
| "concerns i ConnectionEndEvent = True"

text \<open>The entry of the copy in the table of the watcher.\<close>

definition listed :: "string \<Rightarrow> oref \<Rightarrow> bool \<Rightarrow> world \<Rightarrow> bool" where
  "listed i r on w \<longleftrightarrow> (\<exists>wid wt. watcher w = Some wid \<and> watchers w wid = Some wt \<and> wt_online wt = on \<and>
     jget (wt_objects wt) i = Some r \<and> (\<forall>j. jget (wt_objects wt) j = Some r \<longrightarrow> j = i))"

definition replica :: "string \<Rightarrow> net_class \<Rightarrow> oref \<Rightarrow> bool \<times> string list option \<Rightarrow> world \<Rightarrow> bool" where
  "replica i cl r st w \<longleftrightarrow> listed i r (fst st) w \<and> a_copy r w \<and>
     (\<exists>ob. heap w r = Some ob \<and> obj_class ob = cl \<and> shows_parts cl (attr_values ob) (snd st))"

lemma replica_spared:
  assumes "replica i cl r st w" "spare r w w'" "same_shape w w'"
  shows "replica i cl r st w'"
proof -
  have c: "a_copy r w'" "copied_values r w' = copied_values r w" using assms(1,2) by (auto simp: replica_def spare_def)
  obtain ob where ob: "heap w r = Some ob" "obj_class ob = cl" "shows_parts cl (attr_values ob) (snd st)"
    using assms(1) by (auto simp: replica_def)
  then obtain ob' where ob': "heap w' r = Some ob'" "attr_values ob' = attr_values ob"
    using c(2) by (cases "heap w' r") (auto simp: copied_values_def)
  have "map_option obj_shape (heap w' r) = map_option obj_shape (heap w r)" using assms(3) by (simp add: same_shape_def)
  then have "obj_class ob' = cl" using ob ob'(1) by (simp add: obj_shape_def)
  moreover have "listed i r (fst st) w'" using assms(1,3) by (simp add: replica_def listed_def same_shape_def)
  ultimately show ?thesis using c(1) ob ob' by (simp add: replica_def)
qed

subsection \<open>The handlers of the watcher\<close>

lemma shape_setAttributes: "along same_shape (setAttributes depth q p)"
  unfolding setAttributes_def
  by (intro shape.along_with_object shape.along_forE) (auto intro: shape.along_setAttribute)

text \<open>The part of a handler that works on the object found in the table.\<close>

definition handler_for :: "nat \<Rightarrow> string list option \<Rightarrow> (oref \<Rightarrow> unit wop) \<Rightarrow> bool" where
  "handler_for depth p f \<longleftrightarrow>
     f = (\<lambda>q. seqE (setAttributes depth q p) (emit depth q EvConnected PNone)) \<or>
     f = (\<lambda>q. seqE (emit depth q EvDisonnected PNone) (setAttributes depth q p)) \<or>
     f = (\<lambda>q. setAttributes depth q p)"

lemma handler_shape: "handler_for depth p f \<Longrightarrow> along same_shape (f q)"
  by (auto simp: handler_for_def intro!: shape.along_seqE shape_setAttributes shape.along_emit_event)

lemma handler_elsewhere:
  assumes "handler_for depth p f" "q \<noteq> r"
  shows "along (spare r) (f q)"
proof -
  have "along (spare r) (setAttributes depth q p)"
    unfolding setAttributes_def
    by (intro spare_with_object spare.along_forE) (auto intro: spare_setAttribute[OF assms(2)])
  then show ?thesis using assms(1) by (auto simp: handler_for_def intro!: spare.along_seqE spare_emit_event)
qed

lemma replica_set:
  assumes "replica i cl r (on, p0) w" "wf_class cl" "setAttributes depth r p w = (Inr (), w')"
  shows "replica i cl r (on, p) w'"
proof -
  obtain ob where ob: "heap w r = Some ob" "obj_class ob = cl" using assms(1) by (auto simp: replica_def)
  have "a_copy r w" using assms(1) by (simp add: replica_def)
  from copy_setAttributes[OF this assms(3) ob(1)] assms(2) ob(2)
  obtain vals where v: "a_copy r w'" "copied_values r w' = Some vals" "shows_parts cl vals p" by auto
  have sh: "same_shape w w'" using along_result[OF shape_setAttributes assms(3)] .
  then have "map_option obj_shape (heap w' r) = Some (obj_shape ob)" using ob(1) by (simp add: same_shape_def)
  then obtain ob' where ob': "heap w' r = Some ob'" "obj_class ob' = cl" using ob(2) by (auto simp: obj_shape_def)
  moreover have "listed i r on w'" using assms(1) sh by (simp add: replica_def listed_def same_shape_def)
  ultimately show ?thesis using v by (simp add: replica_def copied_values_def)
qed

lemma replica_emit:
  assumes "replica i cl r st w" "emit depth q ev x w = (y, w')"
  shows "replica i cl r st w'"
  using assms(1) along_result[OF spare_emit_event assms(2)] along_result[OF shape.along_emit_event assms(2)]
  by (rule replica_spared)

lemma replica_handler:
  assumes "replica i cl r (on, p0) w" "wf_class cl" "handler_for depth p f" "f r w = (Inr (), w')"
  shows "replica i cl r (on, p) w'"
  using assms(3) unfolding handler_for_def
proof (elim disjE)
  assume "f = (\<lambda>q. seqE (setAttributes depth q p) (emit depth q EvConnected PNone))"
  then obtain w1 where "setAttributes depth r p w = (Inr (), w1)" "emit depth r EvConnected PNone w1 = (Inr (), w')"
    using assms(4) by (auto simp: seqE_Inr_iff)
  from replica_emit[OF replica_set[OF assms(1,2) this(1)] this(2)] show ?thesis .
next
  assume "f = (\<lambda>q. seqE (emit depth q EvDisonnected PNone) (setAttributes depth q p))"
  then obtain w1 where "emit depth r EvDisonnected PNone w = (Inr (), w1)" "setAttributes depth r p w1 = (Inr (), w')"
    using assms(4) by (auto simp: seqE_Inr_iff)
  from replica_set[OF replica_emit[OF assms(1) this(1)] assms(2) this(2)] show ?thesis .
next
  assume "f = (\<lambda>q. setAttributes depth q p)"
  then have "setAttributes depth r p w = (Inr (), w')" using assms(4) by simp
  then show ?thesis by (rule replica_set[OF assms(1,2)])
qed

text \<open>A handler finds the copy under the id of the component only; under other ids it works elsewhere.\<close>

lemma replica_watched:
  assumes rep: "replica i cl r (on, p0) w" and wid: "watcher w = Some wid" and cl: "wf_class cl"
    and h: "handler_for depth p f" and run: "watched wid j f w = (x, w')" and ok: "j = i \<Longrightarrow> x = Inr ()"
  shows "replica i cl r (on, if j = i then p else p0) w' \<and> watcher w' = Some wid"
proof -
  obtain wt where wt: "watchers w wid = Some wt" "jget (wt_objects wt) i = Some r"
      "\<forall>j. jget (wt_objects wt) j = Some r \<longrightarrow> j = i"
    using rep wid by (auto simp: replica_def listed_def)
  show ?thesis
  proof (cases "j = i")
    case True
    then have "f r w = (Inr (), w')" using run ok wt(1,2) by (simp add: watched_def with_watcher_def)
    moreover from this have "same_shape w w'" using along_result[OF handler_shape[OF h]] by blast
    ultimately show ?thesis using True replica_handler[OF rep cl h] wid by (simp add: same_shape_def)
  next
    case False
    show ?thesis
    proof (cases "jget (wt_objects wt) j")
      case None
      with run wt(1) rep wid False show ?thesis by (simp add: watched_def with_watcher_def ret_def)
    next
      case (Some q)
      then have "q \<noteq> r" using wt(3) False by blast
      moreover have "f q w = (x, w')" using Some wt(1) run by (simp add: watched_def with_watcher_def)
      moreover from calculation have "same_shape w w'" "spare r w w'"
        using along_result[OF handler_shape[OF h]] along_result[OF handler_elsewhere[OF h]] by blast+
      ultimately show ?thesis using replica_spared[OF rep] wid False by (simp add: same_shape_def)
    qed
  qed
qed

lemma replica_nickOnline:
  assumes "replica i cl r (on, p) w" "watcher w = Some wid" "wf_class cl" "nickOnline depth wid nick w = (x, w')"
    and "nick_id nick = i \<Longrightarrow> x = Inr ()"
  shows "replica i cl r (on, seen_nick i p nick) w' \<and> watcher w' = Some wid"
  using replica_watched[OF assms(1-3) _ assms(4)[unfolded nickOnline_def] assms(5), of depth "Some (nick_attrs nick)"]
  by (auto simp: handler_for_def seen_nick_def)

lemma replica_nickOffline:
  assumes "replica i cl r (on, p) w" "watcher w = Some wid" "wf_class cl" "nickOffline depth wid nick w = (x, w')"
    and "nick_id nick = i \<Longrightarrow> x = Inr ()"
  shows "replica i cl r (on, gone_nick i p nick) w' \<and> watcher w' = Some wid"
  using replica_watched[OF assms(1-3) _ assms(4)[unfolded nickOffline_def] assms(5), of depth None]
  by (auto simp: handler_for_def gone_nick_def)

lemma replica_nickChanged:
  assumes "replica i cl r (on, p) w" "watcher w = Some wid" "wf_class cl" "nickChanged depth wid old nick w = (x, w')"
    and "nick_id nick = i \<Longrightarrow> x = Inr ()"
  shows "replica i cl r (on, seen_nick i p nick) w' \<and> watcher w' = Some wid"
  using replica_watched[OF assms(1-3) _ assms(4)[unfolded nickChanged_def] assms(5), of depth "Some (nick_attrs nick)"]
  by (auto simp: handler_for_def seen_nick_def)

text \<open>A loop over nicks that returns, or that does not name the component.\<close>

lemma replica_nicks:
  assumes step: "\<And>w p nick x w'. replica i cl r (on, p) w \<Longrightarrow> watcher w = Some wid \<Longrightarrow> m nick w = (x, w') \<Longrightarrow>
      (nick_id nick = i \<Longrightarrow> x = Inr ()) \<Longrightarrow> replica i cl r (on, g p nick) w' \<and> watcher w' = Some wid"
    and other: "\<And>p nick. nick_id nick \<noteq> i \<Longrightarrow> g p nick = p"
    and start: "replica i cl r (on, p) w" "watcher w = Some wid"
    and run: "forE nicks m w = (x, w')" "i \<in> nick_id ` set nicks \<Longrightarrow> x = Inr ()"
  shows "replica i cl r (on, foldl g p nicks) w' \<and> watcher w' = Some wid"
  using start run
proof (induction nicks arbitrary: w p)
  case Nil
  then show ?case by (simp add: op_defs)
next
  case (Cons n ns)
  obtain y w1 where y: "m n w = (y, w1)" by force
  show ?case
  proof (cases y)
    case (Inl e)
    then have "x = Inl e" "w' = w1" using Cons.prems(3) y by (auto simp: seqE_def bindE_def)
    then have no: "i \<notin> nick_id ` set (n # ns)" using Cons.prems(4) by auto
    then have "nick_id n \<noteq> i" by auto
    from step[OF Cons.prems(1,2) y] this have "replica i cl r (on, g p n) w1 \<and> watcher w1 = Some wid" by blast
    moreover have "foldl g p ms = p" if "i \<notin> nick_id ` set ms" for ms
      using that by (induction ms) (auto simp: other)
    then have "foldl g p (n # ns) = p" using no by blast
    ultimately show ?thesis using other[OF \<open>nick_id n \<noteq> i\<close>] \<open>w' = w1\<close> by simp
  next
    case (Inr u)
    then have "replica i cl r (on, g p n) w1" "watcher w1 = Some wid" using step[OF Cons.prems(1,2) y] by simp_all
    moreover have "forE ns m w1 = (x, w')" using Cons.prems(3) y Inr by (auto simp: seqE_def bindE_def)
    moreover have "x = Inr ()" if "i \<in> nick_id ` set ns" using Cons.prems(4) that by auto
    ultimately show ?thesis using Cons.IH[of "g p n" w1] by simp
  qed
qed

lemma replica_registered:
  assumes "replica i cl r (on, p) w" "watcher w = Some wid" "registered wid w = (x, w')"
  shows "replica i cl r (True, p) w' \<and> watcher w' = Some wid"
proof -
  obtain wt where wt: "watchers w wid = Some wt" using assms(1,2) by (auto simp: replica_def listed_def)
  let ?w1 = "w\<lparr>watchers := (watchers w)(wid \<mapsto> wt\<lparr>wt_online := True\<rparr>)\<rparr>"
  let ?join = "forE (jkeys (wt_channels wt)) (\<lambda>ch. log_irc (IrcJoin (wt_client wt) ch))"
  have "replica i cl r (True, p) ?w1"
    using assms(1,2) wt by (auto simp: replica_def listed_def a_copy_def)
  moreover have "?join ?w1 = (x, w')"
    using assms(3) wt by (simp add: registered_def with_watcher_def put_watcher_def op_defs)
  moreover have "along same_shape ?join" "along (spare r) ?join"
    by (auto intro!: shape.along_forE shape.along_log_irc spare.along_forE spare_log)
  ultimately have "replica i cl r (True, p) w' \<and> same_shape ?w1 w'"
    using along_result replica_spared by metis
  then show ?thesis using assms(2) by (simp add: same_shape_def)
qed

lemma gone_all: "i \<in> nick_id ` set nicks \<Longrightarrow> foldl (gone_nick i) p nicks = None"
proof (induction nicks arbitrary: p)
  case (Cons n ns)
  have none: "foldl (gone_nick i) None ns = None" for ns by (induction ns) (simp_all add: gone_nick_def)
  show ?case
  proof (cases "i \<in> nick_id ` set ns")
    case True
    then show ?thesis using Cons.IH by simp
  next
    case False
    then have "gone_nick i p n = None" using Cons.prems by (auto simp: gone_nick_def)
    then show ?thesis by (simp add: none)
  qed
qed simp

lemma replica_closed:
  assumes "replica i cl r (on, p) w" "watcher w = Some wid" "wf_class cl" "CHR ''|'' \<notin> set i"
    and "connectionClosed depth wid w = (Inr (), w')"
  shows "replica i cl r (False, if on then None else p) w' \<and> watcher w' = Some wid"
proof -
  obtain wt where wt: "watchers w wid = Some wt" "wt_online wt = on" "jget (wt_objects wt) i = Some r"
    using assms(1,2) by (auto simp: replica_def listed_def)
  show ?thesis
  proof (cases on)
    case False
    then have "w' = w" using assms(5) wt by (simp add: connectionClosed_def with_watcher_def ret_def)
    with assms(1,2) False show ?thesis by simp
  next
    case True
    let ?w1 = "w\<lparr>watchers := (watchers w)(wid \<mapsto> wt\<lparr>wt_online := False\<rparr>)\<rparr>"
    have "\<forall>j. jget (wt_objects wt) j = Some r \<longrightarrow> j = i"
      using assms(1,2) wt(1) by (auto simp only: replica_def listed_def option.inject)
    moreover have "watcher ?w1 = Some wid" "watchers ?w1 wid = Some (wt\<lparr>wt_online := False\<rparr>)"
        "\<not> wt_online (wt\<lparr>wt_online := False\<rparr>)" "wt_objects (wt\<lparr>wt_online := False\<rparr>) = wt_objects wt"
      using assms(2) by simp_all
    ultimately have "listed i r False ?w1"
      unfolding listed_def using wt(3) by metis
    then have w1: "replica i cl r (False, p) ?w1" "watcher ?w1 = Some wid"
      using assms(1,2) by (simp_all add: replica_def a_copy_def)
    have run: "forE (jkeys (wt_objects wt)) (nickOffline depth wid) ?w1 = (Inr (), w')"
      using assms(5) wt True by (simp add: connectionClosed_def with_watcher_def put_watcher_def op_defs)
    have "replica i cl r (False, foldl (gone_nick i) p (jkeys (wt_objects wt))) w' \<and> watcher w' = Some wid"
      by (rule replica_nicks[OF replica_nickOffline[OF _ _ assms(3)] _ w1 run]) (auto simp: gone_nick_def)
    moreover have "nick_id i = i" using assms(4) by (simp add: nick_id_def split_on_no_sep)
    then have "i \<in> nick_id ` set (jkeys (wt_objects wt))" using jget_key[OF wt(3)] by force
    ultimately show ?thesis using True by (simp add: gone_all)
  qed
qed

lemma replica_event:
  assumes rep: "replica i cl r st w" and wid: "watcher w = Some wid" and cl: "wf_class cl" "CHR ''|'' \<notin> set i"
    and run: "watcher_event depth wid ev w = (x, w')" and ok: "concerns i ev \<Longrightarrow> x = Inr ()"
  shows "replica i cl r (observe i st ev) w' \<and> watcher w' = Some wid"
proof -
  obtain on p where st: "st = (on, p)" by (cases st)
  note rep = rep[unfolded st]
  show ?thesis
  proof (cases ev)
    case (NamesEvent ch arg)
    show ?thesis
    proof (cases arg)
      case (NamesArray users)
      then have users: "forE users (nickOnline depth wid) w = (x, w')" "i \<in> nick_id ` set users \<Longrightarrow> x = Inr ()"
        using run ok NamesEvent by simp_all
      have "replica i cl r (on, foldl (seen_nick i) p users) w' \<and> watcher w' = Some wid"
        by (rule replica_nicks[OF replica_nickOnline[OF _ _ cl(1)] _ rep wid users]) (simp_all add: seen_nick_def)
      then show ?thesis using NamesEvent NamesArray by (simp add: st)
    next
      case (NamesObject users)
      then show ?thesis using NamesEvent run rep wid by (simp add: st ret_def)
    qed
  next
    case RegisteredEvent
    then show ?thesis using replica_registered[OF rep wid] run by (simp add: st)
  next
    case ConnectionEndEvent
    then have "connectionClosed depth wid w = (Inr (), w')" using run ok by simp
    from replica_closed[OF rep wid cl this] show ?thesis by (simp add: st ConnectionEndEvent)
  next
    case (JoinEvent ch nick)
    then show ?thesis using replica_nickOnline[OF rep wid cl(1), of depth nick x w'] run ok by (simp add: st)
  next
    case (NickEvent oldNick nick)
    then show ?thesis using replica_nickChanged[OF rep wid cl(1), of depth oldNick nick x w'] run ok by (simp add: st)
  next
    case (PartEvent ch nick)
    then show ?thesis using replica_nickOffline[OF rep wid cl(1), of depth nick x w'] run ok by (simp add: st)
  next
    case (KickEvent ch nick)
    then show ?thesis using replica_nickOffline[OF rep wid cl(1), of depth nick x w'] run ok by (simp add: st)
  next
    case (KillEvent nick)
    then show ?thesis using replica_nickOffline[OF rep wid cl(1), of depth nick x w'] run ok by (simp add: st)
  next
    case (QuitEvent nick)
    then show ?thesis using replica_nickOffline[OF rep wid cl(1), of depth nick x w'] run ok by (simp add: st)
  qed
qed

subsection \<open>The inputs of the process\<close>

text \<open>
  What the observer makes of an input of the process; the events that concern the component are handled without an error.
\<close>

fun follow :: "string \<Rightarrow> bool \<times> string list option \<Rightarrow> input \<Rightarrow> bool \<times> string list option" where
  "follow i st (WatcherEvent ev) = observe i st ev"
| "follow i st _ = st"

fun undisturbed :: "nat \<Rightarrow> string \<Rightarrow> input \<Rightarrow> core \<Rightarrow> bool" where
  "undisturbed depth i (WatcherEvent ev) c = (concerns i ev \<longrightarrow> fst (deliver_event depth ev (net c)) = Inr ())"
| "undisturbed depth i (Request q) c = False"
| "undisturbed depth i _ c = True"

fun undisturbed_run :: "nat \<Rightarrow> (string \<Rightarrow> js_error + plugin_kind) \<Rightarrow> (string \<Rightarrow> string) \<Rightarrow> string \<Rightarrow> input list \<Rightarrow> core \<Rightarrow> bool" where
  "undisturbed_run depth require icon i [] c = True"
| "undisturbed_run depth require icon i (x # xs) c =
     (undisturbed depth i x c \<and> undisturbed_run depth require icon i xs (core_step depth require icon x c))"

lemma shape_message: "along same_shape (message depth ct from to text)"
proof -
  have "along same_shape (catch_notice client who m)" if "along same_shape m" for client who m
  proof -
    have log: "same_shape w (snd (log_irc c w))" for w c using shape.along_log_irc by (simp add: along_def)
    have "same_shape w (snd (m w))" for w using that by (simp add: along_def)
    then show ?thesis
      unfolding along_def catch_notice_def
      by (auto split: prod.split sum.split) (metis log snd_conv shape.R_trans, metis snd_conv)
  qed
  then show ?thesis
    unfolding message_def
    by (intro shape.along_with_object) (auto split: option.split intro: shape.along_ret shape.along_executeAction)
qed

lemma net_lift: "net (snd (lift_net m c)) = snd (m (net c))"
  by (simp add: lift_net_def split: prod.split)

lemma replica_along:
  assumes "replica i cl r st w" "along same_shape m" "along (spare r) m"
  shows "replica i cl r st (snd (m w))"
  using assms(2,3) by (intro replica_spared[OF assms(1)]) (simp_all add: along_def)

lemma replica_step:
  assumes rep: "replica i cl r st (net c)" and cl: "wf_class cl" "CHR ''|'' \<notin> set i" and ok: "undisturbed depth i x c"
  shows "replica i cl r (follow i st x) (net (core_step depth require icon x c))"
proof (cases x)
  case (Request q)
  with ok show ?thesis by simp
next
  case (IncomingMessage j sndr tgt msg)
  then show ?thesis
    using replica_along[OF rep shape_message spare_message] rep
    by (simp add: deliver_message_def net_lift split: option.split)
next
  case (WatcherEvent ev)
  obtain wid where wid: "watcher (net c) = Some wid" using rep by (auto simp: replica_def listed_def)
  obtain y w where y: "watcher_event depth wid ev (net c) = (y, w)" by force
  have d: "deliver_event depth ev (net c) = (y, w)" using wid y by (simp add: deliver_event_def)
  then have "concerns i ev \<Longrightarrow> y = Inr ()" using ok WatcherEvent by simp
  from replica_event[OF rep wid cl y this] show ?thesis using WatcherEvent d by (simp add: net_lift)
next
  case (TimerDue tid)
  then show ?thesis using replica_along[OF rep shape.along_fire_timer spare_fire_timer] by (simp add: net_lift)
next
  case (TimePasses ms)
  then show ?thesis
    using rep by (simp add: net_lift advance_clock_def modifyE_def replica_def listed_def a_copy_def)
qed

lemma replica_run:
  assumes "replica i cl r st (net c)" "wf_class cl" "CHR ''|'' \<notin> set i" "undisturbed_run depth require icon i xs c"
  shows "replica i cl r (foldl (follow i) st xs) (net (core_run depth require icon xs c))"
  using assms(1,4)
  by (induction xs arbitrary: c st) (auto simp: replica_step[OF _ assms(2,3)])

end
