(* ===== verification/ReplicaProps.thy ===== *)
theory ReplicaProps
  imports Replica AnnounceProps UiProps
begin

section \<open>Properties of the copies\<close>












subsection \<open>The copy and the browser\<close>








subsection \<open>The component and its copy\<close>



end
