(* ===== verification/Requests.thy ===== *)
theory Requests
  imports DesignerServer
begin

section \<open>From the designer to the routes of the core\<close>

text \<open>
  The requests of the designer as the HTTP requests they are: the addresses that \<open>componentManager.js\<close> and
  \<open>uiManager.js\<close> of the designer build, with the ids escaped, and the routes that
  \<open>mylife-home-core/app.js\<close> registers. The match of a path with a pattern is that of express and a parameter; what is relied
  on is stated in \<open>route_matching\<close>.
\<close>

subsection \<open>Escaping\<close>

text \<open>
  \<open>encodeURIComponent\<close> keeps letters, digits and nine marks and writes the UTF-8 bytes of every
  other character; the characters of the model are the code points below 256.
\<close>

definition uri_unreserved :: "char \<Rightarrow> bool" where
  "uri_unreserved c \<longleftrightarrow>
     (let n = of_char c :: nat
      in 48 \<le> n \<and> n \<le> 57 \<or> 65 \<le> n \<and> n \<le> 90 \<or> 97 \<le> n \<and> n \<le> 122) \<or> c \<in> set ''-_.!~*'' \<or>
     of_char c \<in> {39, 40, 41 :: nat}"

definition hex_char :: "nat \<Rightarrow> char" where
  "hex_char d = (if d < 10 then char_of (48 + d) else char_of (55 + d))"

definition percent :: "nat \<Rightarrow> string" where
  "percent b = [CHR ''%'', hex_char (b div 16), hex_char (b mod 16)]"

definition encode_char :: "char \<Rightarrow> string" where
  "encode_char c =
     (let n = of_char c :: nat
      in if uri_unreserved c then [c]
         else if n < 128 then percent n
         else percent (192 + n div 64) @ percent (128 + n mod 64))"

definition encodeURIComponent :: "string \<Rightarrow> string" where
  "encodeURIComponent s = concat (map encode_char s)"

text \<open>
  \<open>decodeURIComponent\<close>; None is its \<open>URIError\<close>, or a character beyond the model's.
\<close>

fun escaped_byte :: "string \<Rightarrow> nat option" where
  "escaped_byte (p # a # b # cs) =
     (if p = CHR ''%'' \<and> is_hex a \<and> is_hex b then Some (16 * hex_val a + hex_val b) else None)"
| "escaped_byte _ = None"

fun decodeURIComponent :: "string \<Rightarrow> string option" where
  "decodeURIComponent [] = Some []"
| "decodeURIComponent (c # cs) =
     (if c \<noteq> CHR ''%'' then map_option ((#) c) (decodeURIComponent cs)
      else (case escaped_byte (c # cs) of
              None \<Rightarrow> None
            | Some b \<Rightarrow>
                if b < 128 then map_option ((#) (char_of b)) (decodeURIComponent (drop 2 cs))
                else if b \<noteq> 194 \<and> b \<noteq> 195 then None
                else (case escaped_byte (drop 2 cs) of
                        None \<Rightarrow> None
                      | Some b2 \<Rightarrow>
                          if b2 < 128 \<or> 192 \<le> b2 then None
                          else map_option ((#) (char_of (64 * (b - 192) + (b2 - 128)))) (decodeURIComponent (drop 5 cs)))))"











subsection \<open>The requests of the designer\<close>

datatype http_method = HGet | HPost | HDelete

text \<open>The body is posted as JSON and parsed by express; it is held as the value.\<close>

datatype http_body =
    NoBody | BPlugin plugin_config | BHardware hw_config | BLink link_config | BUi string | BType string

definition destroy_url :: "string \<Rightarrow> string \<Rightarrow> string \<Rightarrow> string" where
  "destroy_url url type i = coreUrl url @ ''api/'' @ type @ ''/'' @ encodeURIComponent i"

definition create_url :: "string \<Rightarrow> string \<Rightarrow> string" where
  "create_url url type = coreUrl url @ ''api/'' @ type"

text \<open>The tasks of \<open>apply\<close> and the fetches of the two managers of the designer and of the interface server.\<close>

fun http_request :: "string \<Rightarrow> request \<Rightarrow> http_method \<times> string \<times> http_body" where
  "http_request url (DeleteLink i) = (HDelete, destroy_url url ''links'' i, NoBody)"
| "http_request url (DeletePlugin i) = (HDelete, destroy_url url ''plugins'' i, NoBody)"
| "http_request url (DeleteHardware i) = (HDelete, destroy_url url ''hardware'' i, NoBody)"
| "http_request url (PostPlugin p) = (HPost, create_url url ''plugins'', BPlugin p)"
| "http_request url (PostHardware h) = (HPost, create_url url ''hardware'', BHardware h)"
| "http_request url (PostLink l) = (HPost, create_url url ''links'', BLink l)"
| "http_request url GetPlugins = (HGet, coreUrl url @ ''api/plugins'', NoBody)"
| "http_request url GetPluginTypes = (HGet, coreUrl url @ ''api/pluginTypes'', NoBody)"
| "http_request url GetHardware = (HGet, coreUrl url @ ''api/hardware'', NoBody)"
| "http_request url GetLinks = (HGet, coreUrl url @ ''api/links'', NoBody)"
| "http_request url GetUi = (HGet, coreUrl url @ ''api/ui'', NoBody)"
| "http_request url (PostUi u) = (HPost, coreUrl url @ ''api/ui'', BUi u)"
| "http_request url GetApi = (HGet, coreUrl url @ ''api'', NoBody)"
| "http_request url RefreshPluginTypes = (HGet, coreUrl url @ ''api/pluginTypes/refresh'', NoBody)"
| "http_request url (PostPluginType name) = (HPost, coreUrl url @ ''api/pluginTypes'', BType name)"

subsection \<open>The routes of the core\<close>

type_synonym matcher = "string \<Rightarrow> string \<Rightarrow> string list option"

fun id_param :: "string list \<Rightarrow> string" where
  "id_param [] = []"
| "id_param (v # _) = v"

text \<open>
  The handlers in the order of registration. A handler takes the parameters of the path and the body; a body
  of another kind than the clients post is outside the model (None).
\<close>

definition core_routes :: "(http_method \<times> string \<times> (string list \<Rightarrow> http_body \<Rightarrow> request option)) list" where
  "core_routes =
     [(HGet, ''/api'', \<lambda>ps b. Some GetApi),
      (HGet, ''/api/plugins'', \<lambda>ps b. Some GetPlugins),
      (HPost, ''/api/plugins'', \<lambda>ps b. case b of BPlugin p \<Rightarrow> Some (PostPlugin p) | _ \<Rightarrow> None),
      (HDelete, ''/api/plugins/'' @ '':id'', \<lambda>ps b. Some (DeletePlugin (id_param ps))),
      (HGet, ''/api/pluginTypes'', \<lambda>ps b. Some GetPluginTypes),
      (HGet, ''/api/pluginTypes/refresh'', \<lambda>ps b. Some RefreshPluginTypes),
      (HPost, ''/api/pluginTypes'', \<lambda>ps b. case b of BType n \<Rightarrow> Some (PostPluginType n) | _ \<Rightarrow> None),
      (HGet, ''/api/hardware'', \<lambda>ps b. Some GetHardware),
      (HPost, ''/api/hardware'', \<lambda>ps b. case b of BHardware h \<Rightarrow> Some (PostHardware h) | _ \<Rightarrow> None),
      (HDelete, ''/api/hardware/'' @ '':id'', \<lambda>ps b. Some (DeleteHardware (id_param ps))),
      (HGet, ''/api/links'', \<lambda>ps b. Some GetLinks),
      (HPost, ''/api/links'', \<lambda>ps b. case b of BLink l \<Rightarrow> Some (PostLink l) | _ \<Rightarrow> None),
      (HDelete, ''/api/links/'' @ '':id'', \<lambda>ps b. Some (DeleteLink (id_param ps))),
      (HGet, ''/api/ui'', \<lambda>ps b. Some GetUi),
      (HPost, ''/api/ui'', \<lambda>ps b. case b of BUi u \<Rightarrow> Some (PostUi u) | _ \<Rightarrow> None)]"

text \<open>The first route of the method whose pattern matches the path; None when there is none.\<close>

fun route :: "matcher \<Rightarrow> (http_method \<times> string \<times> (string list \<Rightarrow> http_body \<Rightarrow> 'r)) list \<Rightarrow>
    http_method \<Rightarrow> string \<Rightarrow> http_body \<Rightarrow> 'r option" where
  "route match [] meth path b = None"
| "route match ((m, pattern, h) # rs) meth path b =
     (if m \<noteq> meth then route match rs meth path b
      else (case match pattern path of Some ps \<Rightarrow> Some (h ps b) | None \<Rightarrow> route match rs meth path b))"

text \<open>
  What express and the router of angular document of the patterns: without parameter, they match the path itself, whatever the
  case of the letters and with or without a slash at the end; a parameter matches one segment, not empty, and is decoded.
\<close>

definition lower :: "string \<Rightarrow> string" where
  "lower s = map (\<lambda>c. if 65 \<le> (of_char c :: nat) \<and> of_char c \<le> (90 :: nat) then char_of (of_char c + 32 :: nat) else c) s"

definition is_letter :: "char \<Rightarrow> bool" where
  "is_letter c \<longleftrightarrow> 97 \<le> (of_char (hd (lower [c])) :: nat) \<and> of_char (hd (lower [c])) \<le> (122 :: nat)"

definition route_matching :: "matcher \<Rightarrow> bool" where
  "route_matching match \<longleftrightarrow>
     (\<forall>p. CHR '':'' \<notin> set p \<longrightarrow> match p p = Some []) \<and>
     (\<forall>p path ps. CHR '':'' \<notin> set p \<longrightarrow> match p path = Some ps \<longrightarrow> lower path = lower p \<or> lower path = lower p @ ''/'') \<and>
     (\<forall>p name seg v. CHR '':'' \<notin> set p \<longrightarrow> list_all is_letter name \<longrightarrow> seg \<noteq> [] \<longrightarrow> CHR ''/'' \<notin> set seg \<longrightarrow>
        decodeURIComponent seg = Some v \<longrightarrow> match (p @ '':'' @ name) (p @ seg) = Some [v]) \<and>
     (\<forall>p name path ps. CHR '':'' \<notin> set p \<longrightarrow> list_all is_letter name \<longrightarrow> match (p @ '':'' @ name) path = Some ps \<longrightarrow>
        take (length p) (lower path) = lower p \<and> length p < length path)"

text \<open>
  The designer connected to the core: the core sees the part of the address after the host. Without a route express answers with status 404
  and a text, which \<open>fetchCallback\<close> takes for success.
\<close>

fun method_name :: "http_method \<Rightarrow> string" where
  "method_name HGet = ''GET''"
| "method_name HPost = ''POST''"
| "method_name HDelete = ''DELETE''"

definition not_found :: "http_method \<Rightarrow> string \<Rightarrow> response" where
  "not_found meth path = RText (''Cannot '' @ method_name meth @ '' '' @ path)"

definition over_http :: "matcher \<Rightarrow> string \<Rightarrow> string \<Rightarrow> nat \<Rightarrow> (string \<Rightarrow> js_error + plugin_kind) \<Rightarrow> (string \<Rightarrow> string) \<Rightarrow> transport" where
  "over_http match origin url depth require icon q c =
     (case http_request url q of (meth, address, b) \<Rightarrow>
        (let path = drop (length origin) address
         in case route match core_routes meth path b of
              Some (Some q') \<Rightarrow> direct depth require icon q' c
            | Some None \<Rightarrow> (Inl TypeErr, c)
            | None \<Rightarrow> (Inr (not_found meth path), c)))"

definition core_address :: "string \<Rightarrow> string \<Rightarrow> bool" where
  "core_address origin url \<longleftrightarrow> origin \<noteq> [] \<and> last origin \<noteq> CHR ''/'' \<and> (url = origin \<or> url = origin @ ''/'')"

lemma coreUrl_address: "core_address origin url \<Longrightarrow> coreUrl url = origin @ ''/''"
  by (auto simp: core_address_def coreUrl_def)

text \<open>The id of a request for a deletion; the other requests have fixed addresses.\<close>

fun deleted_id :: "request \<Rightarrow> string option" where
  "deleted_id (DeletePlugin i) = Some i"
| "deleted_id (DeleteHardware i) = Some i"
| "deleted_id (DeleteLink i) = Some i"
| "deleted_id _ = None"




text \<open>A matcher with the documented behaviour, case sensitive and strict about slashes.\<close>

definition strict_match :: matcher where
  "strict_match pattern path =
     (let p = takeWhile (\<lambda>c. c \<noteq> CHR '':'') pattern; seg = drop (length p) path
      in if p = pattern then (if path = pattern then Some [] else None)
         else if take (length p) path = p \<and> seg \<noteq> [] \<and> CHR ''/'' \<notin> set seg
           then map_option (\<lambda>v. [v]) (decodeURIComponent seg) else None)"

lemma strict_matching: "route_matching strict_match"
proof -
  have lit: "takeWhile (\<lambda>c. c \<noteq> CHR '':'') p = p" if "CHR '':'' \<notin> set p" for p
    using that by (auto simp: takeWhile_eq_all_conv)
  have par: "takeWhile (\<lambda>c. c \<noteq> CHR '':'') (p @ CHR '':'' # name) = p" if "CHR '':'' \<notin> set p" for p name
    using that by (subst takeWhile_append2) auto
  have low: "take n (lower s) = lower (take n s)" "length (lower s) = length s" for n s
    by (simp_all add: lower_def take_map)
  show ?thesis
    unfolding route_matching_def
    by (intro conjI allI impI) (auto simp: strict_match_def lit par low Let_def split: if_splits)
qed

definition local_core :: string where
  "local_core = ''http://localhost:8001''"


text \<open>
  The deletion of a component with an empty id is lost without notice: no route matches its address, the answer has status
  404, which \<open>fetchCallback\<close> does not look at, so the task succeeds and the core is unchanged,
  although the core itself accepts components with this id.
\<close>

theorem empty_id_not_deleted:
  assumes "route_matching match" "core_address origin url" "deleted_id q = Some []"
  shows "run_tasks (over_http match origin url depth require icon) (q # qs) c =
    run_tasks (over_http match origin url depth require icon) qs c"
proof -
  have id: "list_all is_letter ''id''" by (simp add: is_letter_def lower_def)
  have other: "match (p @ '':id'') path = None"
    if "CHR '':'' \<notin> set p" "take (length p) (lower path) \<noteq> lower p \<or> length path \<le> length p" for p path
    using assms(1) that id unfolding route_matching_def by (metis append_Cons append_Nil linorder_not_less option.exhaust)
  have "over_http match origin url depth require icon q c =
      (Inr (not_found HDelete (drop (length origin) (fst (snd (http_request url q))))), c)" for c
    using assms(3) coreUrl_address[OF assms(2)]
      other[of "''/api/plugins/''" "''/api/plugins/''"] other[of "''/api/plugins/''" "''/api/hardware/''"]
      other[of "''/api/plugins/''" "''/api/links/''"] other[of "''/api/hardware/''" "''/api/plugins/''"]
      other[of "''/api/hardware/''" "''/api/hardware/''"] other[of "''/api/hardware/''" "''/api/links/''"]
      other[of "''/api/links/''" "''/api/plugins/''"] other[of "''/api/links/''" "''/api/hardware/''"]
      other[of "''/api/links/''" "''/api/links/''"]
    by (cases q) (simp_all add: over_http_def destroy_url_def encodeURIComponent_def core_routes_def lower_def)
  then show ?thesis by (simp add: not_found_def)
qed

theorem empty_id_not_deleted_witness:
  "run_tasks (over_http strict_match local_core local_core 20 repo_require sample_icon) [DeletePlugin [], GetLinks] sample_core =
   run_tasks (over_http strict_match local_core local_core 20 repo_require sample_icon) [GetLinks] sample_core"
  by (rule empty_id_not_deleted[OF strict_matching]) (simp_all add: core_address_def local_core_def)

subsection \<open>Icons\<close>

text \<open>
  \<open>pluginTools.js\<close>: the icon of a plugin is the file beside its module with the extension \<open>png\<close>, as a data
  URL. Reading a file as base64 and the lookup of its type are parameters.
\<close>

definition loadIcon :: "(string \<Rightarrow> js_error + string) \<Rightarrow> (string \<Rightarrow> string) \<Rightarrow> string \<Rightarrow> js_error + string" where
  "loadIcon readBase64 mime file =
     (case readBase64 file of
        Inl e \<Rightarrow> Inl e
      | Inr content \<Rightarrow> Inr (''data:'' @ mime file @ '';base64,'' @ content))"

text \<open>\<open>lastIndexOf\<close>: a negative length of \<open>substr\<close> gives the empty string.\<close>

fun before_last :: "char \<Rightarrow> string \<Rightarrow> string" where
  "before_last c [] = []"
| "before_last c (x # xs) = (if c \<in> set xs then x # before_last c xs else [])"

definition loadDefaultIcon :: "(string \<Rightarrow> js_error + string) \<Rightarrow> (string \<Rightarrow> string) \<Rightarrow> string \<Rightarrow> string \<Rightarrow> js_error + string" where
  "loadDefaultIcon readBase64 mime pluginFilename ext =
     (let ext1 = (if ext = [] then ''png'' else ext);
          ext2 = (if hd ext1 \<noteq> CHR ''.'' then CHR ''.'' # ext1 else ext1)
      in loadIcon readBase64 mime (before_last CHR ''.'' pluginFilename @ ext2))"

lemma before_last_append: "c \<notin> set ys \<Longrightarrow> before_last c (xs @ c # ys) = xs"
  by (induction xs) auto

lemma default_icon_file:
  assumes "readBase64 (directory @ ''/'' @ name @ ''.png'') = Inr content"
  shows "loadDefaultIcon readBase64 mime (directory @ ''/'' @ name @ ''.js'') [] =
    Inr (''data:'' @ mime (directory @ ''/'' @ name @ ''.png'') @ '';base64,'' @ content)"
  using assms before_last_append[of "CHR ''.''" "''js''" "directory @ ''/'' @ name"]
  by (simp add: loadDefaultIcon_def loadIcon_def)

subsection \<open>The core process\<close>

text \<open>
  \<open>main.js\<close>: the process starts its components, handles its inputs and terminates at exit. When the start throws,
  the process ends before the exit handler is registered.
\<close>

definition core_main :: "nat \<Rightarrow> (string \<Rightarrow> js_error + plugin_kind) \<Rightarrow> (string \<Rightarrow> string) \<Rightarrow> input list \<Rightarrow> unit cop" where
  "core_main depth require icon ins c =
     (case initialize depth require icon c of
        (Inl e, c') \<Rightarrow> (Inl e, c')
      | (Inr _, c') \<Rightarrow> terminate (core_run depth require icon ins c'))"

definition same_data :: "core \<Rightarrow> core \<Rightarrow> bool" where
  "same_data c c' \<longleftrightarrow> data_file c' = data_file c \<and> data_cache c' = data_cache c"

interpretation same_data: state_order same_data
  by unfold_locales (simp_all add: same_data_def)

lemma terminate_same_data: "along same_data terminate"
proof -
  have lift: "along same_data (lift_net m)" for m :: "'b wop"
    by (simp add: along_def lift_net_def same_data_def split: prod.split)
  have read: "along same_data (readE f)" for f :: "core \<Rightarrow> 'b"
    by (simp add: along_def readE_def same_data_def)
  have "along same_data (destroy_link i)" "along same_data (destroy_plugin i)" "along same_data (destroy_hardware i)" for i
    by (auto simp: along_def destroy_link_def destroy_plugin_def destroy_hardware_def same_data_def
        bindE_def seqE_def modifyE_def ret_def lift_net_def split: option.split prod.split sum.split)
  then show ?thesis
    unfolding terminate_def
    by (intro same_data.along_rules read)
qed

text \<open>What the process has stored is what it leaves: a later process starts from it.\<close>

lemma core_main_data:
  assumes "initialize depth require icon c0 = (Inr (), c)"
  shows "data_file (snd (core_main depth require icon ins c0)) = data_file (core_run depth require icon ins c)"
  using terminate_same_data assms by (simp add: core_main_def along_def same_data_def)

end
