(* ===== verification/UiShell.thy ===== *)
theory UiShell
  imports Requests UiProps
begin

section \<open>Windows and popups of the interface\<close>

text \<open>
  How the user moves through the windows: the routes of \<open>mylife-home-ui/public/app/app.js\<close>, the popups that
  \<open>uihelper.js\<close> opens over the window, and the presses that the template \<open>index.html\<close> binds to the actions of
  a command. The router of angular is a parameter, as in \<open>Requests\<close>; a popup is modal, so presses
  reach the topmost window.
\<close>

text \<open>
  The routes: one segment names the window, every other address leads to the default window. When the
  address of the default window does not match either, nothing is shown.
\<close>

definition ui_address :: "matcher \<Rightarrow> ui_data \<Rightarrow> string \<Rightarrow> string" where
  "ui_address match st path = (if match ''/:windowId'' path = None then ''/'' @ ui_defaultWindow st else path)"

definition routed_window :: "matcher \<Rightarrow> string \<Rightarrow> string option" where
  "routed_window match path = map_option id_param (match ''/:windowId'' path)"

record shell =
  sh_path :: string
  sh_popups :: "string list"                  \<comment> \<open>the topmost first\<close>
  sh_sent :: "(string \<times> string) list"     \<comment> \<open>component and action\<close>

definition find_window :: "ui_data \<Rightarrow> string \<Rightarrow> ui_window option" where
  "find_window st i = arrayFind (ui_windows st) (\<lambda>w. win_id w = i)"

definition open_shell :: "matcher \<Rightarrow> ui_data \<Rightarrow> string \<Rightarrow> shell" where
  "open_shell match st path = \<lparr>sh_path = ui_address match st path, sh_popups = [], sh_sent = []\<rparr>"

definition top_window :: "matcher \<Rightarrow> shell \<Rightarrow> string option" where
  "top_window match sh = (case sh_popups sh of p # ps \<Rightarrow> Some p | [] \<Rightarrow> routed_window match (sh_path sh))"

text \<open>The words of the input manager that the template binds.\<close>

definition bound_action :: "ui_command \<Rightarrow> string \<Rightarrow> ui_action" where
  "bound_action c word =
     (if word = ''s'' then cmd_primary c
      else if word = ''l'' \<or> word = ''ss'' then cmd_secondary c else ActNone)"

text \<open>A popup of an unknown window does not open: its controller throws.\<close>

fun shell_effect :: "matcher \<Rightarrow> ui_data \<Rightarrow> ui_effect \<Rightarrow> shell \<Rightarrow> shell" where
  "shell_effect match st (ShowWindow path) sh = sh\<lparr>sh_path := ui_address match st path\<rparr>"
| "shell_effect match st (ShowPopup i) sh =
     (if find_window st i = None then sh else sh\<lparr>sh_popups := i # sh_popups sh\<rparr>)"
| "shell_effect match st (SendAction i a) sh = sh\<lparr>sh_sent := sh_sent sh @ [(i, a)]\<rparr>"

datatype shell_event = PressWord nat string | ClosePopup

fun shell_step :: "matcher \<Rightarrow> ui_data \<Rightarrow> shell_event \<Rightarrow> shell \<Rightarrow> shell" where
  "shell_step match st ClosePopup sh = sh\<lparr>sh_popups := tl (sh_popups sh)\<rparr>"
| "shell_step match st (PressWord k word) sh =
     (case Option.bind (top_window match sh) (find_window st) of
        None \<Rightarrow> sh
      | Some w \<Rightarrow>
          if k < length (win_commands w)
          then fold (shell_effect match st) (run_ui_action (bound_action (win_commands w ! k) word)) sh
          else sh)"

definition shell_run :: "matcher \<Rightarrow> ui_data \<Rightarrow> shell_event list \<Rightarrow> shell \<Rightarrow> shell" where
  "shell_run match st evs sh = fold (shell_step match st) evs sh"

subsection \<open>Every window that is shown exists\<close>

text \<open>The ids of the windows can be part of an address, and the actions and the default name windows.\<close>

definition addressable :: "string \<Rightarrow> bool" where
  "addressable i \<longleftrightarrow> i \<noteq> [] \<and> CHR ''/'' \<notin> set i \<and> CHR ''%'' \<notin> set i"

fun action_target :: "ui_action \<Rightarrow> string option" where
  "action_target (ActWindow w popup) = Some w"
| "action_target _ = None"

definition closed_windows :: "ui_data \<Rightarrow> bool" where
  "closed_windows st \<longleftrightarrow>
     (let ids = map win_id (ui_windows st)
      in list_all addressable ids \<and> ui_defaultWindow st \<in> set ids \<and>
         list_all (\<lambda>w. list_all (\<lambda>c. pred_option (\<lambda>i. i \<in> set ids) (action_target (cmd_primary c)) \<and>
           pred_option (\<lambda>i. i \<in> set ids) (action_target (cmd_secondary c))) (win_commands w)) (ui_windows st))"

lemma decode_plain: "CHR ''%'' \<notin> set s \<Longrightarrow> decodeURIComponent s = Some s"
  by (induction s) auto

lemma routed_address:
  assumes "route_matching match" "addressable i"
  shows "match ''/:windowId'' (''/'' @ i) = Some [i]"
proof -
  have "list_all is_letter ''windowId''" by (simp add: is_letter_def lower_def)
  moreover have "CHR '':'' \<notin> set ''/''" by simp
  ultimately have "match (''/'' @ '':'' @ ''windowId'') (''/'' @ i) = Some [i]"
    using assms decode_plain[of i] unfolding route_matching_def addressable_def by blast
  then show ?thesis by simp
qed

lemma root_unrouted:
  assumes "route_matching match"
  shows "match ''/:windowId'' ''/'' = None"
proof -
  have "list_all is_letter ''windowId''" "CHR '':'' \<notin> set ''/''" by (simp_all add: is_letter_def lower_def)
  then have "match (''/'' @ '':'' @ ''windowId'') ''/'' = Some ps \<Longrightarrow> length ''/'' < length ''/''" for ps
    using assms unfolding route_matching_def by blast
  then show ?thesis by (cases "match ''/:windowId'' ''/''") auto
qed

lemma find_window_ids: "find_window st i \<noteq> None \<longleftrightarrow> i \<in> set (map win_id (ui_windows st))"
proof -
  have "arrayFind ws (\<lambda>w. win_id w = i) \<noteq> None \<longleftrightarrow> i \<in> win_id ` set ws" for ws
    by (induction ws) auto
  then show ?thesis by (simp add: find_window_def)
qed

definition shell_ok :: "matcher \<Rightarrow> ui_data \<Rightarrow> shell \<Rightarrow> bool" where
  "shell_ok match st sh \<longleftrightarrow>
     (\<exists>i. routed_window match (sh_path sh) = Some i \<and> find_window st i \<noteq> None) \<and>
     (\<forall>i \<in> set (sh_popups sh). find_window st i \<noteq> None)"

lemma closed_default:
  assumes "closed_windows st"
  shows "addressable (ui_defaultWindow st)" "find_window st (ui_defaultWindow st) \<noteq> None"
  using assms unfolding find_window_ids by (auto simp: closed_windows_def list_all_iff)

lemma address_ok:
  assumes "route_matching match" "addressable i" "find_window st i \<noteq> None" "sh_path sh = ''/'' @ i"
    and "\<forall>i \<in> set (sh_popups sh). find_window st i \<noteq> None"
  shows "shell_ok match st sh"
  using assms routed_address[OF assms(1,2)] by (simp add: shell_ok_def routed_window_def)

lemma shell_effect_ok:
  assumes m: "route_matching match" and ok: "shell_ok match st sh"
    and eff: "case e of ShowWindow path \<Rightarrow> \<exists>i. path = ''/'' @ i \<and> addressable i \<and> find_window st i \<noteq> None | _ \<Rightarrow> True"
  shows "shell_ok match st (shell_effect match st e sh)"
proof (cases e)
  case (ShowWindow path)
  then obtain i where i: "path = ''/'' @ i" "addressable i" "find_window st i \<noteq> None" using eff by auto
  then have "ui_address match st path = ''/'' @ i" using routed_address[OF m i(2)] by (simp add: ui_address_def)
  then have "sh_path (shell_effect match st e sh) = ''/'' @ i" "sh_popups (shell_effect match st e sh) = sh_popups sh"
    by (simp_all add: ShowWindow)
  with ok address_ok[OF m i(2,3)] show ?thesis unfolding shell_ok_def[of match st sh] by metis
qed (use ok in \<open>simp_all add: shell_ok_def\<close>)

lemma shell_step_ok:
  assumes m: "route_matching match" and closed: "closed_windows st" and ok: "shell_ok match st sh"
  shows "shell_ok match st (shell_step match st ev sh)"
proof (cases ev)
  case ClosePopup
  then show ?thesis using ok by (cases "sh_popups sh") (auto simp: shell_ok_def)
next
  case (PressWord k word)
  show ?thesis
  proof (cases "Option.bind (top_window match sh) (find_window st)")
    case None
    with ok PressWord show ?thesis by simp
  next
    case (Some w)
    show ?thesis
    proof (cases "k < length (win_commands w)")
      case False
      with ok Some PressWord show ?thesis by simp
    next
      case True
      let ?a = "bound_action (win_commands w ! k) word" and ?ids = "map win_id (ui_windows st)"
      have found: "arrayFind ws p = Some w \<Longrightarrow> w \<in> set ws" for ws p by (induction ws) (auto split: if_splits)
      have "w \<in> set (ui_windows st)" using Some by (auto simp: find_window_def Option.bind_eq_Some_conv dest: found)
      then have "pred_option (\<lambda>i. i \<in> set ?ids) (action_target (cmd_primary (win_commands w ! k)))"
          "pred_option (\<lambda>i. i \<in> set ?ids) (action_target (cmd_secondary (win_commands w ! k)))"
        using closed nth_mem[OF True] unfolding closed_windows_def Let_def list_all_iff by blast+
      then have target: "pred_option (\<lambda>i. i \<in> set ?ids) (action_target ?a)" by (simp add: bound_action_def)
      have eff: "case e of ShowWindow path \<Rightarrow> \<exists>i. path = ''/'' @ i \<and> addressable i \<and> find_window st i \<noteq> None | _ \<Rightarrow> True"
        if "e \<in> set (run_ui_action ?a)" for e
        using that target closed unfolding find_window_ids
        by (cases ?a) (auto simp: run_ui_action_def closed_windows_def list_all_iff split: if_splits)
      have "shell_ok match st (fold (shell_effect match st) es sh)" if "set es \<subseteq> set (run_ui_action ?a)" for es
        using that ok by (induction es arbitrary: sh) (auto intro!: shell_effect_ok[OF m] eff)
      then show ?thesis using Some True PressWord by simp
    qed
  qed
qed

text \<open>
  C24: The user never reaches a missing window. When the actions and the default of the structure name existing
  windows and the ids of the windows can be part of an address, then from the root address on,
  whatever commands are pressed and popups closed, the window of the address and every open popup
  exist, so their controllers build them without an error.
\<close>

theorem shown_windows_exist:
  assumes "route_matching match" "closed_windows st" "sh = shell_run match st evs (open_shell match st ''/'')"
  shows "\<exists>main. routed_window match (sh_path sh) = Some main \<and>
    (\<forall>i \<in> set (main # sh_popups sh). \<exists>view. window_view st seen i = Inr view)"
proof -
  note root = root_unrouted[OF assms(1)]
  have "shell_ok match st (open_shell match st ''/'')"
    using address_ok[OF assms(1) closed_default[OF assms(2)], of "open_shell match st ''/''"]
    by (simp add: open_shell_def ui_address_def root)
  then have ok: "shell_ok match st sh"
    unfolding assms(3) shell_run_def
    by (induction evs arbitrary: rule: rev_induct) (simp_all add: shell_step_ok[OF assms(1,2)])
  have "\<exists>view. window_view st seen i = Inr view" if "find_window st i \<noteq> None" for i
    using that by (auto simp: window_view_def find_window_def)
  with ok show ?thesis by (auto simp: shell_ok_def)
qed

text \<open>
  Without a default window the root address shows nothing: the redirection leads to the same address.
\<close>

lemma no_default_shown:
  assumes "route_matching match" "ui_defaultWindow st = []"
  shows "routed_window match (sh_path (open_shell match st ''/'')) = None"
proof -
  note root = root_unrouted[OF assms(1)]
  show ?thesis by (simp add: open_shell_def ui_address_def assms(2) routed_window_def root)
qed

definition two_windows :: ui_data where
  "two_windows = lamp_ui\<lparr>ui_windows :=
     [\<lparr>win_id = ''main'', win_background = [], win_commands =
        [\<lparr>cmd_id = ''open'', cmd_display = lamp_display, cmd_primary = ActWindow ''lights'' True,
          cmd_secondary = ActWindow ''lights'' False\<rparr>], win_texts = []\<rparr>,
      \<lparr>win_id = ''lights'', win_background = [], win_commands =
        [\<lparr>cmd_id = ''back'', cmd_display = lamp_display, cmd_primary = ActWindow ''main'' False,
          cmd_secondary = ActComponent ''btn'' ''input''\<rparr>], win_texts = []\<rparr>]\<rparr>"

theorem shown_windows_exist_witness:
  "\<exists>main. routed_window strict_match (sh_path (shell_run strict_match two_windows
        [PressWord 0 ''s'', PressWord 0 ''l'', ClosePopup, PressWord 0 ''l''] (open_shell strict_match two_windows ''/''))) = Some main \<and>
    (\<forall>i \<in> set (main # sh_popups (shell_run strict_match two_windows
        [PressWord 0 ''s'', PressWord 0 ''l'', ClosePopup, PressWord 0 ''l''] (open_shell strict_match two_windows ''/''))).
      \<exists>view. window_view two_windows empty_net i = Inr view)"
  by (rule shown_windows_exist[OF strict_matching _ refl])
    (simp add: closed_windows_def two_windows_def lamp_ui_def addressable_def)

end
