(* ===== verification/Canvas.thy ===== *)
theory Canvas
  imports SchemaProps
begin

section \<open>The drawing of the design\<close>

text \<open>
  The part of \<open>component/plumbHelper.js\<close> and of the directive \<open>schemaLink\<close> that keeps the connections drawn by jsPlumb with the links of the
  design. After each event angular renders the list of links: the scope of a link that left the list is destroyed, a link that is new in
  it gets a scope, and its connection is drawn later, by a timeout. The state is the page, what was rendered last, the
  pending timeouts, \<open>internal().connection\<close> by link, and the connections on the canvas with their \<open>link\<close>.
\<close>

subsection \<open>Operations\<close>

record canvas =
  cv_page :: editor
  cv_rendered :: "ed_link list"
  cv_timeouts :: "ed_link list"
  cv_connection :: "nat \<Rightarrow> nat option"               \<comment> \<open>\<open>internal().connection\<close> by the identity of the link\<close>
  cv_drawn :: "(nat \<times> ed_link option) list"         \<comment> \<open>the connections of jsPlumb with \<open>connection.link\<close>\<close>
  cv_next :: nat
  cv_thrown :: "ed_link list"                       \<comment> \<open>the links whose timeout threw\<close>

text \<open>The elements with an attribute \<open>schema-id\<close> that stand for members.\<close>

fun member_element :: "string \<Rightarrow> member \<Rightarrow> string" where
  "member_element i (Attribute n t) = element_id ''attribute'' i n"
| "member_element i (Action n ts) = element_id ''action'' i n"

definition plugin_elements :: "ed_plugin \<Rightarrow> string list" where
  "plugin_elements p =
     (case ep_type p of None \<Rightarrow> [] | Some t \<Rightarrow> map (member_element (pc_id (ep_config p))) (members (pt_class t)))"

definition hardware_elements :: "ed_hardware \<Rightarrow> string list" where
  "hardware_elements h =
     (case hc_class (eh_config h) of None \<Rightarrow> [] | Some c \<Rightarrow> map (member_element (hc_id (eh_config h))) (members c))"

definition page_elements :: "editor \<Rightarrow> string list" where
  "page_elements d = concat (map plugin_elements (ed_plugins d)) @ concat (map hardware_elements (ed_hardware d))"

definition ends_shown :: "editor \<Rightarrow> link_config \<Rightarrow> bool" where
  "ends_shown d cfg \<longleftrightarrow> getSourceId cfg \<in> set (page_elements d) \<and> getTargetId cfg \<in> set (page_elements d)"

definition createConnection :: "ed_link \<Rightarrow> canvas \<Rightarrow> canvas" where
  "createConnection l cv = cv\<lparr>cv_timeouts := cv_timeouts cv @ [l]\<rparr>"

text \<open>
  The callback of the first timeout. Without an element for one of its ends jsPlumb makes no connection, and the callback throws
  before it stores one.
\<close>

definition connection_timeout :: "canvas \<Rightarrow> canvas" where
  "connection_timeout cv =
     (case cv_timeouts cv of
        [] \<Rightarrow> cv
      | l # ls \<Rightarrow>
          if ends_shown (cv_page cv) (el_config l)
          then cv\<lparr>cv_timeouts := ls, cv_drawn := cv_drawn cv @ [(cv_next cv, Some l)],
                 cv_connection := (cv_connection cv)(el_ref l := Some (cv_next cv)), cv_next := Suc (cv_next cv)\<rparr>
          else cv\<lparr>cv_timeouts := ls, cv_thrown := cv_thrown cv @ [l]\<rparr>)"

definition cancelConnection :: "nat \<Rightarrow> canvas \<Rightarrow> canvas" where
  "cancelConnection k cv = cv\<lparr>cv_drawn := filter (\<lambda>(j, _). j \<noteq> k) (cv_drawn cv)\<rparr>"

definition destroyConnection :: "ed_link \<Rightarrow> canvas \<Rightarrow> canvas" where
  "destroyConnection l cv =
     (case cv_connection cv (el_ref l) of
        None \<Rightarrow> cv
      | Some k \<Rightarrow> (cancelConnection k cv)\<lparr>cv_connection := (cv_connection cv)(el_ref l := None)\<rparr>)"

text \<open>The digest: \<open>ng-repeat\<close> first destroys the scopes of the links that are gone, then makes those of the new ones.\<close>

definition leaving_links :: "canvas \<Rightarrow> ed_link list" where
  "leaving_links cv = filter (\<lambda>l. el_ref l \<notin> el_ref ` set (ed_links (cv_page cv))) (cv_rendered cv)"

definition arriving_links :: "canvas \<Rightarrow> ed_link list" where
  "arriving_links cv = filter (\<lambda>l. el_ref l \<notin> el_ref ` set (cv_rendered cv)) (ed_links (cv_page cv))"

definition render_links :: "canvas \<Rightarrow> canvas" where
  "render_links cv =
     (foldl (\<lambda>cv l. createConnection l cv) (foldl (\<lambda>cv l. destroyConnection l cv) cv (leaving_links cv)) (arriving_links cv))
       \<lparr>cv_rendered := ed_links (cv_page cv)\<rparr>"

text \<open>An event of the user or an answer of the server, inside \<open>$apply\<close>.\<close>

definition page_event :: "(editor \<Rightarrow> editor) \<Rightarrow> canvas \<Rightarrow> canvas" where
  "page_event f cv = render_links (cv\<lparr>cv_page := f (cv_page cv)\<rparr>)"

text \<open>
  The user has drawn a connection from one element to another: jsPlumb has made it, the handler removes it and makes a link
  instead. A double click on a connection takes the link it carries out of the list.
\<close>

definition user_connects :: "string \<Rightarrow> string \<Rightarrow> canvas \<Rightarrow> canvas" where
  "user_connects s t cv =
     (let k = cv_next cv; cv = cv\<lparr>cv_drawn := cv_drawn cv @ [(k, None)], cv_next := Suc k\<rparr>
      in page_event (\<lambda>d. snd (onConnectionCreated True s t d)) (cancelConnection k cv))"

definition user_dblclick :: "nat \<Rightarrow> canvas \<Rightarrow> canvas" where
  "user_dblclick k cv =
     (case map_of (cv_drawn cv) k of
        Some (Some l) \<Rightarrow> page_event (onConnectionDblClick l) cv
      | _ \<Rightarrow> page_event (\<lambda>d. d) cv)"

definition new_canvas :: canvas where
  "new_canvas = \<lparr>cv_page = new_page, cv_rendered = [], cv_timeouts = [], cv_connection = (\<lambda>r. None), cv_drawn = [],
     cv_next = 0, cv_thrown = []\<rparr>"

subsection \<open>What an edit does to the links\<close>








subsection \<open>What rendering does\<close>




subsection \<open>The invariant of the canvas\<close>









subsection \<open>The page and its drawing\<close>

text \<open>
  What happens on the page: an edit, a connection drawn or clicked, an answer with a valid design, a timeout. A patient user does nothing that
  takes a link away whose timeout is pending.
\<close>

inductive canvas_step :: "canvas \<Rightarrow> canvas \<Rightarrow> bool" where
  edited: "edit_step (cv_page cv) d \<Longrightarrow> canvas_step cv (page_event (\<lambda>_. d) cv)"
| connected: "shown_attribute (cv_page cv) sc sa \<Longrightarrow> shown_action (cv_page cv) dc da \<Longrightarrow>
    canvas_step cv (user_connects (element_id ''attribute'' sc sa) (element_id ''action'' dc da) cv)"
| dblclicked: "canvas_step cv (user_dblclick k cv)"
| loaded: "editor_ok (reload ts dd (cv_page cv)) \<Longrightarrow> canvas_step cv (page_event (reload ts dd) cv)"
| drawn: "canvas_step cv (connection_timeout cv)"








text \<open>Which timeouts throw: none of a valid link from an attribute.\<close>

lemma member_shown:
  assumes "schema_getMember d c n = Inr (Some m)"
  shows "member_element c m \<in> set (page_elements d)"
proof -
  obtain cl where cl: "component_class d c = Inr (Some cl)" "m \<in> set (members cl)"
    using assms find_member_name by (fastforce simp: schema_getMember_def split: sum.splits option.splits)
  have plugin: ?thesis if pmc: "plugin_member_class d c = Inr (Some cl)"
  proof -
    obtain p t where "p \<in> set (ed_plugins d)" "pc_id (ep_config p) = c" "ep_type p = Some t" "pt_class t = cl"
      using pmc by (auto simp: plugin_member_class_def split: option.splits dest: arrayFind_Some)
    with cl(2) show ?thesis by (force simp: page_elements_def plugin_elements_def)
  qed
  show ?thesis
  proof (cases "arrayFind (ed_hardware d) (\<lambda>h. hc_id (eh_config h) = c)")
    case (Some h)
    then have "h \<in> set (ed_hardware d)" "hc_id (eh_config h) = c" by (auto dest: arrayFind_Some)
    with Some cl plugin show ?thesis
      by (cases "hc_class (eh_config h)") (force simp: component_class_def page_elements_def hardware_elements_def)+
  qed (use cl plugin in \<open>simp add: component_class_def\<close>)
qed

lemma getMember_name: "schema_getMember d c n = Inr (Some m) \<Longrightarrow> mname m = n"
  using find_member_name by (fastforce simp: schema_getMember_def split: sum.splits option.splits)

lemma valid_ends_shown:
  assumes "link_ok d l" "schema_getMember d (sourceComponent (el_config l)) (sourceAttribute (el_config l)) = Inr (Some (Attribute a t))"
  shows "ends_shown d (el_config l)"
proof -
  obtain m where m: "schema_getMember d (destinationComponent (el_config l)) (destinationAction (el_config l)) = Inr (Some m)"
      "checkLinkTypes (Some (Attribute a t)) (Some m) = Inr True"
    using assms by (auto simp: link_ok_def)
  then obtain n ts where "m = Action n ts" by (auto simp: checkLinkTypes_True)
  with member_shown[OF assms(2)] member_shown[OF m(1)] getMember_name[OF assms(2)] getMember_name[OF m(1)]
  show ?thesis by (simp add: ends_shown_def element_ids)
qed



text \<open>The sample design, loaded and drawn.\<close>

definition loaded_canvas :: canvas where
  "loaded_canvas = page_event (reload (map snd sample_types) sample_design) new_canvas"

definition three_timeouts :: "canvas \<Rightarrow> canvas" where
  "three_timeouts cv = connection_timeout (connection_timeout (connection_timeout cv))"

lemma loaded_step: "canvas_step new_canvas loaded_canvas"
  unfolding loaded_canvas_def
  by (rule canvas_step.loaded) (use sample_page_ok in \<open>simp add: sample_page_def new_canvas_def\<close>)

lemma timeout_page [simp]: "cv_page (connection_timeout cv) = cv_page cv"
  by (simp add: connection_timeout_def split: list.split)



text \<open>
  Without patience a connection can be left over: a link that goes before its timeout has no connection yet to destroy, the timeout draws it
  all the same, and a double click on it does nothing. Here the answers to two requests for the design come together.
\<close>

lemma overtaken_timeout_leaves_connection:
  "\<exists>cv. canvas_step\<^sup>*\<^sup>* new_canvas cv \<and> cv_timeouts cv = [] \<and> length (ed_links (cv_page cv)) = 3 \<and> length (cv_drawn cv) = 6 \<and>
     length (cv_drawn (user_dblclick 0 cv)) = 6"
proof -
  let ?again = "page_event (reload (map snd sample_types) sample_design) loaded_canvas"
  let ?cv = "three_timeouts (three_timeouts ?again)"
  have "editor_ok (reload (map snd sample_types) sample_design (cv_page loaded_canvas))"
    using sample_design_links by (intro reload_ok) code_simp+
  then have "canvas_step loaded_canvas ?again" by (rule canvas_step.loaded)
  moreover have "canvas_step\<^sup>*\<^sup>* cv (three_timeouts cv)" for cv
    unfolding three_timeouts_def by (meson canvas_step.drawn converse_rtranclp_into_rtranclp rtranclp.rtrancl_refl)
  ultimately have "canvas_step\<^sup>*\<^sup>* new_canvas ?cv"
    using loaded_step by (meson converse_rtranclp_into_rtranclp rtranclp_trans)
  moreover have "cv_timeouts ?cv = []" "length (ed_links (cv_page ?cv)) = 3" "length (cv_drawn ?cv) = 6"
    "length (cv_drawn (user_dblclick 0 ?cv)) = 6" by code_simp+
  ultimately show ?thesis by blast
qed

end
