(* ===== verification/DesignSession.thy ===== *)
theory DesignSession
  imports Requests SchemaProps
begin

section \<open>A session at the component page\<close>

text \<open>
  The requests of \<open>component/dataAccess.js\<close> to the server of the designer: loading the page, importing a device and saving, with the
  dialog that asks for a confirmation in between. An answer with an error status calls no callback, and neither does a server
  that has ended.
\<close>

type_synonym device = "string \<Rightarrow> hw_config list outcome"


definition import_page :: "item_equality \<Rightarrow> transport \<Rightarrow> device \<Rightarrow> string \<Rightarrow> editor \<Rightarrow> core \<Rightarrow> editor \<times> core" where
  "import_page deq send device url d c =
     (case designer_handle deq send device (PostHardwareUrl url) c of
        (Inr (DHardware items), c') \<Rightarrow> (snd (loadHardware items d), c')
      | (_, c') \<Rightarrow> (d, c'))"



subsection \<open>The types of the plugins on the page\<close>






subsection \<open>From the page to the core\<close>






subsection \<open>Over HTTP\<close>

















end
