(* ===== verification/InterfaceSession.thy ===== *)
theory InterfaceSession
  imports UiPageProps UiServer Requests
begin

section \<open>A session of the interface page\<close>

text \<open>
  The page of \<open>ui/designer.js\<close> with its requests, which \<open>ui/dataAccess.js\<close> sends: what the user does on the page, the two
  requests of a reload that are under way at the same time, the posts of the saves, and the answers, which may come in any order
  and while other reloads are under way. The server is the handler of the designer, given as a parameter; what the page relies on is
  the locale \<open>interface_server\<close>, interpreted below by the handler of the designer connected to the core.
\<close>

subsection \<open>The user\<close>

text \<open>What is shown over the page: the errors of \<open>checkSchemaErrors.html\<close> and the alerts.\<close>

datatype page_dialog = SchemaErrors "schema_error list" | ResourceAlert resource_alert | SavedAlert

text \<open>The end of \<open>checkSchema\<close>: the dialog opens when there are errors; after a throw the end is not reached.\<close>

definition report :: "ui_page check \<Rightarrow> ui_page \<Rightarrow> page_dialog list \<times> ui_page" where
  "report f u =
     (case f u of
        (Some e, u', es) \<Rightarrow> ([], u')
      | (None, u', es) \<Rightarrow> (if es = [] then [] else [SchemaErrors es], u'))"

text \<open>What can be clicked in the list of items.\<close>

fun item_on_page :: "ui_page \<Rightarrow> d_item \<Rightarrow> bool" where
  "item_on_page u ItemApp \<longleftrightarrow> True"
| "item_on_page u (ItemWindow w) \<longleftrightarrow> list_ex (\<lambda>x. wd_ref x = w) (up_windows u)"
| "item_on_page u (ItemCommand w c) \<longleftrightarrow> list_ex (\<lambda>x. wd_ref x = w \<and> list_ex (\<lambda>k. cm_ref k = c) (wd_commands x)) (up_windows u)"
| "item_on_page u (ItemText w t) \<longleftrightarrow> list_ex (\<lambda>x. wd_ref x = w \<and> list_ex (\<lambda>k. tx_ref k = t) (wd_texts x)) (up_windows u)"

definition itemlist_click :: "d_item \<Rightarrow> ui_page \<Rightarrow> ui_page" where
  "itemlist_click item u = (if item_on_page u item then selectItem (Some item) u else u)"

text \<open>
  The user: clicks in the list and on the buttons, the fields of the templates, and the dialogs with what happened in them
  until they were closed. A dialog is modal, so only answers can come while it is open; what it copies back on Ok depends on its own events, and when
  the windows were replaced meanwhile it copies to an object that is no longer on the page. So a dialog is one event at the time when it is closed or, in the latter
  case, before the answer.
\<close>

datatype interface_event =
    Pick d_item | TypeDefault jsval | TypeId string | TypeBackground jsval | TypeNewId jsval | ChooseNewData jsval
  | AddResource | RemoveResource d_resource | DeletePicked | CreateNew bool
  | DesignAction bool "action_event list" bool | DesignDisplay "display_event list" bool | DesignContext "context_event list" bool

definition updateCommand :: "nat \<Rightarrow> nat \<Rightarrow> (d_command \<Rightarrow> d_command) \<Rightarrow> ui_page \<Rightarrow> ui_page" where
  "updateCommand w c f = updateWindow w (\<lambda>x. x\<lparr>wd_commands := map (\<lambda>k. if cm_ref k = c then f k else k) (wd_commands x)\<rparr>)"

definition updateText :: "nat \<Rightarrow> nat \<Rightarrow> (d_text \<Rightarrow> d_text) \<Rightarrow> ui_page \<Rightarrow> ui_page" where
  "updateText w t f = updateWindow w (\<lambda>x. x\<lparr>wd_texts := map (\<lambda>k. if tx_ref k = t then f k else k) (wd_texts x)\<rparr>)"

fun typeId :: "string \<Rightarrow> d_item \<Rightarrow> ui_page \<Rightarrow> ui_page" where
  "typeId i ItemApp u = u"
| "typeId i (ItemWindow w) u = updateWindow w (\<lambda>x. x\<lparr>wd_id := i\<rparr>) u"
| "typeId i (ItemCommand w c) u = updateCommand w c (\<lambda>x. x\<lparr>cm_id := i\<rparr>) u"
| "typeId i (ItemText w t) u = updateText w t (\<lambda>x. x\<lparr>tx_id := i\<rparr>) u"

text \<open>The three dialogs of the selected command or text; they open only when the components are loaded.\<close>

fun open_dialog :: "interface_event \<Rightarrow> d_item \<Rightarrow> ui_page \<Rightarrow> ui_page" where
  "open_dialog (DesignAction primary evs ok) (ItemCommand w c) u =
     (case componentActions (up_components u) of
        Inl e \<Rightarrow> u
      | Inr actions \<Rightarrow>
          updateCommand w c
            (\<lambda>k. if primary then k\<lparr>cm_primary := designCommandAction (cm_primary k) evs ok\<rparr>
                 else k\<lparr>cm_secondary := designCommandAction (cm_secondary k) evs ok\<rparr>) u)"
| "open_dialog (DesignDisplay evs ok) (ItemCommand w c) u =
     (case componentAttributes (up_components u) of
        Inl e \<Rightarrow> u
      | Inr attrs \<Rightarrow> updateCommand w c (\<lambda>k. k\<lparr>cm_display := designCommandDisplay attrs (cm_display k) evs ok\<rparr>) u)"
| "open_dialog (DesignContext evs ok) (ItemText w t) u =
     (case componentAttributes (up_components u) of
        Inl e \<Rightarrow> u
      | Inr attrs \<Rightarrow> updateText w t (\<lambda>k. designTextContext k evs ok) u)"
| "open_dialog _ _ u = u"

fun on_event :: "interface_event \<Rightarrow> ui_page \<Rightarrow> page_dialog list \<times> ui_page" where
  "on_event (Pick item) u = ([], itemlist_click item u)"
| "on_event (TypeDefault v) u = ([], if up_selected u = Some ItemApp then u\<lparr>up_default := v\<rparr> else u)"
| "on_event (TypeId i) u = ([], case up_selected u of None \<Rightarrow> u | Some item \<Rightarrow> typeId i item u)"
| "on_event (TypeBackground v) u =
     ([], case up_selected u of Some (ItemWindow w) \<Rightarrow> updateWindow w (\<lambda>x. x\<lparr>wd_background := v\<rparr>) u | _ \<Rightarrow> u)"
| "on_event (TypeNewId v) u = ([], u\<lparr>up_newId := v\<rparr>)"
| "on_event (ChooseNewData v) u = ([], u\<lparr>up_newData := v\<rparr>)"
| "on_event AddResource u =
     (case newResource u of (None, u') \<Rightarrow> ([], u') | (Some a, u') \<Rightarrow> ([ResourceAlert a], u'))"
| "on_event (RemoveResource r) u = report (destroyResource r) u"
| "on_event DeletePicked u = report deleteItem u"
| "on_event (CreateNew isText) u = ([], createItem isText u)"
| "on_event dialog u = ([], case up_selected u of None \<Rightarrow> u | Some item \<Rightarrow> open_dialog dialog item u)"

subsection \<open>Requests under way\<close>

text \<open>
  The promise of a request: sent, answered by the server with the answer on its way, then resolved or, for an error or a throw of the callback, rejected.
\<close>

datatype 'a promise = Sent | Answered "js_error + 'a" | Resolved | Rejected

type_synonym reload_promises = "raw_ui promise \<times> d_component list promise"
type_synonym designer_server = "designer_request \<Rightarrow> core \<Rightarrow> (js_error + designer_response) \<times> core"

record ui_session =
  us_page :: ui_page
  us_reloads :: "reload_promises list"      \<comment> \<open>the two requests of each click on \<open>Recharger\<close>\<close>
  us_saves :: "(string \<times> unit promise) list"     \<comment> \<open>the text that each click on \<open>Enregistrer\<close> posts\<close>
  us_shown :: "page_dialog list"
  us_core :: core

text \<open>
  The answers as the page receives them; no answer and a status 500 are errors. \<open>parse\<close> is \<open>JSON.parse\<close> with the
  fields of the page; undefined is a text that is no object with these fields, on which \<open>prepareData\<close> throws.
\<close>

definition data_reply :: "(string \<Rightarrow> raw_ui option) \<Rightarrow> js_error + designer_response \<Rightarrow> js_error + raw_ui" where
  "data_reply parse r =
     (case r of
        Inr (DUi (RUi t)) \<Rightarrow> (case parse t of None \<Rightarrow> Inl TypeErr | Some d \<Rightarrow> Inr d)
      | Inr (DError e) \<Rightarrow> Inl e
      | Inr _ \<Rightarrow> Inl TypeErr
      | Inl e \<Rightarrow> Inl e)"

definition components_reply :: "js_error + designer_response \<Rightarrow> js_error + d_component list" where
  "components_reply r =
     (case r of
        Inr (DComponents cs) \<Rightarrow> Inr cs
      | Inr (DError e) \<Rightarrow> Inl e
      | Inr _ \<Rightarrow> Inl TypeErr
      | Inl e \<Rightarrow> Inl e)"

definition save_reply :: "js_error + designer_response \<Rightarrow> js_error + unit" where
  "save_reply r = (case r of Inr (DError e) \<Rightarrow> Inl e | Inr _ \<Rightarrow> Inr () | Inl e \<Rightarrow> Inl e)"

text \<open>An answer arrives: the callback runs, and its throw rejects the promise as an error does.\<close>

definition arrived :: "('a \<Rightarrow> (ui_page, unit) op) \<Rightarrow> js_error + 'a \<Rightarrow> ui_page \<Rightarrow> 'a promise \<times> ui_page" where
  "arrived callback a u =
     (case a of
        Inl e \<Rightarrow> (Rejected, u)
      | Inr x \<Rightarrow> (case callback x u of (Inl e, u') \<Rightarrow> (Rejected, u') | (Inr y, u') \<Rightarrow> (Resolved, u')))"

definition components_callback :: "d_component list \<Rightarrow> (ui_page, unit) op" where
  "components_callback cs u = (Inr (), applyComponents cs u)"

text \<open>\<open>$q.all(\<dots>).then(\<dots>)\<close>: in the same digest as the second of the two answers the schema is checked.\<close>

definition when_all :: "reload_promises \<Rightarrow> ui_page \<Rightarrow> page_dialog list \<times> ui_page" where
  "when_all pq u = (if pq = (Resolved, Resolved) then report checkSchema u else ([], u))"

definition settle :: "reload_promises list \<Rightarrow> reload_promises \<Rightarrow> reload_promises list \<Rightarrow> ui_page \<Rightarrow> ui_session \<Rightarrow> ui_session" where
  "settle before pq after u s =
     (case when_all pq u of
        (ds, u') \<Rightarrow> s\<lparr>us_page := u', us_reloads := before @ pq # after, us_shown := us_shown s @ ds\<rparr>)"

definition click_reload :: "ui_session \<Rightarrow> ui_session" where
  "click_reload s = s\<lparr>us_reloads := us_reloads s @ [(Sent, Sent)]\<rparr>"

text \<open>\<open>save\<close>; \<open>stringify\<close> is \<open>JSON.stringify\<close>. The alert is that of \<open>dataAccess.js\<close>, which does not call its callback.\<close>

definition click_save :: "(raw_ui \<Rightarrow> string) \<Rightarrow> ui_session \<Rightarrow> ui_session" where
  "click_save stringify s = s\<lparr>us_saves := us_saves s @ [(stringify (save_ui (us_page s)), Sent)]\<rparr>"

definition save_arrived :: "js_error + unit \<Rightarrow> unit promise \<times> page_dialog list" where
  "save_arrived a = (case a of Inl e \<Rightarrow> (Rejected, []) | Inr x \<Rightarrow> (Resolved, [SavedAlert]))"

text \<open>The page when it is opened: empty, and \<open>init\<close> reloads it.\<close>

definition open_interface :: "core \<Rightarrow> ui_session" where
  "open_interface c = click_reload
     \<lparr>us_page = \<lparr>up_resources = [], up_windows = [], up_default = VStr '''', up_components = None, up_selected = None,
        up_selectedWindow = None, up_newId = VUndefined, up_newData = VUndefined, up_next = 0, up_last_id = 0\<rparr>,
      us_reloads = [], us_saves = [], us_shown = [], us_core = c\<rparr>"

text \<open>The server handles one of the requests, or one of the answers arrives.\<close>

inductive answer_step :: "(string \<Rightarrow> raw_ui option) \<Rightarrow> designer_server \<Rightarrow> ui_session \<Rightarrow> ui_session \<Rightarrow> bool"
  for parse server where
  data_served: "us_reloads s = before @ (Sent, q) # after \<Longrightarrow> server GetUiData (us_core s) = (r, c) \<Longrightarrow>
    answer_step parse server s (s\<lparr>us_reloads := before @ (Answered (data_reply parse r), q) # after, us_core := c\<rparr>)"
| components_served: "us_reloads s = before @ (p, Sent) # after \<Longrightarrow> server GetUiComponents (us_core s) = (r, c) \<Longrightarrow>
    answer_step parse server s (s\<lparr>us_reloads := before @ (p, Answered (components_reply r)) # after, us_core := c\<rparr>)"
| data_arrived: "us_reloads s = before @ (Answered a, q) # after \<Longrightarrow> arrived load_ui a (us_page s) = (p, u) \<Longrightarrow>
    answer_step parse server s (settle before (p, q) after u s)"
| components_arrived: "us_reloads s = before @ (p, Answered a) # after \<Longrightarrow> arrived components_callback a (us_page s) = (q, u) \<Longrightarrow>
    answer_step parse server s (settle before (p, q) after u s)"
| save_served: "us_saves s = before_s @ (t, Sent) # after_s \<Longrightarrow> server (PostUiData t) (us_core s) = (r, c) \<Longrightarrow>
    answer_step parse server s (s\<lparr>us_saves := before_s @ (t, Answered (save_reply r)) # after_s, us_core := c\<rparr>)"
| save_answered: "us_saves s = before_s @ (t, Answered a) # after_s \<Longrightarrow> save_arrived a = (p', ds) \<Longrightarrow>
    answer_step parse server s (s\<lparr>us_saves := before_s @ (t, p') # after_s, us_shown := us_shown s @ ds\<rparr>)"

text \<open>The session: answers, clicks on the two buttons and the other events of the user.\<close>

inductive session_step :: "(string \<Rightarrow> raw_ui option) \<Rightarrow> (raw_ui \<Rightarrow> string) \<Rightarrow> designer_server \<Rightarrow> ui_session \<Rightarrow> ui_session \<Rightarrow> bool"
  for parse stringify server where
  answered: "answer_step parse server s s' \<Longrightarrow> session_step parse stringify server s s'"
| reload_clicked: "session_step parse stringify server s (click_reload s)"
| save_clicked: "session_step parse stringify server s (click_save stringify s)"
| edited: "on_event ev (us_page s) = (ds, u) \<Longrightarrow>
    session_step parse stringify server s (s\<lparr>us_page := u, us_shown := us_shown s @ ds\<rparr>)"

text \<open>Nothing but reloads and their answers.\<close>

definition reload_step :: "(string \<Rightarrow> raw_ui option) \<Rightarrow> designer_server \<Rightarrow> ui_session \<Rightarrow> ui_session \<Rightarrow> bool" where
  "reload_step parse server s s' \<longleftrightarrow> answer_step parse server s s' \<or> s' = click_reload s"

end
