(* ===== verification/InterfaceLaws.thy ===== *)
theory InterfaceLaws
  imports InterfaceSession
begin

section \<open>Laws of the sessions of the interface page\<close>

text \<open>
  Loading commutes with the arrival of the components, the check depends on the data only, and so the two answers of a reload, and the
  answers of overlapping reloads, may come in any order.
\<close>

subsection \<open>The data of a page\<close>

text \<open>A description whose loading and checking return: both arrays are there and every command has a display map.\<close>

definition complete_data :: "raw_ui \<Rightarrow> bool" where
  "complete_data d \<longleftrightarrow> ru_resources d \<noteq> None \<and>
     (case ru_windows d of None \<Rightarrow> False
      | Some ws \<Rightarrow> list_all (\<lambda>w. case rw_commands w of None \<Rightarrow> True
          | Some cs \<Rightarrow> list_all (\<lambda>c. ds_map (cm_display c) \<noteq> None) cs) ws)"

text \<open>A page that shows the data as loaded, and one that shows it checked with the components.\<close>

definition shows_data :: "raw_ui \<Rightarrow> ui_page \<Rightarrow> bool" where
  "shows_data d u \<longleftrightarrow> (\<exists>v. load_ui d v = (Inr (), u))"

definition shows_checked :: "raw_ui \<Rightarrow> d_component list \<Rightarrow> ui_page \<Rightarrow> bool" where
  "shows_checked d cs u \<longleftrightarrow> (\<exists>v es. shows_data d v \<and> checkSchema (applyComponents cs v) = (None, u, es))"

lemma load_complete: "complete_data d \<Longrightarrow> \<exists>u'. load_ui d u = (Inr (), u')"
  by (auto simp: complete_data_def load_ui_def Let_def split: option.splits prod.split)

lemma load_shows: "load_ui d u = (Inr (), u') \<Longrightarrow> shows_data d u'"
  by (auto simp: shows_data_def)

lemma selectItem_None_fields: "selectItem None u = u\<lparr>up_selected := None\<rparr>"
  by simp

lemma load_components: "load_ui d u = (r, u') \<Longrightarrow> up_components u' = up_components u"
  by (auto simp: load_ui_def Let_def split: option.splits prod.splits)

lemma load_applyComponents:
  "load_ui d (applyComponents cs u) = (case load_ui d u of (r, u') \<Rightarrow> (r, applyComponents cs u'))"
  by (simp add: load_ui_def applyComponents_def Let_def split: option.split prod.split)

lemma applyComponents_shows: "shows_data d u \<Longrightarrow> shows_data d (applyComponents cs u)"
  unfolding shows_data_def using load_applyComponents[of d cs] by (metis case_prod_conv)

lemma applyComponents_same: "up_components u = Some cs \<Longrightarrow> applyComponents cs u = u"
  by (simp add: applyComponents_def)

lemma up_components_apply [simp]: "up_components (applyComponents cs u) = Some cs"
  by (simp add: applyComponents_def)

lemma checkSchema_components: "checkSchema u = (r, u', es) \<Longrightarrow> up_components u' = up_components u"
  by (auto simp: checkSchema_def andThen_def inField_def clearUnless_def split: prod.splits option.splits bool.splits if_splits)

lemma ui_components_loaded: "loaded_components (Some (ui_components ts ps))"
proof -
  have "arrayFind ts' (\<lambda>t. pt_id t = pc_type p) \<noteq> None" if "list_ex (\<lambda>t. pc_type p = pt_id t) ts'" for ts' p
    using that arrayFind_None[of ts' "\<lambda>t. pt_id t = pc_type p"] by (auto simp: list_ex_iff)
  then show ?thesis
    by (auto simp: loaded_components_def ui_components_def Let_def arrayKeepIf_def list_all_iff)
qed

lemma prepareWindows_maps:
  "list_all (\<lambda>w. list_all (\<lambda>c. ds_map (cm_display c) \<noteq> None) (wd_commands w)) (snd (prepareWindows n ws)) =
   list_all (\<lambda>w. case rw_commands w of None \<Rightarrow> True | Some cs \<Rightarrow> list_all (\<lambda>c. ds_map (cm_display c) \<noteq> None) cs) ws"
proof (induction ws arbitrary: n)
  case (Cons w ws)
  have maps: "list_all (\<lambda>c. ds_map (cm_display c) \<noteq> None) (map2 (\<lambda>r c. c\<lparr>cm_ref := r\<rparr>) ns cs) =
      list_all (\<lambda>c. ds_map (cm_display c) \<noteq> None) cs" if "length ns = length cs" for ns cs
    using that by (induction ns cs rule: list_induct2) auto
  show ?case
  proof (cases "rw_commands w")
    case (Some cs)
    then show ?thesis
      using Cons.IH maps[of "[Suc n..<Suc (n + length cs)]" cs]
      by (simp add: prepareWindow_def Let_def case_prod_beta del: upt_Suc not_None_eq)
  qed (use Cons.IH in \<open>simp add: prepareWindow_def Let_def case_prod_beta\<close>)
qed simp

lemma shown_data_checks:
  assumes "complete_data d" "shows_data d u" "up_components u = Some cs" "loaded_components (Some cs)"
  shows "\<exists>u' es. checkSchema u = (None, u', es)"
proof -
  have "list_all (\<lambda>w. list_all (\<lambda>c. ds_map (cm_display c) \<noteq> None) (wd_commands w)) (up_windows u)"
    using assms(1,2) prepareWindows_maps
    by (auto simp: complete_data_def shows_data_def load_ui_def Let_def case_prod_beta split: option.splits)
  then have "fst (checkSchema u) = None"
    using throws_schema[of u] assms(3,4) by (auto simp: list_all_iff list_ex_iff no_map_def)
  then show ?thesis by (metis prod.collapse)
qed

lemma checked_components: "shows_checked d cs u \<Longrightarrow> up_components u = Some cs \<and> page_refs_ok u \<and> checkSchema u = (None, u, [])"
  unfolding shows_checked_def using checkSchema_components schema.repaired schema.stable by fastforce

text \<open>Whether references exist is seen from the posted data and the components.\<close>

definition posted_window :: "d_window \<Rightarrow> raw_window" where
  "posted_window w = \<lparr>rw_id = wd_id w, rw_background = wd_background w,
     rw_commands = Some (map (\<lambda>c. c\<lparr>cm_ref := 0\<rparr>) (wd_commands w)), rw_texts = Some (map (\<lambda>t. t\<lparr>tx_ref := 0\<rparr>) (wd_texts w))\<rparr>"

definition posted_window_ok :: "ui_page \<Rightarrow> raw_window \<Rightarrow> bool" where
  "posted_window_ok u r \<longleftrightarrow> resourceExists (up_resources u) (rw_background r) \<and>
     list_all (command_refs_ok u) (the (rw_commands r)) \<and> list_all (text_refs_ok u) (the (rw_texts r))"

lemma window_refs_posted: "window_refs_ok u w = posted_window_ok u (posted_window w)"
  by (simp add: window_refs_ok_def posted_window_ok_def posted_window_def list.pred_map comp_def command_refs_ok_def[abs_def] text_refs_ok_def[abs_def])

lemma resourceExists_ids: "map rs_id rs = map rs_id rs' \<Longrightarrow> resourceExists rs i = resourceExists rs' i"
proof -
  have ids: "resourceExists rs i = (if \<not> truthy i then True else list_ex (\<lambda>j. VStr j = i) (map rs_id rs))" for rs
    by (simp add: resourceExists_def list_ex_iff)
  show "map rs_id rs = map rs_id rs' \<Longrightarrow> resourceExists rs i = resourceExists rs' i" by (simp only: ids)
qed

lemma posted_window_ok_cong:
  assumes "map rs_id (up_resources u) = map rs_id (up_resources v)" "map wd_id (up_windows u) = map wd_id (up_windows v)"
    "up_components u = up_components v"
  shows "posted_window_ok u = posted_window_ok v"
proof -
  have same: "resourceExists (up_resources u) = resourceExists (up_resources v)" "windowExists (up_windows u) = windowExists (up_windows v)"
    using resourceExists_ids[OF assms(1)] windowExists_ids[OF assms(2)] by auto
  show ?thesis
    unfolding posted_window_ok_def[abs_def] command_refs_ok_def[abs_def] text_refs_ok_def[abs_def] action_refs_ok_def[abs_def]
      display_refs_ok_def[abs_def] assms(3) same by (rule refl)
qed

lemma save_posted: "save_ui u = \<lparr>ru_resources = Some (map (\<lambda>r. (rs_id r, rs_data r)) (up_resources u)),
    ru_windows = Some (map posted_window (up_windows u)), ru_defaultWindow = up_default u\<rparr>"
  by (simp add: save_ui_def posted_window_def)

lemma page_refs_posted:
  assumes same: "save_ui u = (save_ui v)\<lparr>ru_defaultWindow := x\<rparr>" "up_components u = up_components v"
    and ok: "page_refs_ok v" "windowExists (up_windows v) x"
  shows "page_refs_ok u"
proof -
  have ws: "map posted_window (up_windows u) = map posted_window (up_windows v)" and x: "up_default u = x"
    and rs: "map (\<lambda>r. (rs_id r, rs_data r)) (up_resources u) = map (\<lambda>r. (rs_id r, rs_data r)) (up_resources v)"
    using same(1) by (simp_all add: save_posted)
  have ids: "map wd_id (up_windows u) = map wd_id (up_windows v)"
    using arg_cong[OF ws, of "map rw_id"] by (simp add: posted_window_def comp_def)
  have rids: "map rs_id (up_resources u) = map rs_id (up_resources v)"
    using arg_cong[OF rs, of "map fst"] by (simp add: comp_def)
  have "posted_window_ok u = posted_window_ok v" using rids ids same(2) by (rule posted_window_ok_cong)
  then have "list_all (posted_window_ok u) (map posted_window (up_windows u))"
    using ok(1) by (simp add: ws) (simp add: page_refs_ok_def list.pred_map comp_def window_refs_posted[symmetric])
  then show ?thesis
    using ok(2) windowExists_ids[OF ids] by (simp add: page_refs_ok_def list.pred_map comp_def window_refs_posted[symmetric] x)
qed

text \<open>A page that shows the data of another page is in order when the other one is.\<close>

lemma shown_saved:
  assumes "shows_data (save_ui v) u"
  shows "save_ui u = (save_ui v)\<lparr>ru_defaultWindow := (if truthy (up_default v) then up_default v else VStr '''')\<rparr>"
proof -
  obtain w where "load_ui (save_ui v) w = (Inr (), u)" using assms by (auto simp: shows_data_def)
  then show ?thesis using ui_load_save[of v w] by simp
qed

lemma shown_saved_ok:
  assumes "shows_data (save_ui v) u" "up_components u = Some cs" "page_refs_ok (applyComponents cs v)"
  shows "page_refs_ok u"
proof (rule page_refs_posted[where v = "applyComponents cs v"])
  show "save_ui u = (save_ui (applyComponents cs v))\<lparr>ru_defaultWindow := (if truthy (up_default v) then up_default v else VStr '''')\<rparr>"
    using shown_saved[OF assms(1)] by (simp add: save_ui_def applyComponents_def)
  show "windowExists (up_windows (applyComponents cs v)) (if truthy (up_default v) then up_default v else VStr '''')"
    using assms(3) by (auto simp: page_refs_ok_def applyComponents_def windowExists_def)
qed (use assms in simp_all)

subsection \<open>The answers of reloads in any order\<close>

text \<open>The promises of reloads whose answers are the description \<open>d\<close> and the components \<open>cs\<close>, and the page between two answers.\<close>

definition promises_ok :: "raw_ui \<Rightarrow> d_component list \<Rightarrow> reload_promises list \<Rightarrow> bool" where
  "promises_ok d cs rs \<longleftrightarrow> (\<forall>(p, q) \<in> set rs. p \<in> {Sent, Answered (Inr d), Resolved} \<and> q \<in> {Sent, Answered (Inr cs), Resolved})"

definition page_between :: "raw_ui \<Rightarrow> d_component list \<Rightarrow> reload_promises list \<Rightarrow> ui_page \<Rightarrow> bool" where
  "page_between d cs rs u \<longleftrightarrow>
     ((\<exists>(p, q) \<in> set rs. q = Resolved) \<longrightarrow> up_components u = Some cs) \<and>
     (shows_checked d cs u \<or>
      shows_data d u \<and> (\<exists>(p, q) \<in> set rs. p = Resolved \<and> q \<noteq> Resolved) \<or>
      rs \<noteq> [] \<and> (\<forall>(p, q) \<in> set rs. p \<noteq> Resolved))"

text \<open>The description, with these components, is in order: the check will be silent.\<close>

definition in_order :: "raw_ui \<Rightarrow> d_component list \<Rightarrow> bool" where
  "in_order d cs \<longleftrightarrow> (\<forall>u. shows_data d u \<longrightarrow> up_components u = Some cs \<longrightarrow> page_refs_ok u)"

lemma check_shown:
  assumes "complete_data d" "loaded_components (Some cs)" "shows_data d u" "up_components u = Some cs"
    and "report checkSchema u = (ds, u')"
  shows "shows_checked d cs u' \<and> (in_order d cs \<longrightarrow> ds = [])"
proof -
  obtain es where c: "checkSchema u = (None, u', es)"
    using shown_data_checks[OF assms(1,3,4,2)] assms(5) by (auto simp: report_def)
  then have "shows_checked d cs u'"
    unfolding shows_checked_def using assms(3) applyComponents_same[OF assms(4)] by metis
  moreover have "ds = []" if "in_order d cs"
    using that assms(3-5) schema.stable[of u] by (simp add: in_order_def report_def)
  ultimately show ?thesis by simp
qed

lemma data_between:
  assumes d: "complete_data d" "loaded_components (Some cs)"
    and u: "page_between d cs (b @ (Answered (Inr d), q) # a) u" "load_ui d u = (Inr (), u1)"
    and w: "when_all (Resolved, q) u1 = (ds, u2)"
  shows "page_between d cs (b @ (Resolved, q) # a) u2 \<and> (in_order d cs \<longrightarrow> ds = [])"
proof (cases "q = Resolved")
  case True
  then have "up_components u1 = Some cs" using u load_components[of d u] by (auto simp: page_between_def)
  then have "shows_checked d cs u2 \<and> (in_order d cs \<longrightarrow> ds = [])"
    using check_shown[OF d load_shows[OF u(2)]] w True by (simp add: when_all_def)
  then show ?thesis using checked_components[of d cs u2] by (simp add: page_between_def)
next
  case False
  then have "u2 = u1 \<and> ds = []" using w by (simp add: when_all_def)
  then show ?thesis
    using u load_shows[OF u(2)] load_components[OF u(2)] False by (auto simp: page_between_def)
qed

lemma components_between:
  assumes d: "complete_data d" "loaded_components (Some cs)"
    and u: "page_between d cs (b @ (p, Answered (Inr cs)) # a) u"
    and w: "when_all (p, Resolved) (applyComponents cs u) = (ds, u2)"
  shows "page_between d cs (b @ (p, Resolved) # a) u2 \<and> (in_order d cs \<longrightarrow> ds = [])"
proof (cases "p = Resolved")
  case True
  then consider "shows_checked d cs u" | "shows_data d u" using u by (auto simp: page_between_def)
  then have "shows_checked d cs u2 \<and> (in_order d cs \<longrightarrow> ds = [])"
  proof cases
    case 1
    then have "when_all (p, Resolved) (applyComponents cs u) = ([], u)"
      using checked_components[OF 1] applyComponents_same[of u cs] True by (simp add: when_all_def report_def)
    with w 1 show ?thesis by simp
  next
    case 2
    then show ?thesis
      using check_shown[OF d applyComponents_shows[OF 2] up_components_apply] w True by (simp add: when_all_def)
  qed
  then show ?thesis using checked_components[of d cs u2] by (simp add: page_between_def)
next
  case False
  then have u2: "u2 = applyComponents cs u" "ds = []" using w by (simp_all add: when_all_def)
  have "u2 = u" if "shows_checked d cs u" using checked_components[OF that] applyComponents_same[of u cs] u2(1) by simp
  moreover have "up_components u2 = Some cs" "shows_data d u \<Longrightarrow> shows_data d u2"
    using applyComponents_shows[of d u cs] by (simp_all add: u2(1))
  ultimately show ?thesis using u False by (auto simp: page_between_def u2(2))
qed


subsection \<open>The contract of the server\<close>

text \<open>
  What the page relies on: \<open>serves\<close> tells which description, if any, and which components a state of the server stands for; requests for them are answered
  so and keep them, and a post replaces the description.
\<close>

locale interface_server =
  fixes server :: designer_server and serves :: "string option \<Rightarrow> d_component list \<Rightarrow> core \<Rightarrow> bool"
  assumes data: "serves (Some text) cs c \<Longrightarrow> \<exists>c'. server GetUiData c = (Inr (DUi (RUi text)), c') \<and> serves (Some text) cs c'"
    and components: "serves t cs c \<Longrightarrow> \<exists>c'. server GetUiComponents c = (Inr (DComponents cs), c') \<and> serves t cs c'"
    and posted: "serves t cs c \<Longrightarrow> \<exists>r c'. server (PostUiData u) c = (Inr (DUi r), c') \<and> serves (Some u) cs c'"

text \<open>Nothing is under way; the reloads after the first \<open>n\<close>, with no save under way.\<close>

fun promise_work :: "'a promise \<Rightarrow> nat" where
  "promise_work Sent = 2"
| "promise_work (Answered a) = 1"
| "promise_work Resolved = 0"
| "promise_work Rejected = 0"

definition outstanding :: "ui_session \<Rightarrow> nat" where
  "outstanding s = sum_list (map (\<lambda>(p, q). promise_work p + promise_work q) (us_reloads s)) +
     sum_list (map (\<lambda>(t, p). promise_work p) (us_saves s))"

definition idle :: "ui_session \<Rightarrow> bool" where
  "idle s \<longleftrightarrow> outstanding s = 0"

definition reloading :: "reload_promises list \<Rightarrow> raw_ui \<Rightarrow> d_component list \<Rightarrow> ui_session \<Rightarrow> bool" where
  "reloading old d cs s \<longleftrightarrow>
     (\<forall>(p, q) \<in> set old. promise_work p = 0 \<and> promise_work q = 0) \<and> (\<forall>(t, p) \<in> set (us_saves s). promise_work p = 0) \<and>
     (\<exists>rs. us_reloads s = old @ rs \<and> promises_ok d cs rs \<and> page_between d cs rs (us_page s))"

lemma arrived_done: "promise_work (fst (arrived callback a u)) = 0"
  by (simp add: arrived_def split: sum.split prod.split)

lemma save_arrived_done: "promise_work (fst (save_arrived a)) = 0"
  by (simp add: save_arrived_def split: sum.split)

lemma settle_fields [simp]:
  "us_reloads (settle b pq a u s) = b @ pq # a" "us_saves (settle b pq a u s) = us_saves s" "us_core (settle b pq a u s) = us_core s"
  by (simp_all add: settle_def split: prod.split)

lemma answer_step_decreases: "answer_step parse server s s' \<Longrightarrow> outstanding s' < outstanding s"
proof (induction rule: answer_step.induct)
  case (data_arrived s before a q after p u)
  then show ?case using arrived_done[of load_ui a "us_page s"] by (simp add: outstanding_def)
next
  case (components_arrived s before p a after q u)
  then show ?case using arrived_done[of components_callback a "us_page s"] by (simp add: outstanding_def)
next
  case (save_answered s before_s t a after_s p' ds)
  then show ?case using save_arrived_done[of a] by (simp add: outstanding_def)
qed (simp_all add: outstanding_def)

lemma promise_cases: "promise_work p \<noteq> 0 \<Longrightarrow> p = Sent \<or> (\<exists>a. p = Answered a)"
  by (cases p) auto

lemma answer_step_enabled: "\<not> idle s \<Longrightarrow> \<exists>s'. answer_step parse server s s'"
proof -
  assume "\<not> idle s"
  then consider x where "x \<in> set (us_reloads s)" "promise_work (fst x) \<noteq> 0 \<or> promise_work (snd x) \<noteq> 0"
    | y where "y \<in> set (us_saves s)" "promise_work (snd y) \<noteq> 0"
    by (auto simp: idle_def outstanding_def sum_list_eq_0_iff)
  then show ?thesis
  proof cases
    case 1
    then obtain b a where "us_reloads s = b @ (fst x, snd x) # a" by (metis prod.collapse split_list)
    then show ?thesis
      using 1(2) promise_cases[of "fst x"] promise_cases[of "snd x"] answer_step.intros(1-4)[of s b] by (metis prod.exhaust)
  next
    case 2
    then obtain b a where "us_saves s = b @ (fst y, snd y) # a" by (metis prod.collapse split_list)
    then show ?thesis
      using 2(2) promise_cases[of "snd y"] answer_step.intros(5,6)[of s b] by (metis prod.exhaust)
  qed
qed

lemma answers_are_reload_steps: "(answer_step parse server)\<^sup>*\<^sup>* s s' \<Longrightarrow> (reload_step parse server)\<^sup>*\<^sup>* s s'"
  by (erule mono_rtranclp[rule_format, rotated]) (simp add: reload_step_def)

text \<open>Every session comes to rest when the user waits, whatever the server answers.\<close>

lemma comes_to_rest: "\<exists>s'. (answer_step parse server)\<^sup>*\<^sup>* s s' \<and> idle s'"
proof (induction "outstanding s" arbitrary: s rule: less_induct)
  case less
  show ?case
  proof (cases "idle s")
    case False
    then obtain s1 where "answer_step parse server s s1" using answer_step_enabled by blast
    with less[OF answer_step_decreases[OF this]] show ?thesis by (meson converse_rtranclp_into_rtranclp)
  qed blast
qed

lemma answers_bounded: "(answer_step parse server ^^ n) s s' \<Longrightarrow> outstanding s' + n \<le> outstanding s"
proof (induction n arbitrary: s')
  case (Suc n)
  then obtain s1 where "(answer_step parse server ^^ n) s s1" "answer_step parse server s1 s'" by auto
  with Suc.IH answer_step_decreases show ?case by fastforce
qed simp

lemma split_old: "old @ rs = b @ x # a \<Longrightarrow> x \<notin> set old \<Longrightarrow> \<exists>b'. b = old @ b' \<and> rs = b' @ x # a"
proof (induction old arbitrary: b)
  case (Cons y old)
  then show ?case by (cases b) auto
qed simp

text \<open>An outstanding promise belongs to one of the reloads that are looked at.\<close>

lemma reloading_split:
  assumes "reloading old d cs s" "us_reloads s = b @ (p, q) # a" "promise_work p \<noteq> 0 \<or> promise_work q \<noteq> 0"
  obtains b' where "b = old @ b'" "promises_ok d cs (b' @ (p, q) # a)" "page_between d cs (b' @ (p, q) # a) (us_page s)"
proof -
  obtain rs where rs: "us_reloads s = old @ rs" "promises_ok d cs rs" "page_between d cs rs (us_page s)"
    using assms(1) by (auto simp: reloading_def)
  have "(p, q) \<notin> set old" using assms(1,3) by (auto simp: reloading_def)
  with split_old[of old rs b "(p, q)" a] obtain b' where "b = old @ b'" "rs = b' @ (p, q) # a"
    using rs(1) assms(2) by auto
  with rs that show thesis by blast
qed

lemma reloading_settle:
  assumes "reloading old d cs s" "promises_ok d cs (b @ pq # a)" "when_all pq u = (ds, u')" "page_between d cs (b @ pq # a) u'"
  shows "reloading old d cs (settle (old @ b) pq a u s)"
  using assms by (auto simp: reloading_def settle_def)

lemma shown_settle: "when_all pq u = (ds, u') \<Longrightarrow> us_shown (settle b pq a u s) = us_shown s @ ds"
  by (simp add: settle_def)

text \<open>Another click on \<open>Recharger\<close> disturbs nothing.\<close>

lemma click_between: "page_between d cs rs u \<Longrightarrow> page_between d cs (rs @ [(Sent, Sent)]) u"
  by (auto simp: page_between_def)

lemma click_reloading:
  assumes "reloading old d cs s"
  shows "reloading old d cs (click_reload s)"
proof -
  obtain rs where rs: "us_reloads s = old @ rs" "promises_ok d cs rs" "page_between d cs rs (us_page s)"
    using assms by (auto simp: reloading_def)
  have "promises_ok d cs (rs @ [(Sent, Sent)])" using rs(2) by (simp add: promises_ok_def)
  with rs click_between[OF rs(3)] assms show ?thesis by (auto simp: reloading_def click_reload_def)
qed

lemma first_click:
  assumes "idle s"
  shows "reloading (us_reloads s) d cs (click_reload s)"
proof -
  have "\<forall>x \<in> set (us_reloads s). (case x of (p, q) \<Rightarrow> promise_work p + promise_work q) = 0"
    "\<forall>x \<in> set (us_saves s). (case x of (t, p) \<Rightarrow> promise_work p) = 0"
    using assms by (simp_all add: idle_def outstanding_def sum_list_eq_0_iff)
  moreover have "promises_ok d cs [(Sent, Sent)]" "page_between d cs [(Sent, Sent)] (us_page s)"
    by (simp_all add: promises_ok_def page_between_def)
  ultimately show ?thesis by (auto simp: reloading_def click_reload_def)
qed

text \<open>At rest the page shows the checked description.\<close>

lemma rest_checked:
  assumes "reloading old d cs s" "idle s"
  shows "shows_checked d cs (us_page s)"
proof -
  obtain rs where rs: "us_reloads s = old @ rs" "promises_ok d cs rs" "page_between d cs rs (us_page s)"
    using assms(1) by (auto simp: reloading_def)
  then have "\<forall>(p, q) \<in> set rs. p = Resolved \<and> q = Resolved"
    using assms(2) by (fastforce simp: idle_def outstanding_def promises_ok_def)
  with rs(3) show ?thesis by (cases rs) (auto simp: page_between_def)
qed

context interface_server
begin

lemma answer_keeps:
  assumes step: "answer_step parse server s s'" and s: "reloading old d cs s" "serves (Some t) cs (us_core s)"
    and d: "parse t = Some d" "complete_data d" "loaded_components (Some cs)"
  shows "reloading old d cs s' \<and> serves (Some t) cs (us_core s') \<and> (in_order d cs \<longrightarrow> us_shown s' = us_shown s)"
  using step
proof cases
  case (data_served b q a r c)
  obtain b' where b: "b = old @ b'" "promises_ok d cs (b' @ (Sent, q) # a)" "page_between d cs (b' @ (Sent, q) # a) (us_page s)"
    using reloading_split[OF s(1) data_served(2)] by auto
  have r: "data_reply parse r = Inr d" "serves (Some t) cs c"
    using data[OF s(2)] data_served(3) d(1) by (auto simp: data_reply_def)
  show ?thesis using s(1) b r by (auto simp: data_served(1) reloading_def promises_ok_def page_between_def)
next
  case (components_served b p a r c)
  obtain b' where b: "b = old @ b'" "promises_ok d cs (b' @ (p, Sent) # a)" "page_between d cs (b' @ (p, Sent) # a) (us_page s)"
    using reloading_split[OF s(1) components_served(2)] by auto
  have r: "components_reply r = Inr cs" "serves (Some t) cs c"
    using components[OF s(2)] components_served(3) by (auto simp: components_reply_def)
  show ?thesis using s(1) b r by (auto simp: components_served(1) reloading_def promises_ok_def page_between_def)
next
  case (data_arrived b x q a p u)
  obtain b' where b: "b = old @ b'" "promises_ok d cs (b' @ (Answered x, q) # a)"
      "page_between d cs (b' @ (Answered x, q) # a) (us_page s)"
    using reloading_split[OF s(1) data_arrived(2)] by auto
  then have x: "x = Inr d" by (auto simp: promises_ok_def)
  obtain u1 where u1: "load_ui d (us_page s) = (Inr (), u1)" using load_complete[OF d(2)] by blast
  then have p: "p = Resolved" "u = u1" using data_arrived(3) by (simp_all add: x arrived_def)
  obtain ds u2 where w: "when_all (Resolved, q) u1 = (ds, u2)" by fastforce
  have between: "page_between d cs (b' @ (Resolved, q) # a) u2 \<and> (in_order d cs \<longrightarrow> ds = [])"
    using data_between[OF d(2,3) b(3)[unfolded x] u1 w] .
  have "promises_ok d cs (b' @ (Resolved, q) # a)" using b(2) by (auto simp: promises_ok_def)
  with between reloading_settle[OF s(1) _ w] shown_settle[OF w] s(2) show ?thesis by (simp add: data_arrived(1) b(1) p)
next
  case (components_arrived b p x a q u)
  obtain b' where b: "b = old @ b'" "promises_ok d cs (b' @ (p, Answered x) # a)"
      "page_between d cs (b' @ (p, Answered x) # a) (us_page s)"
    using reloading_split[OF s(1) components_arrived(2)] by auto
  then have x: "x = Inr cs" by (auto simp: promises_ok_def)
  have q: "q = Resolved" "u = applyComponents cs (us_page s)"
    using components_arrived(3) by (simp_all add: x arrived_def components_callback_def)
  obtain ds u2 where w: "when_all (p, Resolved) (applyComponents cs (us_page s)) = (ds, u2)" by fastforce
  have between: "page_between d cs (b' @ (p, Resolved) # a) u2 \<and> (in_order d cs \<longrightarrow> ds = [])"
    using components_between[OF d(2,3) b(3)[unfolded x] w] .
  have "promises_ok d cs (b' @ (p, Resolved) # a)" using b(2) by (auto simp: promises_ok_def)
  with between reloading_settle[OF s(1) _ w] shown_settle[OF w] s(2) show ?thesis by (simp add: components_arrived(1) b(1) q)
next
  case (save_served b t a r c)
  then show ?thesis using s(1) by (auto simp: reloading_def)
next
  case (save_answered b t x a p ds)
  then show ?thesis using s(1) by (auto simp: reloading_def)
qed

lemma reload_keeps:
  assumes run: "(reload_step parse server)\<^sup>*\<^sup>* s s'" and s: "reloading old d cs s" "serves (Some t) cs (us_core s)"
    and d: "parse t = Some d" "complete_data d" "loaded_components (Some cs)"
  shows "reloading old d cs s' \<and> serves (Some t) cs (us_core s') \<and> (in_order d cs \<longrightarrow> us_shown s' = us_shown s)"
  using run
proof (induction rule: rtranclp_induct)
  case (step y z)
  then show ?case
    using answer_keeps[of parse y z old d cs t] click_reloading[of old d cs y] d
    by (auto simp: reload_step_def click_reload_def)
qed (use s in simp)

text \<open>After a click, whatever the order of the answers and with further clicks.\<close>

lemma reload_settled:
  assumes "idle s" "serves (Some t) cs (us_core s)" "parse t = Some d" "complete_data d" "loaded_components (Some cs)"
    and "(reload_step parse server)\<^sup>*\<^sup>* (click_reload s) s'" "idle s'"
  shows "shows_checked d cs (us_page s') \<and> serves (Some t) cs (us_core s') \<and> (in_order d cs \<longrightarrow> us_shown s' = us_shown s)"
  using reload_keeps[OF assms(6) first_click[OF assms(1)] _ assms(3-5)] rest_checked[OF _ assms(7)] assms(2)
  by (auto simp: click_reload_def)

text \<open>A save, with the answers of nothing else: the alert comes and the server has the text.\<close>

lemma save_keeps:
  assumes step: "answer_step parse server s s'"
    and s: "\<forall>(p, q) \<in> set (us_reloads s). promise_work p + promise_work q = 0"
      "us_saves s = old @ [(text, p)]" "\<forall>(t, p) \<in> set old. promise_work p = 0"
    and p: "p = Sent \<and> us_shown s = shown \<and> serves t cs (us_core s) \<or>
      p = Answered (Inr ()) \<and> us_shown s = shown \<and> serves (Some text) cs (us_core s)"
  shows "us_page s' = us_page s \<and> us_reloads s' = us_reloads s \<and>
    (us_saves s' = old @ [(text, Answered (Inr ()))] \<and> us_shown s' = shown \<and> serves (Some text) cs (us_core s') \<or>
     us_saves s' = old @ [(text, Resolved)] \<and> us_shown s' = shown @ [SavedAlert] \<and> serves (Some text) cs (us_core s'))"
proof -
  have last: "b = old \<and> t' = text \<and> x = p \<and> a = []" if eq: "us_saves s = b @ (t', x) # a" and w: "promise_work x \<noteq> 0" for b t' x a
  proof -
    have "(t', x) \<notin> set old" using s(3) w by auto
    then obtain b' where "b = old @ b'" "[(text, p)] = b' @ (t', x) # a"
      using split_old[of old "[(text, p)]" b "(t', x)" a] s(2) eq by auto
    then show ?thesis by (cases b') auto
  qed
  show ?thesis
    using step
  proof cases
    case (save_served b t' a r c)
    then have "b = old" "t' = text" "p = Sent" "a = []" using last[of b t' Sent a] by auto
    then show ?thesis using save_served p posted[of t cs "us_core s" "text"] by (auto simp: save_reply_def)
  next
    case (save_answered b t' x a p' ds)
    then have "b = old" "t' = text" "p = Answered x" "a = []" using last[of b t' "Answered x" a] by auto
    then show ?thesis using save_answered p by (auto simp: save_arrived_def)
  qed (use s(1) in auto)
qed

lemma save_settled:
  assumes idle: "idle s" "idle s'" and core: "serves t cs (us_core s)"
    and run: "(answer_step parse server)\<^sup>*\<^sup>* (click_save stringify s) s'"
  shows "us_page s' = us_page s \<and> us_shown s' = us_shown s @ [SavedAlert] \<and>
    serves (Some (stringify (save_ui (us_page s)))) cs (us_core s')"
proof -
  let ?text = "stringify (save_ui (us_page s))"
  have none: "\<forall>(p, q) \<in> set (us_reloads s). promise_work p + promise_work q = 0" "\<forall>(t, p) \<in> set (us_saves s). promise_work p = 0"
    using idle(1) by (simp_all add: idle_def outstanding_def sum_list_eq_0_iff case_prod_beta)
  from run have "us_page s' = us_page s \<and> us_reloads s' = us_reloads s \<and>
     (\<exists>p. us_saves s' = us_saves s @ [(?text, p)] \<and>
       (p = Sent \<and> us_shown s' = us_shown s \<and> serves t cs (us_core s') \<or>
        p = Answered (Inr ()) \<and> us_shown s' = us_shown s \<and> serves (Some ?text) cs (us_core s') \<or>
        p = Resolved \<and> us_shown s' = us_shown s @ [SavedAlert] \<and> serves (Some ?text) cs (us_core s')))"
  proof (induction rule: rtranclp_induct)
    case (step y z)
    then obtain p where p: "us_saves y = us_saves s @ [(?text, p)]" "us_page y = us_page s" "us_reloads y = us_reloads s"
       "p = Sent \<and> us_shown y = us_shown s \<and> serves t cs (us_core y) \<or>
        p = Answered (Inr ()) \<and> us_shown y = us_shown s \<and> serves (Some ?text) cs (us_core y) \<or>
        p = Resolved \<and> us_shown y = us_shown s @ [SavedAlert] \<and> serves (Some ?text) cs (us_core y)"
      by blast
    have "p \<noteq> Resolved"
    proof
      assume "p = Resolved"
      with p(1,3) none have "outstanding y = 0" by (auto simp: outstanding_def sum_list_eq_0_iff case_prod_beta)
      with answer_step_decreases[OF step(2)] show False by simp
    qed
    with p(4) have "p = Sent \<and> us_shown y = us_shown s \<and> serves t cs (us_core y) \<or>
        p = Answered (Inr ()) \<and> us_shown y = us_shown s \<and> serves (Some ?text) cs (us_core y)" by blast
    from save_keeps[OF step(2) none(1)[folded p(3)] p(1) none(2) this] p(2,3) show ?case by auto
  qed (use core in \<open>simp add: click_save_def\<close>)
  with idle(2) show ?thesis by (auto simp: idle_def outstanding_def)
qed

end

end
