(* ===== verification/InterfaceItems.thy ===== *)
theory InterfaceItems
  imports InterfaceSession
begin

section \<open>The items of the interface page\<close>

text \<open>
  The tree of windows, commands and texts as the list of the page shows it, and what the events of a session do to it. The page is
  searched by identity, so its operations do what they mean as long as identities are not shared.
\<close>

subsection \<open>The tree\<close>

text \<open>A window with its commands and texts; the resources and the windows of a page.\<close>

type_synonym item_tree = "(nat \<times> nat list \<times> nat list) list"

definition window_items :: "d_window \<Rightarrow> nat \<times> nat list \<times> nat list" where
  "window_items w = (wd_ref w, map cm_ref (wd_commands w), map tx_ref (wd_texts w))"

definition page_tree :: "ui_page \<Rightarrow> item_tree" where
  "page_tree u = map window_items (up_windows u)"

fun has_item :: "item_tree \<Rightarrow> d_item \<Rightarrow> bool" where
  "has_item ws ItemApp \<longleftrightarrow> True"
| "has_item ws (ItemWindow w) \<longleftrightarrow> (\<exists>(w', cs, ts) \<in> set ws. w' = w)"
| "has_item ws (ItemCommand w c) \<longleftrightarrow> (\<exists>(w', cs, ts) \<in> set ws. w' = w \<and> c \<in> set cs)"
| "has_item ws (ItemText w t) \<longleftrightarrow> (\<exists>(w', cs, ts) \<in> set ws. w' = w \<and> t \<in> set ts)"

lemma item_on_page_tree: "item_on_page u it = has_item (page_tree u) it"
  by (cases it) (auto simp: page_tree_def window_items_def list_ex_iff)

text \<open>An item and what is in it.\<close>

fun inside :: "d_item \<Rightarrow> d_item \<Rightarrow> bool" where
  "inside ItemApp x \<longleftrightarrow> True"
| "inside (ItemWindow w) x \<longleftrightarrow> x = ItemWindow w \<or> (\<exists>c. x = ItemCommand w c) \<or> (\<exists>t. x = ItemText w t)"
| "inside it x \<longleftrightarrow> x = it"

text \<open>Identities below \<open>n\<close>, none shared.\<close>

definition window_ok :: "nat \<Rightarrow> nat \<times> nat list \<times> nat list \<Rightarrow> bool" where
  "window_ok n x = (case x of (w, cs, ts) \<Rightarrow>
     w < n \<and> distinct cs \<and> distinct ts \<and> (\<forall>c \<in> set cs. c < n) \<and> (\<forall>t \<in> set ts. t < n))"

definition tree_ok :: "nat \<Rightarrow> item_tree \<Rightarrow> bool" where
  "tree_ok n ws \<longleftrightarrow> distinct (map fst ws) \<and> (\<forall>x \<in> set ws. window_ok n x)"

definition items_ok :: "ui_page \<Rightarrow> bool" where
  "items_ok u \<longleftrightarrow> tree_ok (up_next u) (page_tree u) \<and> distinct (map rs_ref (up_resources u)) \<and>
     (\<forall>r \<in> set (up_resources u). rs_ref r < up_next u)"

text \<open>The property box shows an item of the page.\<close>

definition picked_on_page :: "ui_page \<Rightarrow> bool" where
  "picked_on_page u \<longleftrightarrow> (\<forall>it. up_selected u = Some it \<longrightarrow> item_on_page u it)"

definition page_ok :: "ui_page \<Rightarrow> bool" where
  "page_ok u \<longleftrightarrow> items_ok u \<and> picked_on_page u"

text \<open>What leaves the identities alone and at most clears the selection.\<close>

lemma page_ok_same:
  assumes "page_ok u" "page_tree u' = page_tree u" "map rs_ref (up_resources u') = map rs_ref (up_resources u)" "up_next u' = up_next u"
    and "up_selected u' = up_selected u \<or> up_selected u' = None"
  shows "page_ok u'"
proof -
  have "rs_ref ` set (up_resources u') = rs_ref ` set (up_resources u)" using arg_cong[OF assms(3), of set] by simp
  then have "(\<forall>r \<in> set (up_resources u'). rs_ref r < up_next u) = (\<forall>r \<in> set (up_resources u). rs_ref r < up_next u)"
    by (metis (no_types, lifting) image_iff)
  with assms show ?thesis by (auto simp: page_ok_def items_ok_def picked_on_page_def item_on_page_tree)
qed

lemma updateWindow_tree:
  assumes "\<And>x. window_items (f x) = window_items x"
  shows "page_tree (updateWindow w f u) = page_tree u"
  using assms by (simp add: page_tree_def updateWindow_def)

lemma page_ok_updateWindow:
  assumes "page_ok u" "\<And>x. window_items (f x) = window_items x"
  shows "page_ok (updateWindow w f u)"
  by (rule page_ok_same[OF assms(1) updateWindow_tree[OF assms(2)]]) (simp_all add: updateWindow_def)

lemma page_ok_updateCommand:
  assumes "page_ok u" "\<And>k. cm_ref (f k) = cm_ref k"
  shows "page_ok (updateCommand w c f u)"
  unfolding updateCommand_def by (rule page_ok_updateWindow[OF assms(1)]) (simp add: window_items_def assms(2))

lemma page_ok_updateText:
  assumes "page_ok u" "\<And>k. tx_ref (f k) = tx_ref k"
  shows "page_ok (updateText w c f u)"
  unfolding updateText_def by (rule page_ok_updateWindow[OF assms(1)]) (simp add: window_items_def assms(2))

subsection \<open>The check changes no identity\<close>

lemma untouched_refs:
  "untouched cm_ref (checkCommand u w)" "untouched tx_ref (checkText u w)"
  unfolding untouched_def checkCommand_def checkText_def
  by (simp_all add: andThen_def inField_def split: prod.split option.split)

lemma inField_mapped:
  assumes "untouched h f" "\<And>a r. g (put a r) = k (h a) r" "\<And>r. k (h (get r)) r = g r"
  shows "untouched g (inField get put f)"
  using assms unfolding untouched_def inField_def by (auto split: prod.split) (metis fst_conv snd_conv)

lemma untouched_window_items: "untouched window_items (checkWindow u)"
proof -
  have "untouched window_items
      (andThen (clearUnless (\<lambda>w. Inr (resourceExists (up_resources u) (wd_background w))) (\<lambda>w. w\<lparr>wd_background := VNull\<rparr>)
                  (BackgroundUndefined n))
         (andThen (inField wd_commands (\<lambda>cs w. w\<lparr>wd_commands := cs\<rparr>) (checkEach (checkCommand u n)))
            (inField wd_texts (\<lambda>ts w. w\<lparr>wd_texts := ts\<rparr>) (checkEach (checkText u n)))))" for n
    by (intro untouched_andThen untouched_clearUnless
        inField_mapped[where h = "map cm_ref" and k = "\<lambda>a w. (wd_ref w, a, map tx_ref (wd_texts w))"]
        inField_mapped[where h = "map tx_ref" and k = "\<lambda>a w. (wd_ref w, map cm_ref (wd_commands w), a)"]
        untouched_each untouched_refs) (simp_all add: window_items_def)
  then show ?thesis unfolding untouched_def checkWindow_def by blast
qed

lemma untouched_page: "untouched (\<lambda>v. (page_tree v, up_resources v, up_next v, up_selected v)) checkSchema"
proof -
  have "untouched (\<lambda>v. (page_tree v, up_resources v, up_next v, up_selected v))
      (andThen (clearUnless (\<lambda>v. Inr (windowExists (up_windows v) (up_default v))) (\<lambda>v. v\<lparr>up_default := VNull\<rparr>) DefaultWindowUndefined)
        (inField up_windows (\<lambda>ws v. v\<lparr>up_windows := ws\<rparr>) (checkEach (checkWindow u))))" for u
    by (intro untouched_andThen untouched_clearUnless
        inField_mapped[where h = "map window_items" and k = "\<lambda>a v. (a, up_resources v, up_next v, up_selected v)"]
        untouched_each untouched_window_items) (simp_all add: page_tree_def)
  then show ?thesis unfolding untouched_def checkSchema_def by blast
qed

lemma page_ok_check:
  assumes "page_ok u"
  shows "page_ok (fst (snd (checkSchema u)))"
proof -
  obtain r v es where c: "checkSchema u = (r, v, es)" by (rule prod_cases3)
  then have "page_tree v = page_tree u" "up_resources v = up_resources u" "up_next v = up_next u" "up_selected v = up_selected u"
    using untouchedD[OF untouched_page c] by simp_all
  with assms show ?thesis by (simp add: c page_ok_same[of u])
qed

lemma report_page: "snd (report f u) = fst (snd (f u))"
  by (simp add: report_def split: prod.split option.split)

subsection \<open>Loading gives fresh identities\<close>

lemma prepareWindow_items:
  "window_items (prepareWindow n w) =
     (n, [Suc n..<Suc n + length (wd_commands (prepareWindow n w))],
      [Suc n + length (wd_commands (prepareWindow n w))..<Suc n + length (wd_commands (prepareWindow n w)) + length (wd_texts (prepareWindow n w))])"
proof -
  have refs: "map cm_ref (map2 (\<lambda>r c. c\<lparr>cm_ref := r\<rparr>) ns cs) = ns" if "length ns = length cs" for ns cs
    using that by (induction ns cs rule: list_induct2) auto
  have refs2: "map tx_ref (map2 (\<lambda>r c. c\<lparr>tx_ref := r\<rparr>) ns cs) = ns" if "length ns = length cs" for ns cs
    using that by (induction ns cs rule: list_induct2) auto
  show ?thesis by (simp add: window_items_def prepareWindow_def Let_def refs refs2 del: upt_Suc map_map)
qed

lemma prepareWindows_fresh:
  "prepareWindows n ws = (k, ws') \<Longrightarrow> n \<le> k \<and> tree_ok k (map window_items ws') \<and> (\<forall>x \<in> set ws'. n \<le> wd_ref x)"
proof (induction ws arbitrary: n k ws')
  case (Cons w ws)
  let ?w = "prepareWindow n w"
  let ?m = "Suc n + length (wd_commands ?w) + length (wd_texts ?w)"
  obtain ws1 where ws1: "prepareWindows ?m ws = (k, ws1)" "ws' = ?w # ws1"
    using Cons.prems by (auto simp: Let_def split: prod.splits)
  note IH = Cons.IH[OF ws1(1)]
  have ref: "wd_ref ?w = n" by (simp add: prepareWindow_def Let_def)
  have "window_ok k (window_items ?w)" using IH by (simp add: prepareWindow_items window_ok_def del: upt_Suc)
  moreover have "n \<notin> set (map fst (map window_items ws1))" using IH by (fastforce simp: window_items_def)
  ultimately show ?case using IH ref by (auto simp: ws1(2) tree_ok_def window_items_def)
qed (simp add: tree_ok_def)

lemma load_error: "load_ui d u = (Inl e, u') \<Longrightarrow> u' = u"
  by (cases "ru_resources d"; cases "ru_windows d"; cases "prepareWindows (up_next u + length (the (ru_resources d))) (the (ru_windows d))")
    (simp_all add: load_ui_def Let_def)

lemma page_ok_load:
  assumes "page_ok u" "load_ui d u = (r, u')"
  shows "page_ok u'"
proof (cases r)
  case (Inl e)
  then show ?thesis using assms load_error by blast
next
  case (Inr y)
  obtain rs ws where d: "ru_resources d = Some rs" "ru_windows d = Some ws"
    using assms(2) Inr by (cases "ru_resources d"; cases "ru_windows d") (simp_all add: load_ui_def)
  obtain k ws' where ws: "prepareWindows (up_next u + length rs) ws = (k, ws')" by fastforce
  have refs: "map rs_ref (map2 (\<lambda>r (i, d). \<lparr>rs_ref = r, rs_id = i, rs_data = d\<rparr>) ns rs) = ns" if "length ns = length rs" for ns
    using that by (induction ns rs rule: list_induct2) auto
  have rs: "map rs_ref (up_resources u') = [up_next u..<up_next u + length rs]"
    using assms(2) d ws refs by (auto simp: load_ui_def Let_def simp del: map_map)
  have u': "up_windows u' = ws'" "up_next u' = k" "up_selected u' = None"
    using assms(2) d ws by (auto simp: load_ui_def Let_def)
  have "rs_ref ` set (up_resources u') = {up_next u..<up_next u + length rs}" using arg_cong[OF rs, of set] by simp
  then have "rs_ref r \<in> {up_next u..<up_next u + length rs}" if "r \<in> set (up_resources u')" for r using that by blast
  then have "\<forall>r \<in> set (up_resources u'). rs_ref r < k" using prepareWindows_fresh[OF ws] by fastforce
  moreover have "distinct (map rs_ref (up_resources u'))" by (simp add: rs)
  ultimately show ?thesis
    using u' prepareWindows_fresh[OF ws] by (simp add: page_ok_def items_ok_def picked_on_page_def page_tree_def)
qed

subsection \<open>The events of the user\<close>

lemma tree_ok_map:
  assumes "tree_ok n ws" "\<And>x. fst (f x) = fst x" "\<And>x. window_ok n x \<Longrightarrow> window_ok m (f x)"
  shows "tree_ok m (map f ws)"
  using assms by (auto simp: tree_ok_def comp_def)

lemma window_ok_mono: "window_ok n x \<Longrightarrow> n \<le> m \<Longrightarrow> window_ok m x"
  by (auto simp: window_ok_def split: prod.splits)

lemma tree_ok_mono: "tree_ok n ws \<Longrightarrow> n \<le> m \<Longrightarrow> tree_ok m ws"
  using window_ok_mono by (auto simp: tree_ok_def)

text \<open>The tree after a creation and after a removal.\<close>

lemma create_trees:
  "page_tree (createWindow u) = page_tree u @ [(up_next u, [], [])]"
  "page_tree (createCommand w u) = map (\<lambda>(r, cs, ts). (r, if r = w then cs @ [up_next u] else cs, ts)) (page_tree u)"
  "page_tree (createText w u) = map (\<lambda>(r, cs, ts). (r, cs, if r = w then ts @ [up_next u] else ts)) (page_tree u)"
  by (simp_all add: page_tree_def createWindow_def createCommand_def createText_def updateWindow_def window_items_def prepareWindow_def Let_def)

lemma map_removeByRef: "map ref (removeByRef ref r xs) = remove1 r (map ref xs)"
  by (induction xs) auto

lemma remove_trees:
  "page_tree (removeItem (ItemCommand w c) u) = map (\<lambda>(r, cs, ts). (r, if r = w then remove1 c cs else cs, ts)) (page_tree u)"
  "page_tree (removeItem (ItemText w t) u) = map (\<lambda>(r, cs, ts). (r, cs, if r = w then remove1 t ts else ts)) (page_tree u)"
  "items_ok u \<Longrightarrow> page_tree (removeItem (ItemWindow w) u) = filter (\<lambda>x. fst x \<noteq> w) (page_tree u)"
proof -
  assume "items_ok u"
  then have "distinct (map wd_ref (up_windows u))"
    by (simp add: items_ok_def tree_ok_def page_tree_def window_items_def comp_def)
  then show "page_tree (removeItem (ItemWindow w) u) = filter (\<lambda>x. fst x \<noteq> w) (page_tree u)"
    by (simp add: page_tree_def removeByRef_filter filter_map comp_def window_items_def)
qed (simp_all add: page_tree_def updateWindow_def window_items_def map_removeByRef)

lemma removed_ok:
  assumes "items_ok u" "it \<noteq> ItemApp"
  shows "items_ok (removeItem it u)"
proof -
  have same: "up_next (removeItem it u) = up_next u" "up_resources (removeItem it u) = up_resources u"
    by (cases it; simp add: updateWindow_def)+
  have "tree_ok (up_next u) (page_tree (removeItem it u))"
  proof (cases it)
    case (ItemWindow w)
    then show ?thesis
      using assms(1) remove_trees(3)[OF assms(1)] by (simp add: items_ok_def tree_ok_def distinct_map_filter)
  next
    case (ItemCommand w c)
    then show ?thesis
      using assms(1) unfolding ItemCommand remove_trees
      by (intro tree_ok_map[of "up_next u"]) (auto simp: items_ok_def window_ok_def dest: notin_set_remove1 split: prod.splits)
  next
    case (ItemText w t)
    then show ?thesis
      using assms(1) unfolding ItemText remove_trees
      by (intro tree_ok_map[of "up_next u"]) (auto simp: items_ok_def window_ok_def dest: notin_set_remove1 split: prod.splits)
  qed (use assms(2) in simp)
  with same assms(1) show ?thesis by (simp add: items_ok_def)
qed

text \<open>A removal takes the item and what is in it, and nothing else.\<close>

lemma has_item_Cons:
  "has_item ((r, cs, ts) # ws) x \<longleftrightarrow> has_item ws x \<or> x = ItemWindow r \<or> (\<exists>c \<in> set cs. x = ItemCommand r c) \<or> (\<exists>t \<in> set ts. x = ItemText r t)"
  by (cases x) auto

lemma has_item_Nil: "has_item [] x \<longleftrightarrow> x = ItemApp"
  by (cases x) auto

lemma has_item_without_command:
  "\<forall>x \<in> set ws. window_ok n x \<Longrightarrow>
     has_item (map (\<lambda>(r, cs, ts). (r, if r = w then remove1 c cs else cs, ts)) ws) x \<longleftrightarrow> has_item ws x \<and> x \<noteq> ItemCommand w c"
proof (induction ws)
  case (Cons y ws)
  obtain r cs ts where y: "y = (r, cs, ts)" by (rule prod_cases3)
  then have "distinct cs" using Cons.prems by (simp add: window_ok_def)
  with Cons y show ?case by (auto simp: has_item_Cons)
qed (auto simp: has_item_Nil)

lemma has_item_without_text:
  "\<forall>x \<in> set ws. window_ok n x \<Longrightarrow>
     has_item (map (\<lambda>(r, cs, ts). (r, cs, if r = w then remove1 t ts else ts)) ws) x \<longleftrightarrow> has_item ws x \<and> x \<noteq> ItemText w t"
proof (induction ws)
  case (Cons y ws)
  obtain r cs ts where y: "y = (r, cs, ts)" by (rule prod_cases3)
  then have "distinct ts" using Cons.prems by (simp add: window_ok_def)
  with Cons y show ?case by (auto simp: has_item_Cons)
qed (auto simp: has_item_Nil)

lemma has_item_without_window:
  "has_item (filter (\<lambda>x. fst x \<noteq> w) ws) x \<longleftrightarrow> has_item ws x \<and> \<not> inside (ItemWindow w) x"
  by (induction ws) (auto simp: has_item_Cons has_item_Nil)

lemma removed_items:
  assumes "items_ok u" "it \<noteq> ItemApp"
  shows "item_on_page (removeItem it u) x \<longleftrightarrow> item_on_page u x \<and> \<not> inside it x"
proof -
  have ok: "\<forall>x \<in> set (page_tree u). window_ok (up_next u) x" using assms(1) by (simp add: items_ok_def tree_ok_def)
  show ?thesis
    using assms(2) has_item_without_command[OF ok] has_item_without_text[OF ok] has_item_without_window
      remove_trees(1,2) remove_trees(3)[OF assms(1)]
    by (cases it) (simp_all only: item_on_page_tree inside.simps simp_thms)
qed

lemma page_ok_delete:
  assumes "page_ok u"
  shows "page_ok (fst (snd (deleteItem u)))"
proof (cases "up_selected u = None \<or> up_selected u = Some ItemApp")
  case False
  then obtain it where it: "up_selected u = Some it" "it \<noteq> ItemApp" by auto
  have "items_ok (removeItem it u)" using removed_ok[of u it] assms it by (simp add: page_ok_def)
  then have "page_ok (selectItem None (removeItem it u))"
    by (simp add: page_ok_def items_ok_def picked_on_page_def page_tree_def)
  moreover have "deleteItem u = checkSchema (selectItem None (removeItem it u))"
    using it by (cases it) (simp_all add: deleteItem_def)
  ultimately show ?thesis using page_ok_check by simp
qed (use assms in \<open>auto simp: deleteItem_def\<close>)

lemma page_ok_destroy:
  assumes "page_ok u"
  shows "page_ok (fst (snd (destroyResource r u)))"
proof -
  let ?u = "u\<lparr>up_resources := removeByRef rs_ref (rs_ref r) (up_resources u)\<rparr>"
  have "map rs_ref (up_resources ?u) = remove1 (rs_ref r) (map rs_ref (up_resources u))" by (simp add: map_removeByRef)
  then have "page_ok ?u"
    using assms set_removeByRef[of rs_ref "rs_ref r" "up_resources u"]
    by (auto simp: page_ok_def items_ok_def picked_on_page_def item_on_page_tree page_tree_def)
  then show ?thesis using page_ok_check assms by (simp add: destroyResource_def)
qed

lemma page_ok_newResource:
  assumes "page_ok u"
  shows "page_ok (snd (newResource u))"
proof -
  have "tree_ok (Suc (up_next u)) (page_tree u)" using assms tree_ok_mono[of "up_next u" _ "Suc (up_next u)"] by (simp add: page_ok_def items_ok_def)
  then show ?thesis
    using assms
    by (auto simp: newResource_def page_ok_def items_ok_def picked_on_page_def item_on_page_tree page_tree_def less_Suc_eq)
qed

lemma item_on_page_mono:
  assumes "page_tree u' = map f (page_tree u)"
    "\<And>r cs ts. fst (f (r, cs, ts)) = r \<and> set cs \<subseteq> set (fst (snd (f (r, cs, ts)))) \<and> set ts \<subseteq> set (snd (snd (f (r, cs, ts))))"
    "item_on_page u x"
  shows "item_on_page u' x"
proof -
  have "has_item ws x \<Longrightarrow> has_item (map f ws) x" for ws
  proof (induction ws)
    case (Cons y ws)
    obtain r cs ts cs' ts' where y: "y = (r, cs, ts)" "f y = (r, cs', ts')" "set cs \<subseteq> set cs'" "set ts \<subseteq> set ts'"
      using assms(2) by (cases y) (metis prod.collapse)
    with Cons show ?case by (auto simp: has_item_Cons)
  qed simp
  with assms(1,3) show ?thesis by (simp add: item_on_page_tree)
qed

lemma page_ok_created:
  assumes "page_ok u" "page_tree u' = map f (page_tree u)" "up_next u' = Suc (up_next u)" "up_resources u' = up_resources u" "up_selected u' = up_selected u"
    and "\<And>r cs ts. fst (f (r, cs, ts)) = r \<and> set cs \<subseteq> set (fst (snd (f (r, cs, ts)))) \<and> set ts \<subseteq> set (snd (snd (f (r, cs, ts))))"
    and "\<And>x. window_ok (up_next u) x \<Longrightarrow> window_ok (Suc (up_next u)) (f x)"
  shows "page_ok u'"
proof -
  have "fst (f x) = fst x" for x using assms(6) by (cases x) simp
  then have "tree_ok (up_next u') (page_tree u')"
    unfolding assms(2,3) using assms(1,7) by (intro tree_ok_map[of "up_next u"]) (simp_all add: page_ok_def items_ok_def)
  then show ?thesis
    using assms(1,3-5) item_on_page_mono[OF assms(2,6)] by (auto simp: page_ok_def items_ok_def picked_on_page_def less_Suc_eq)
qed

lemma page_ok_createCommand: "page_ok u \<Longrightarrow> page_ok (createCommand w u)"
  by (rule page_ok_created[OF _ create_trees(2)])
    (auto simp: createCommand_def updateWindow_def window_ok_def split: prod.splits)

lemma page_ok_createText: "page_ok u \<Longrightarrow> page_ok (createText w u)"
  by (rule page_ok_created[OF _ create_trees(3)])
    (auto simp: createText_def updateWindow_def window_ok_def split: prod.splits)

lemma page_ok_createWindow:
  assumes "page_ok u"
  shows "page_ok (createWindow u)"
proof -
  have "tree_ok (Suc (up_next u)) (page_tree u @ [(up_next u, [], [])])"
    using assms tree_ok_mono[of "up_next u" "page_tree u" "Suc (up_next u)"]
    by (auto simp: page_ok_def items_ok_def tree_ok_def window_ok_def)
  moreover have "has_item (ws @ [y]) x" if "has_item ws x" for ws y x
    using that by (cases x) auto
  moreover have "up_next (createWindow u) = Suc (up_next u)" "up_resources (createWindow u) = up_resources u"
    "up_selected (createWindow u) = up_selected u" by (simp_all add: createWindow_def)
  ultimately show ?thesis
    using assms by (auto simp: page_ok_def items_ok_def picked_on_page_def item_on_page_tree create_trees(1) less_Suc_eq)
qed

lemma page_ok_create: "page_ok u \<Longrightarrow> page_ok (createItem isText u)"
  by (auto simp: createItem_def page_ok_createCommand page_ok_createText page_ok_createWindow split: option.split d_item.split)

lemma text_ref_kept: "tx_ref (designTextContext k evs ok) = tx_ref k"
  by (simp add: designTextContext_def Let_def)

lemma page_ok_typeId: "page_ok u \<Longrightarrow> page_ok (typeId i it u)"
  by (cases it)
    (auto intro!: page_ok_updateWindow page_ok_updateCommand page_ok_updateText simp: window_items_def)

lemma page_ok_dialog: "page_ok u \<Longrightarrow> page_ok (open_dialog ev it u)"
  by (cases "(ev, it, u)" rule: open_dialog.cases)
    (auto intro!: page_ok_updateCommand page_ok_updateText simp: text_ref_kept split: sum.split)

lemma page_ok_background: "page_ok u \<Longrightarrow> page_ok (snd (on_event (TypeBackground v) u))"
  by (auto intro!: page_ok_updateWindow simp: window_items_def split: option.split d_item.split)

lemma page_ok_fields:
  assumes "page_ok u"
  shows "page_ok (u\<lparr>up_default := v\<rparr>)" "page_ok (u\<lparr>up_newId := v\<rparr>)" "page_ok (u\<lparr>up_newData := v\<rparr>)" "page_ok (applyComponents cs u)"
  by (rule page_ok_same[OF assms]; simp add: page_tree_def applyComponents_def)+

lemma page_ok_pick: "page_ok u \<Longrightarrow> page_ok (itemlist_click it u)"
  by (cases it) (simp_all add: itemlist_click_def page_ok_def items_ok_def picked_on_page_def item_on_page_tree page_tree_def)

lemma page_ok_event: "page_ok u \<Longrightarrow> page_ok (snd (on_event ev u))"
proof (cases ev)
  case (TypeBackground v)
  then show "page_ok u \<Longrightarrow> page_ok (snd (on_event ev u))" using page_ok_background by simp
next
  case AddResource
  then show "page_ok u \<Longrightarrow> page_ok (snd (on_event ev u))" using page_ok_newResource[of u] by (auto split: prod.split option.split)
qed (simp_all add: page_ok_fields page_ok_pick page_ok_typeId page_ok_dialog page_ok_create report_page page_ok_delete page_ok_destroy
    split: option.split)

subsection \<open>The session\<close>

lemma page_ok_arrived:
  assumes "page_ok u"
  shows "page_ok (snd (arrived load_ui a u))" "page_ok (snd (arrived components_callback b u))"
  using page_ok_load[OF assms] page_ok_fields(4)[OF assms] assms
  by (auto simp: arrived_def components_callback_def split: sum.split prod.split)

lemma page_ok_settle: "page_ok u \<Longrightarrow> page_ok (us_page (settle b pq a u s))"
proof -
  assume "page_ok u"
  then have "page_ok (snd (when_all pq u))" using page_ok_check by (simp add: when_all_def report_page)
  then show ?thesis by (cases "when_all pq u") (simp add: settle_def)
qed

lemma page_ok_answer: "answer_step parse server s s' \<Longrightarrow> page_ok (us_page s) \<Longrightarrow> page_ok (us_page s')"
proof (induction rule: answer_step.induct)
  case (data_arrived s before a q after p u)
  then show ?case using page_ok_arrived(1)[of "us_page s" a] page_ok_settle by simp
next
  case (components_arrived s before p a after q u)
  then show ?case using page_ok_arrived(2)[of "us_page s" a] page_ok_settle by simp
qed simp_all

lemma page_ok_session: "(session_step parse stringify server)\<^sup>*\<^sup>* s s' \<Longrightarrow> page_ok (us_page s) \<Longrightarrow> page_ok (us_page s')"
proof (induction rule: rtranclp_induct)
  case (step y z)
  from step(2) show ?case
  proof cases
    case (edited ev ds u)
    then show ?thesis using page_ok_event[of "us_page y" ev] step by simp
  qed (use step page_ok_answer in \<open>auto simp: click_reload_def click_save_def\<close>)
qed

lemma page_tree_unselected: "page_tree (v\<lparr>up_selected := x\<rparr>) = page_tree v"
  by (simp add: page_tree_def)

lemma check_tree: "page_tree (fst (snd (checkSchema u))) = page_tree u"
  using untouched_page unfolding untouched_def by simp

text \<open>
  C36: The property box works on an item of the page. In every session, from the opening of the page, whatever the user does, whatever the
  server answers and in whatever order: the selected item is on the page, and deleting it removes it with the commands and texts in it, and no other item.
\<close>

theorem session_items:
  assumes "(session_step parse stringify server)\<^sup>*\<^sup>* (open_interface c) s" "up_selected (us_page s) = Some it"
  shows "item_on_page (us_page s) it \<and>
    (it \<noteq> ItemApp \<longrightarrow> (\<forall>x. item_on_page (snd (on_event DeletePicked (us_page s))) x \<longleftrightarrow> item_on_page (us_page s) x \<and> \<not> inside it x))"
proof -
  have "page_ok (us_page (open_interface c))"
    by (simp add: open_interface_def click_reload_def page_ok_def items_ok_def tree_ok_def picked_on_page_def page_tree_def)
  from page_ok_session[OF assms(1) this] have ok: "items_ok (us_page s)" "item_on_page (us_page s) it"
    using assms(2) by (auto simp: page_ok_def picked_on_page_def)
  have "page_tree (snd (on_event DeletePicked (us_page s))) = page_tree (removeItem it (us_page s))" if "it \<noteq> ItemApp"
    using that assms(2) by (cases it) (simp_all add: report_page deleteItem_def check_tree page_tree_unselected)
  then show ?thesis using ok removed_items[OF ok(1)] by (simp add: item_on_page_tree)
qed

text \<open>A window is created, and a command in it; the window is deleted.\<close>

definition user_event :: "interface_event \<Rightarrow> ui_session \<Rightarrow> ui_session" where
  "user_event ev s = (case on_event ev (us_page s) of (ds, u) \<Rightarrow> s\<lparr>us_page := u, us_shown := us_shown s @ ds\<rparr>)"

lemma user_events: "(session_step parse stringify server)\<^sup>*\<^sup>* s (fold user_event evs s)"
proof (induction evs arbitrary: s)
  case (Cons ev evs)
  have "session_step parse stringify server s (user_event ev s)"
    by (cases "on_event ev (us_page s)") (simp add: user_event_def session_step.edited)
  with Cons.IH[of "user_event ev s"] show ?case by simp
qed simp

theorem session_items_witness:
  "\<exists>s. (session_step (\<lambda>t. None) (\<lambda>d. '''') (\<lambda>q c. (Inl TypeErr, c)))\<^sup>*\<^sup>* (open_interface sample_core) s \<and>
    up_selected (us_page s) = Some (ItemWindow 0) \<and> item_on_page (us_page s) (ItemCommand 0 1) \<and>
    \<not> item_on_page (snd (on_event DeletePicked (us_page s))) (ItemCommand 0 1)"
proof -
  let ?s = "fold user_event [Pick ItemApp, CreateNew False, Pick (ItemWindow 0), CreateNew False] (open_interface sample_core)"
  have run: "(session_step (\<lambda>t. None) (\<lambda>d. '''') (\<lambda>q c. (Inl TypeErr, c)))\<^sup>*\<^sup>* (open_interface sample_core) ?s"
    by (rule user_events)
  have "up_selected (us_page ?s) = Some (ItemWindow 0)" "item_on_page (us_page ?s) (ItemCommand 0 1)"
    by (simp_all add: user_event_def itemlist_click_def open_interface_def click_reload_def createItem_def createWindow_def createCommand_def updateWindow_def
        prepareWindow_def Let_def)
  then obtain s where s: "(session_step (\<lambda>t. None) (\<lambda>d. '''') (\<lambda>q c. (Inl TypeErr, c)))\<^sup>*\<^sup>* (open_interface sample_core) s"
      "up_selected (us_page s) = Some (ItemWindow 0)" "item_on_page (us_page s) (ItemCommand 0 1)"
    using run by blast
  have "\<not> item_on_page (snd (on_event DeletePicked (us_page s))) (ItemCommand 0 1)"
    using session_items[OF s(1,2)] inside.simps(2)[of 0 "ItemCommand 0 1"] by blast
  with s show ?thesis by blast
qed

end
