(* ===== verification/Placement.thy ===== *)
theory Placement
  imports SchemaSteps
begin

section \<open>Where components are drawn\<close>

text \<open>
  The drop handler of \<open>schemaContainer\<close> (\<open>component/designer.js\<close>) and the positions that \<open>component.html\<close> gives to the elements of
  plugins and hardware in the container, which \<open>setZoom\<close> scales from its upper left corner. The zoom is in hundredths, so a style is in hundredths of a pixel and a
  place on the screen in ten thousandths.
\<close>

definition applyZoom :: "editor \<Rightarrow> int \<Rightarrow> int" where
  "applyZoom d val = val * ed_zoom d"

definition plugin_style :: "editor \<Rightarrow> plugin_config \<Rightarrow> (int \<times> int) option" where
  "plugin_style d c = map_option (\<lambda>(x, y). (applyZoom d x, applyZoom d y)) (pc_designer c)"

definition hardware_style :: "editor \<Rightarrow> hw_config \<Rightarrow> (int \<times> int) option" where
  "hardware_style d c = map_option (\<lambda>(x, y). (100 * x, 100 * y)) (hc_designer c)"

text \<open>The transformation of the container, for a place relative to it.\<close>

definition setZoom :: "int \<Rightarrow> int \<times> int \<Rightarrow> int \<times> int" where
  "setZoom zoom pos = (case pos of (x, y) \<Rightarrow> (x * zoom, y * zoom))"

text \<open>A drop with the mouse at \<open>page\<close> on the container that starts at \<open>offset\<close>.\<close>

definition on_drop :: "string set \<Rightarrow> string set \<Rightarrow> string \<Rightarrow> int \<times> int \<Rightarrow> int \<times> int \<Rightarrow> unit edop" where
  "on_drop drag_classes drop_classes typeId page offset d =
     (if ''toolbox-item'' \<in> drag_classes \<and> ''drop-container'' \<in> drop_classes
      then createPlugin typeId (fst page - fst offset) (snd page - snd offset) d
      else (Inr (), d))"

lemma drop_is_edit: "edit_step\<^sup>*\<^sup>* d (snd (on_drop drag_classes drop_classes typeId page offset d))"
  by (auto simp: on_drop_def intro: edit_step.create)

text \<open>
  A plugin that is dropped from the toolbox is drawn under the mouse exactly when the zoom is 100 percent or the mouse is on the corner of the container: its position is
  scaled by its style and again by the container. A hardware component at the same position is scaled once.
\<close>

lemma dropped_plugin_place:
  assumes "findType d typeId = Some t" "0 < ed_zoom d"
  shows "\<exists>d' p. on_drop {''toolbox-item''} {''drop-container''} typeId (x0 + x, y0 + y) (x0, y0) d = (Inr (), d') \<and>
    ed_plugins d' = ed_plugins d @ [p] \<and>
    map_option (setZoom (ed_zoom d')) (plugin_style d' (ep_config p)) = Some (x * ed_zoom d * ed_zoom d, y * ed_zoom d * ed_zoom d) \<and>
    (x * ed_zoom d * ed_zoom d = x * 10000 \<longleftrightarrow> x = 0 \<or> ed_zoom d = 100)"
proof -
  have "ed_zoom d * ed_zoom d = 10000 \<longleftrightarrow> ed_zoom d = 100"
  proof
    assume "ed_zoom d * ed_zoom d = 10000"
    then have "(ed_zoom d - 100) * (ed_zoom d + 100) = 0" by (simp add: algebra_simps)
    then show "ed_zoom d = 100" using assms(2) by auto
  qed simp
  then have "x * ed_zoom d * ed_zoom d = x * 10000 \<longleftrightarrow> x = 0 \<or> ed_zoom d = 100" by (simp add: mult.assoc)
  then show ?thesis
    using assms(1)
    by (simp add: on_drop_def createPlugin_def idGenerator_def new_object_def op_defs Let_def plugin_style_def applyZoom_def setZoom_def)
qed

lemma hardware_place:
  "hc_designer c = Some (x, y) \<Longrightarrow> map_option (setZoom (ed_zoom d)) (hardware_style d c) = Some (100 * x * ed_zoom d, 100 * y * ed_zoom d)"
  by (simp add: hardware_style_def setZoom_def)

end
