(* ===== verification/Spec2Isabelle.thy ===== *)
theory Spec2Isabelle
  imports JsPrelude NetTypes Dispatch DispatchLaws Publish CoreState Links Hardware PluginHost DataStore Manager PublishLaws RegistryLaws ManagerLaws CoreInvariant CoreSteps PluginLaws Startup Sample CoreProps PluginProps DispatchProps NetProps UiStructure UiNet UiHelper UiProps Merge MergeProps Schema SchemaLaws SchemaSteps SchemaProps UiPage UiPageLaws UiPageProps LegacyWeb LegacyProps RestSpec MergeApply DesignerServer UiServer PageTools AnnounceLaws AnnounceCore AnnounceProps Replica ReplicaProps Requests UiShell Canvas DesignSession InterfaceSession InterfaceLaws InterfaceProps InterfaceItems Placement
begin

section \<open>MyLife Home: a model of the core, the interface and the designer\<close>

text \<open>
  \<^bold>\<open>The program.\<close> MyLife Home automates a house. A \<^emph>\<open>core\<close> process (\<open>nodejs/mylife-home-core\<close>) runs components made by
  plugins, follows hardware components that run in other processes, and joins them by links: a change of an attribute executes
  an action. Components are published on IRC: the nick of a client carries the id and the attribute values, actions arrive as
  messages. The \<^emph>\<open>designer\<close> (\<open>nodejs/mylife-home-core-designer\<close>) edits the configuration of a core and the windows of the
  interface in the browser and sends them through the core's REST interface. The \<^emph>\<open>interface\<close> (\<open>nodejs/mylife-home-ui\<close>) shows
  the windows in a browser: its gateway forwards IRC events to the page and actions back. \<open>old_java_20141207\<close> and \<open>old_20131116\<close>
  hold earlier versions, of which the browser scripts are modelled.

  \<^bold>\<open>Effects.\<close> An operation is a function from a state to a result and a state (\<open>op\<close> in \<open>JsPrelude\<close>): an exception is a
  left value of the result and keeps the state reached so far, as in JavaScript. Objects used as dictionaries are association lists in the
  order of their keys (\<open>jget\<close>, \<open>jset\<close>, \<open>jdel\<close>); objects with identity live in a heap of references. IRC calls are recorded in a
  log and IRC events are operations. Callbacks of requests run to their end; the interleavings that the code allows
  between events are the sequences of inputs, steps or events over which the properties quantify.

  \<^bold>\<open>Shared.\<close> \<open>JsPrelude\<close>: JavaScript values, \<open>parseInt\<close>, \<open>split\<close>, dictionaries (locale \<open>js_dictionary\<close>), operations, relations kept by
  operations (locale \<open>state_order\<close>), array helpers of \<open>tools.js\<close> and \<open>utils.js\<close>.

  \<^bold>\<open>Core.\<close>
  \<^item> \<open>NetTypes\<close>, \<open>Dispatch\<close>, \<open>Publish\<close>: \<open>netobject.js\<close> (classes and argument checks; attributes, actions and the synchronous
    cascade of listeners, among them the plugin handlers and the links; publication, the watcher and its events).
  \<^item> \<open>CoreState\<close>, \<open>Links\<close>, \<open>Hardware\<close>, \<open>PluginHost\<close>, \<open>DataStore\<close>, \<open>Manager\<close>: \<open>links.js\<close>, \<open>hardware.js\<close>, \<open>plugins.js\<close> with
    \<open>plugins/*.js\<close>, \<open>data.js\<close>, \<open>manager.js\<close> with the routes of \<open>app.js\<close>. \<open>core_step\<close> is any input of a running process.
  \<^item> \<open>DispatchLaws\<close>, \<open>PublishLaws\<close>: what a cascade keeps, once for all listeners (locales \<open>dispatch_order\<close>, \<open>world_order\<close>,
    \<open>publish_order\<close>, interpreted for ids, shapes, types, the log and the repository).
  \<^item> \<open>RegistryLaws\<close>, \<open>ManagerLaws\<close>: the contract of a registry and of its section of the data file (locales \<open>registry\<close>,
    \<open>stored_registry\<close>), interpreted for plugins, hardware and links.
  \<^item> \<open>CoreInvariant\<close>, \<open>CoreSteps\<close>: the invariant of a running process, kept by every input. \<open>Startup\<close>: the loops of
    \<open>initialize\<close> (locale \<open>loader\<close>). \<open>RestSpec\<close>: the abstract specification of the configuring requests and its refinement.
  \<^item> \<open>PluginLaws\<close>, \<open>Sample\<close>: published plugin instances, the installation on which properties are instantiated.
  \<^item> \<open>CoreProps\<close>, \<open>PluginProps\<close>, \<open>DispatchProps\<close>, \<open>NetProps\<close>: the properties, including the wire format between processes.

  \<^bold>\<open>Between processes.\<close>
  \<^item> \<open>AnnounceLaws\<close>, \<open>AnnounceCore\<close>, \<open>AnnounceProps\<close>: what IRC knows of a running process. \<open>AnnounceLaws\<close> follows the nicks through a
    cascade (\<open>settles\<close>: when the operation returns, every client has told its object's values; \<open>silent\<close>: nothing to tell), \<open>AnnounceCore\<close> through
    publication, the manager, the requests and the other inputs (invariant \<open>announcing\<close>; \<open>calm_run\<close>: no listener throws).
  \<^item> \<open>Replica\<close>, \<open>ReplicaProps\<close>: copies of components of other processes. Nothing but the watcher sets the values of a copy (\<open>spare\<close>), and the
    watcher's events do what an abstract observer of the channel does (\<open>observe\<close>, \<open>replica\<close>). \<open>ReplicaProps\<close> joins the ends:
    component, copy and browser agree once the last nick is delivered.

  \<^bold>\<open>Interface.\<close> \<open>UiStructure\<close> (\<open>structure.js\<close>, \<open>utils.js\<close>), \<open>UiNet\<close> (\<open>gateway.js\<close>, \<open>public/app/net.js\<close>), \<open>UiHelper\<close>
  (\<open>uihelper.js\<close>, \<open>controllers.js\<close>, the dialogs and clicks of \<open>tools.js\<close>); \<open>UiProps\<close> joins them with the core: what the core announces is
  what the page shows, and what is pressed on the page is executed by its component. \<open>UiServer\<close>: the requests of \<open>structure.js\<close> and
  the route of \<open>app.js\<close> over the model of the core, from the stored windows to the value on the page. \<open>UiShell\<close>: the routes of
  \<open>public/app/app.js\<close>, the popups and the presses, as a shell whose windows all exist.

  \<^bold>\<open>Designer.\<close>
  \<^item> \<open>Merge\<close>, \<open>MergeProps\<close>, \<open>MergeApply\<close>, \<open>DesignerServer\<close>: \<open>componentManager.js\<close>, \<open>uiManager.js\<close> and the routes of \<open>app.js\<close>, over a
    transport to the model of the core. \<open>MergeApply\<close> runs the requests of a merge against the specification of \<open>RestSpec\<close>, table by table (locale
    \<open>table\<close>).
  \<^item> \<open>Requests\<close>: the same requests as HTTP requests, from the escaped address to the route of the core (\<open>core_routes\<close>); icon files
    (\<open>pluginTools.js\<close>) and the life of the core process (\<open>main.js\<close>).
  \<^item> \<open>Schema\<close>, \<open>SchemaLaws\<close>, \<open>SchemaSteps\<close>, \<open>SchemaProps\<close>: the component page (\<open>component/*.js\<close>, \<open>idGenerator.js\<close>) with the
    step relation \<open>edit_step\<close> of what a user can do and its invariant; a relation that moves along every operation of the page is
    an instance of the locale \<open>page_order\<close>.
  \<^item> \<open>Canvas\<close>: the connections drawn for the links (\<open>plumbHelper.js\<close>, the directive \<open>schemaLink\<close>), with their timeouts, and the
    step relation \<open>canvas_step\<close>. \<open>Placement\<close>: the drop of a plugin and where components are drawn under a zoom.
  \<^item> \<open>DesignSession\<close>: loading, importing and saving over the designer's server and the core, from what the page shows to what runs.
  \<^item> \<open>UiPage\<close>, \<open>UiPageLaws\<close>, \<open>UiPageProps\<close>: the interface page (\<open>ui/designer.js\<close>, \<open>ui/dataAccess.js\<close>); the checks of its
    schema are composed from parts with one contract (locale \<open>repair\<close>).
  \<^item> \<open>InterfaceSession\<close>, \<open>InterfaceLaws\<close>, \<open>InterfaceProps\<close>, \<open>InterfaceItems\<close>: the sessions of that page, with the events of
    \<open>ui.html\<close>, the reloads and saves under way and their answers (\<open>answer_step\<close>, \<open>session_step\<close>). What the page relies on is the locale
    \<open>interface_server\<close>, interpreted by the designer's handler over the core. A reload settles whatever the order of the answers (the state between
    two answers is \<open>page_between\<close>), what is saved is what is served, and the selected item is always on the page.
  \<^item> \<open>PageTools\<close>: the splitter and the dialogs of \<open>tools.js\<close>, the file input of \<open>ui/fileReader.js\<close> with the step relations \<open>file_step\<close>
    (any user) and \<open>waiting_step\<close> (a user who waits for each file).

  \<^bold>\<open>Earlier scripts.\<close> \<open>LegacyWeb\<close>, \<open>LegacyProps\<close>: \<open>structure.js\<close>, \<open>images.js\<close>, \<open>net.js\<close>, \<open>modelBuilder.js\<close>, \<open>controllers.js\<close> and
  \<open>app.js\<close> of \<open>old_java_20141207/MyLife.Home.UI.Web\<close>, and \<open>bgrefresh.js\<close> of the hardware emulator of \<open>old_20131116\<close>.

  \<^bold>\<open>Bounds.\<close> Listeners call each other recursively and the code bounds this only by the JavaScript stack. The dispatch has a
  stack \<open>depth\<close>; \<open>StackOverflow\<close> is the exception at depth 0. A network whose links descend in a rank needs \<open>2 * rank + 2\<close>
  levels, then the result is the same for every larger depth (\<open>DispatchProps\<close>); a link cycle overflows every depth. The invariants
  hold for every depth, also when the stack overflows in the middle of a cascade. An unlinked plugin needs two levels; the sample uses 20. All
  other loops run over lists and end by structure.

  \<^bold>\<open>Parameters.\<close> The module that \<open>require\<close> loads for a plugin file, the icon of a file, \<open>deep-equal\<close> (instantiated by
  equality where a property needs it), the transport between designer or interface and core (\<open>direct\<close> has no errors), the device behind a
  hardware address, the windows that a stored description holds (\<open>decode\<close>, and \<open>parse\<close> and \<open>stringify\<close> for the interface page), the data URL of a file (\<open>url\<close>), the match of
  an address with a pattern of a route (\<open>route_matching\<close> states what express and angular document; \<open>strict_match\<close> satisfies it), the server's answer and the clock of the earlier scripts.

  \<^bold>\<open>Not modelled.\<close> Express, socket.io, angular, jQuery and jsPlumb and what only configures or calls them: the
  set-up of the servers, angular modules and resources, the look of what is drawn. IRC itself: that the last nick is delivered is a hypothesis. The conversion of error objects to JSON. Requests of other clients between those of one designer
  operation. The vendored libraries, and the programs in Java, C# and C.
\<close>

end
